(* ===== verification/Prelude.thy ===== *)
theory Prelude
  imports Main "HOL-Library.Word"
begin

text \<open>
  Shared vocabulary of the development: the result type of fallible Rust functions and its
  combinators, machine integers with Rust's checked and saturating operations, and the list
  lemmas that more than one component uses.

  A method with a \<open>&mut self\<close> receiver is modelled as a function that returns the new receiver
  together with the method's result, so that \<open>the receiver is unchanged on an error\<close> is a
  statement that has to be proved. \<open>u8\<close> to \<open>u64\<close> are words. \<open>usize\<close> is a natural number below
  \<open>2 ^ 64\<close> (the supported targets are 64-bit) with the overflow check written out: the lengths it
  measures are natural numbers.
\<close>

named_theorems rust_arith \<open>definitions of the checked and saturating integer operations\<close>
named_theorems result_simps \<open>characterisations of results that are \<open>Ok\<close> or \<open>Err\<close>\<close>

section \<open>Results\<close>

datatype ('a, 'e) result = Ok 'a | Err 'e

fun is_ok :: "('a, 'e) result \<Rightarrow> bool" where
  "is_ok (Ok _) = True"
| "is_ok (Err _) = False"

text \<open>The \<open>?\<close> operator.\<close>

fun and_then :: "('a, 'e) result \<Rightarrow> ('a \<Rightarrow> ('b, 'e) result) \<Rightarrow> ('b, 'e) result" where
  "and_then (Ok x) f = f x"
| "and_then (Err e) f = Err e"

fun map_err :: "('e \<Rightarrow> 'd) \<Rightarrow> ('a, 'e) result \<Rightarrow> ('a, 'd) result" where
  "map_err f (Ok x) = Ok x"
| "map_err f (Err e) = Err (f e)"

fun map_ok :: "('a \<Rightarrow> 'b) \<Rightarrow> ('a, 'e) result \<Rightarrow> ('b, 'e) result" where
  "map_ok f (Ok x) = Ok (f x)"
| "map_ok f (Err e) = Err e"

fun ok_or :: "'a option \<Rightarrow> 'e \<Rightarrow> ('a, 'e) result" where
  "ok_or (Some x) e = Ok x"
| "ok_or None e = Err e"

text \<open>An early return of an error, and its negation, the \<open>require\<close> helper of the contracts.\<close>

definition require :: "bool \<Rightarrow> 'e \<Rightarrow> (unit, 'e) result" where
  "require c e = (if c then Ok () else Err e)"

text \<open>\<open>Option<Result<..>>::transpose\<close>.\<close>

fun transpose_opt :: "('a, 'e) result option \<Rightarrow> ('a option, 'e) result" where
  "transpose_opt None = Ok None"
| "transpose_opt (Some (Ok x)) = Ok (Some x)"
| "transpose_opt (Some (Err e)) = Err e"

text \<open>\<open>collect::<Result<Vec<_>, _>>()\<close>: the first error wins.\<close>

fun collect_results :: "('a, 'e) result list \<Rightarrow> ('a list, 'e) result" where
  "collect_results [] = Ok []"
| "collect_results (Err e # rs) = Err e"
| "collect_results (Ok x # rs) =
     (case collect_results rs of Err e \<Rightarrow> Err e | Ok xs \<Rightarrow> Ok (x # xs))"

lemma and_then_Ok_iff [simp, result_simps]:
  "and_then r f = Ok y \<longleftrightarrow> (\<exists>x. r = Ok x \<and> f x = Ok y)"
  by (cases r) auto

lemma and_then_Err_iff [result_simps]:
  "and_then r f = Err e \<longleftrightarrow> r = Err e \<or> (\<exists>x. r = Ok x \<and> f x = Err e)"
  by (cases r) auto

lemma map_err_Ok_iff [simp, result_simps]: "map_err f r = Ok x \<longleftrightarrow> r = Ok x"
  by (cases r) auto

lemma map_err_Err_iff [simp, result_simps]:
  "map_err f r = Err d \<longleftrightarrow> (\<exists>e. r = Err e \<and> d = f e)"
  by (cases r) auto

lemma map_ok_Ok_iff [simp, result_simps]: "map_ok f r = Ok y \<longleftrightarrow> (\<exists>x. r = Ok x \<and> y = f x)"
  by (cases r) auto

lemma map_ok_Err_iff [simp, result_simps]: "map_ok f r = Err e \<longleftrightarrow> r = Err e"
  by (cases r) auto

lemma ok_or_Ok_iff [simp, result_simps]: "ok_or o' e = Ok x \<longleftrightarrow> o' = Some x"
  by (cases o') auto

lemma ok_or_Err_iff [simp, result_simps]: "ok_or o' e = Err d \<longleftrightarrow> o' = None \<and> d = e"
  by (cases o') auto

lemma require_True [simp]: "require True e = Ok ()"
  by (simp add: require_def)

lemma require_Ok_iff [simp, result_simps]: "require c e = Ok u \<longleftrightarrow> c"
  by (simp add: require_def)

lemma require_Err_iff [simp, result_simps]: "require c e = Err d \<longleftrightarrow> \<not> c \<and> d = e"
  by (auto simp: require_def)

lemma is_ok_iff: "is_ok r \<longleftrightarrow> (\<exists>x. r = Ok x)"
  by (cases r) auto

lemma not_is_ok_iff: "\<not> is_ok r \<longleftrightarrow> (\<exists>e. r = Err e)"
  by (cases r) auto

lemma transpose_opt_Ok_iff [simp, result_simps]:
  "transpose_opt r = Ok y \<longleftrightarrow> (r = None \<and> y = None) \<or> (\<exists>x. r = Some (Ok x) \<and> y = Some x)"
  by (cases r rule: transpose_opt.cases) auto

lemma collect_results_Ok_iff [result_simps]: "collect_results rs = Ok xs \<longleftrightarrow> rs = map Ok xs"
proof (induction rs arbitrary: xs rule: collect_results.induct)
  case (3 x rs)
  have "collect_results (Ok x # rs) = Ok xs \<longleftrightarrow> (\<exists>ys. collect_results rs = Ok ys \<and> xs = x # ys)"
    by (auto split: result.splits)
  also have "\<dots> \<longleftrightarrow> (\<exists>ys. rs = map Ok ys \<and> xs = x # ys)"
    by (simp add: "3.IH")
  also have "\<dots> \<longleftrightarrow> Ok x # rs = map Ok xs"
    by (auto simp: Cons_eq_map_conv)
  finally show ?case .
qed auto

lemma fst_case_prod_keep [simp]: "fst (case p of (a, b) \<Rightarrow> (a, f a b)) = fst p"
  by (cases p) simp

lemma find_SomeD: "find P xs = Some x \<Longrightarrow> P x \<and> x \<in> set xs"
  by (auto simp: find_Some_iff)

text \<open>\<open>strip_prefix\<close> of strings and slices.\<close>

definition strip_prefix :: "'a list \<Rightarrow> 'a list \<Rightarrow> 'a list option" where
  "strip_prefix p xs = (if take (length p) xs = p then Some (drop (length p) xs) else None)"

lemma strip_prefix_Some_iff: "strip_prefix p xs = Some ys \<longleftrightarrow> xs = p @ ys"
  by (auto simp: strip_prefix_def dest: sym [of "take _ _"])
    (metis append_take_drop_id)

section \<open>Machine integers\<close>

type_synonym u8 = "8 word"
type_synonym u16 = "16 word"
type_synonym u32 = "32 word"
type_synonym u64 = "64 word"
type_synonym usize = nat

definition usize_limit :: nat where
  "usize_limit = 2 ^ 64"

definition checked_add :: "'a::len word \<Rightarrow> 'a word \<Rightarrow> 'a word option" where
  "checked_add a b = (if unat a + unat b < 2 ^ LENGTH('a) then Some (a + b) else None)"

definition checked_sub :: "'a::len word \<Rightarrow> 'a word \<Rightarrow> 'a word option" where
  "checked_sub a b = (if b \<le> a then Some (a - b) else None)"

definition checked_mul :: "'a::len word \<Rightarrow> 'a word \<Rightarrow> 'a word option" where
  "checked_mul a b = (if unat a * unat b < 2 ^ LENGTH('a) then Some (a * b) else None)"

definition checked_div :: "'a::len word \<Rightarrow> 'a word \<Rightarrow> 'a word option" where
  "checked_div a b = (if b = 0 then None else Some (a div b))"

definition saturating_add :: "'a::len word \<Rightarrow> 'a word \<Rightarrow> 'a word" where
  "saturating_add a b = (if unat a + unat b < 2 ^ LENGTH('a) then a + b else - 1)"

definition saturating_sub :: "'a::len word \<Rightarrow> 'a word \<Rightarrow> 'a word" where
  "saturating_sub a b = (if b \<le> a then a - b else 0)"

definition saturating_mul :: "'a::len word \<Rightarrow> 'a word \<Rightarrow> 'a word" where
  "saturating_mul a b = (if unat a * unat b < 2 ^ LENGTH('a) then a * b else - 1)"

definition usize_checked_add :: "usize \<Rightarrow> usize \<Rightarrow> usize option" where
  "usize_checked_add a b = (if a + b < usize_limit then Some (a + b) else None)"

lemmas [rust_arith] =
  checked_add_def checked_sub_def checked_mul_def checked_div_def
  saturating_add_def saturating_sub_def saturating_mul_def

lemma checked_add_SomeD:
  fixes a b :: "'a::len word"
  assumes "checked_add a b = Some c"
  shows "c = a + b" and "unat c = unat a + unat b"
  using assms by (auto simp: checked_add_def unat_word_ariths split: if_splits)

lemma checked_add_Some_unat:
  fixes a b :: "'a::len word"
  shows "checked_add a b = Some c \<longleftrightarrow> unat c = unat a + unat b"
proof
  assume "unat c = unat a + unat b"
  moreover have "unat c < 2 ^ LENGTH('a)" by (rule unsigned_less)
  ultimately have "unat a + unat b < 2 ^ LENGTH('a)" by simp
  moreover from this have "unat (a + b) = unat a + unat b"
    by (simp add: unat_word_ariths)
  ultimately show "checked_add a b = Some c"
    using \<open>unat c = unat a + unat b\<close> by (simp add: checked_add_def word_unat_eq_iff)
qed (rule checked_add_SomeD)

lemma checked_add_None_iff:
  fixes a b :: "'a::len word"
  shows "checked_add a b = None \<longleftrightarrow> 2 ^ LENGTH('a) \<le> unat a + unat b"
  by (auto simp: checked_add_def)

lemma checked_mul_SomeD:
  fixes a b :: "'a::len word"
  assumes "checked_mul a b = Some c"
  shows "unat c = unat a * unat b"
  using assms by (auto simp: checked_mul_def unat_word_ariths split: if_splits)

lemma checked_sub_SomeD:
  fixes a b :: "'a::len word"
  assumes "checked_sub a b = Some c"
  shows "b \<le> a" and "unat c = unat a - unat b"
  using assms by (auto simp: checked_sub_def unat_sub split: if_splits)

lemma unat_saturating_sub: "unat (saturating_sub a b) = unat a - unat b"
  by (auto simp: saturating_sub_def unat_sub word_le_nat_alt)

lemma unat_minus_one_eq: "unat (- 1 :: 'a::len word) = 2 ^ LENGTH('a) - 1"
  by (simp add: unsigned_minus_1_eq_mask mask_eq_exp_minus_1)

lemma unat_saturating_add:
  fixes a b :: "'a::len word"
  shows "unat (saturating_add a b) = min (unat a + unat b) (2 ^ LENGTH('a) - 1)"
  by (auto simp: saturating_add_def unat_word_ariths unat_minus_one_eq min_def)

lemma unat_saturating_mul:
  fixes a b :: "'a::len word"
  shows "unat (saturating_mul a b) = min (unat a * unat b) (2 ^ LENGTH('a) - 1)"
proof (cases "unat a * unat b < 2 ^ LENGTH('a)")
  case True
  then show ?thesis by (simp add: saturating_mul_def unat_word_ariths)
next
  case False
  then have "2 ^ LENGTH('a) - 1 \<le> unat a * unat b" by simp
  with False show ?thesis
    by (simp only: saturating_mul_def if_False unat_minus_one_eq min_absorb2)
qed

lemma unat_u64_less: "unat (w :: u64) < 2 ^ 64"
  using unsigned_less [of w, where 'a = nat] by simp

lemma unat_ucast_widen:
  fixes w :: "'a::len word"
  assumes "LENGTH('a) \<le> LENGTH('b::len)"
  shows "unat (ucast w :: 'b word) = unat w"
proof -
  have "unat w < 2 ^ LENGTH('b)"
    by (rule less_le_trans [OF unsigned_less]) (simp add: assms)
  then show ?thesis by (simp add: unsigned_ucast_eq take_bit_nat_eq_self)
qed

lemma usize_checked_add_SomeD: "usize_checked_add a b = Some c \<Longrightarrow> c = a + b"
  by (simp add: usize_checked_add_def split: if_splits)

end
