(* ===== verification/Rust_Text.thy ===== *)
theory Rust_Text
  imports Prelude
begin

text \<open>
  Rust strings. A \<open>str\<close> is the list of its Unicode scalar values (\<open>chars()\<close>); its byte length
  (\<open>len()\<close>), its bytes and its UTF-16 code units are computed from the encodings, because the
  gateway bounds some fields in bytes, some in scalars and some in UTF-16 units. \<open>is_whitespace\<close>
  is the Unicode property \<open>White_Space\<close> and \<open>is_control\<close> the general category \<open>Cc\<close>, both
  complete. The tables behind \<open>to_lowercase\<close> and \<open>is_alphanumeric\<close> are not reproduced: the
  components that use them take them as arguments.
\<close>

section \<open>Strings and their encodings\<close>

type_synonym scalar = nat
type_synonym str = "scalar list"

definition lit :: "string \<Rightarrow> str" where
  "lit s = map of_char s"

definition valid_scalar :: "scalar \<Rightarrow> bool" where
  "valid_scalar c \<longleftrightarrow> c < 0x110000 \<and> \<not> (0xD800 \<le> c \<and> c < 0xE000)"

definition wf_str :: "str \<Rightarrow> bool" where
  "wf_str s \<longleftrightarrow> list_all valid_scalar s"

definition byte :: "nat \<Rightarrow> u8" where
  "byte n = word_of_nat n"

definition utf8_char :: "scalar \<Rightarrow> u8 list" where
  "utf8_char c =
     (if c < 0x80 then [byte c]
      else if c < 0x800 then [byte (0xC0 + c div 64), byte (0x80 + c mod 64)]
      else if c < 0x10000 then
        [byte (0xE0 + c div 4096), byte (0x80 + c div 64 mod 64), byte (0x80 + c mod 64)]
      else
        [byte (0xF0 + c div 262144), byte (0x80 + c div 4096 mod 64),
         byte (0x80 + c div 64 mod 64), byte (0x80 + c mod 64)])"

definition str_bytes :: "str \<Rightarrow> u8 list" where
  "str_bytes s = concat (map utf8_char s)"

text \<open>\<open>str::len\<close>: the number of UTF-8 bytes.\<close>

definition str_len :: "str \<Rightarrow> usize" where
  "str_len s = length (str_bytes s)"

definition utf16_char :: "scalar \<Rightarrow> nat list" where
  "utf16_char c =
     (if c < 0x10000 then [c]
      else [0xD800 + (c - 0x10000) div 1024, 0xDC00 + (c - 0x10000) mod 1024])"

definition encode_utf16 :: "str \<Rightarrow> nat list" where
  "encode_utf16 s = concat (map utf16_char s)"

definition utf16_len :: "str \<Rightarrow> usize" where
  "utf16_len s = length (encode_utf16 s)"

definition is_whitespace :: "scalar \<Rightarrow> bool" where
  "is_whitespace c \<longleftrightarrow>
     (9 \<le> c \<and> c \<le> 13) \<or> c = 0x20 \<or> c = 0x85 \<or> c = 0xA0 \<or> c = 0x1680 \<or>
     (0x2000 \<le> c \<and> c \<le> 0x200A) \<or> c = 0x2028 \<or> c = 0x2029 \<or> c = 0x202F \<or> c = 0x205F \<or>
     c = 0x3000"

definition is_control :: "scalar \<Rightarrow> bool" where
  "is_control c \<longleftrightarrow> c < 0x20 \<or> (0x7F \<le> c \<and> c < 0xA0)"

definition has_control :: "str \<Rightarrow> bool" where
  "has_control s \<longleftrightarrow> list_ex is_control s"

section \<open>Trimming, splitting and joining\<close>

definition trim_start :: "str \<Rightarrow> str" where
  "trim_start s = dropWhile is_whitespace s"

definition trim_end :: "str \<Rightarrow> str" where
  "trim_end s = rev (dropWhile is_whitespace (rev s))"

definition trim :: "str \<Rightarrow> str" where
  "trim s = trim_end (trim_start s)"

function split_whitespace :: "str \<Rightarrow> str list" where
  "split_whitespace s =
     (case dropWhile is_whitespace s of
        [] \<Rightarrow> []
      | c # cs \<Rightarrow> takeWhile (\<lambda>x. \<not> is_whitespace x) (c # cs)
                  # split_whitespace (dropWhile (\<lambda>x. \<not> is_whitespace x) (c # cs)))"
  by pat_completeness auto
termination
proof (relation "measure length")
  fix s c cs
  assume "dropWhile is_whitespace s = c # cs"
  then have "\<not> is_whitespace c" and "length (c # cs) \<le> length s"
    by (metis hd_dropWhile list.distinct(1) list.sel(1), metis length_dropWhile_le)
  then show "(dropWhile (\<lambda>x. \<not> is_whitespace x) (c # cs), s) \<in> measure length"
    using length_dropWhile_le [of "\<lambda>x. \<not> is_whitespace x" cs] by simp
qed simp

declare split_whitespace.simps [simp del]

fun join :: "str \<Rightarrow> str list \<Rightarrow> str" where
  "join sep [] = []"
| "join sep [x] = x"
| "join sep (x # y # ys) = x @ sep @ join sep (y # ys)"

text \<open>The whitespace normalisation \<open>split_whitespace().collect::<Vec<_>>().join(" ")\<close>.\<close>

definition normalize_whitespace :: "str \<Rightarrow> str" where
  "normalize_whitespace s = join (lit '' '') (split_whitespace s)"

text \<open>What \<open>split_whitespace\<close> yields.\<close>

definition is_word :: "str \<Rightarrow> bool" where
  "is_word w \<longleftrightarrow> w \<noteq> [] \<and> list_all (\<lambda>c. \<not> is_whitespace c) w"

section \<open>ASCII classes of bytes\<close>

definition ascii_digit :: "u8 \<Rightarrow> bool" where
  "ascii_digit b \<longleftrightarrow> 0x30 \<le> b \<and> b \<le> 0x39"

definition ascii_uppercase :: "u8 \<Rightarrow> bool" where
  "ascii_uppercase b \<longleftrightarrow> 0x41 \<le> b \<and> b \<le> 0x5A"

definition ascii_lowercase :: "u8 \<Rightarrow> bool" where
  "ascii_lowercase b \<longleftrightarrow> 0x61 \<le> b \<and> b \<le> 0x7A"

definition ascii_alphanumeric :: "u8 \<Rightarrow> bool" where
  "ascii_alphanumeric b \<longleftrightarrow> ascii_digit b \<or> ascii_uppercase b \<or> ascii_lowercase b"

definition lowercase_hex :: "u8 \<Rightarrow> bool" where
  "lowercase_hex b \<longleftrightarrow> ascii_digit b \<or> (0x61 \<le> b \<and> b \<le> 0x66)"

text \<open>\<open>(0x20..=0x7e).contains(&byte)\<close>.\<close>

definition printable_ascii :: "u8 \<Rightarrow> bool" where
  "printable_ascii b \<longleftrightarrow> 0x20 \<le> b \<and> b \<le> 0x7E"

section \<open>Facts\<close>

lemma lit_Nil [simp]: "lit [] = []" and lit_Cons [simp]: "lit (c # s) = of_char c # lit s"
  by (simp_all add: lit_def)

lemma lit_eq_iff [simp]: "lit s = lit t \<longleftrightarrow> s = t"
  by (simp add: lit_def inj_map_eq_map inj_def)

lemma str_bytes_Nil [simp]: "str_bytes [] = []"
  and str_bytes_Cons [simp]: "str_bytes (c # s) = utf8_char c @ str_bytes s"
  and str_bytes_append [simp]: "str_bytes (s @ t) = str_bytes s @ str_bytes t"
  by (simp_all add: str_bytes_def)

lemma encode_utf16_Nil [simp]: "encode_utf16 [] = []"
  and encode_utf16_Cons [simp]: "encode_utf16 (c # s) = utf16_char c @ encode_utf16 s"
  by (simp_all add: encode_utf16_def)

lemma str_len_Nil [simp]: "str_len [] = 0"
  and str_len_append [simp]: "str_len (s @ t) = str_len s + str_len t"
  by (simp_all add: str_len_def)

lemma utf8_char_length: "1 \<le> length (utf8_char c) \<and> length (utf8_char c) \<le> 4"
  by (simp add: utf8_char_def)

lemma str_len_Cons [simp]: "str_len (c # s) = length (utf8_char c) + str_len s"
  by (simp add: str_len_def)

lemma str_len_lower: "length s \<le> str_len s"
proof (induction s)
  case (Cons c s)
  then show ?case using utf8_char_length [of c] by simp
qed simp

lemma str_len_zero_iff [simp]: "str_len s = 0 \<longleftrightarrow> s = []"
  using str_len_lower [of s] by auto

lemma utf16_le_utf8: "utf16_len s \<le> str_len s"
proof (induction s)
  case (Cons c s)
  moreover have "length (utf16_char c) \<le> length (utf8_char c)"
    by (simp add: utf16_char_def utf8_char_def)
  ultimately show ?case by (simp add: utf16_len_def)
qed (simp add: utf16_len_def)

lemma trim_Nil [simp]: "trim [] = []"
  by (simp add: trim_def trim_start_def trim_end_def)

lemma hd_trim_start: "trim_start s \<noteq> [] \<Longrightarrow> \<not> is_whitespace (hd (trim_start s))"
  unfolding trim_start_def by (rule hd_dropWhile)

lemma trim_end_prefix: "\<exists>t. s = trim_end s @ t"
  unfolding trim_end_def
  by (metis rev_append rev_rev_ident takeWhile_dropWhile_id)

lemma trim_hd_last:
  assumes "trim s \<noteq> []"
  shows "\<not> is_whitespace (hd (trim s))" and "\<not> is_whitespace (last (trim s))"
proof -
  obtain t where t: "trim_start s = trim s @ t"
    using trim_end_prefix [of "trim_start s"] by (auto simp: trim_def)
  then have "trim_start s \<noteq> []" and "hd (trim_start s) = hd (trim s)"
    using assms by auto
  then show "\<not> is_whitespace (hd (trim s))"
    using hd_trim_start [of s] by simp
  have "dropWhile is_whitespace (rev (trim_start s)) \<noteq> []"
    using assms by (simp add: trim_def trim_end_def)
  then have "\<not> is_whitespace (hd (dropWhile is_whitespace (rev (trim_start s))))"
    by (rule hd_dropWhile)
  then show "\<not> is_whitespace (last (trim s))"
    using assms by (simp add: trim_def trim_end_def last_rev)
qed

lemma trim_eq_self:
  assumes "s = [] \<or> \<not> is_whitespace (hd s) \<and> \<not> is_whitespace (last s)"
  shows "trim s = s"
proof (cases "s = []")
  case False
  with assms have "\<not> is_whitespace (hd s)" and "\<not> is_whitespace (last s)" by auto
  then have "trim_start s = s" and "dropWhile is_whitespace (rev s) = rev s"
    by (simp_all add: trim_start_def dropWhile_eq_self_iff hd_rev)
  then show ?thesis by (simp add: trim_def trim_end_def)
qed simp

lemma trim_idem [simp]: "trim (trim s) = trim s"
  using trim_eq_self trim_hd_last by blast

lemma has_control_Cons [simp]: "has_control (c # s) \<longleftrightarrow> is_control c \<or> has_control s"
  and has_control_Nil [simp]: "\<not> has_control []"
  by (simp_all add: has_control_def)

section \<open>Words\<close>

lemma split_whitespace_Nil [simp]: "split_whitespace [] = []"
  by (subst split_whitespace.simps) simp

lemma split_whitespace_space [simp]: "is_whitespace c \<Longrightarrow> split_whitespace (c # s) = split_whitespace s"
  by (subst (1 2) split_whitespace.simps) simp

lemma split_whitespace_nonspace:
  "\<not> is_whitespace c \<Longrightarrow> split_whitespace (c # s) =
     takeWhile (\<lambda>x. \<not> is_whitespace x) (c # s) # split_whitespace (dropWhile (\<lambda>x. \<not> is_whitespace x) s)"
  by (subst split_whitespace.simps) simp

lemma split_whitespace_words: "list_all is_word (split_whitespace s)"
proof (induction "length s" arbitrary: s rule: less_induct)
  case less
  show ?case
  proof (cases s)
    case (Cons c cs)
    have d: "length (dropWhile (\<lambda>x. \<not> is_whitespace x) cs) < length s"
      using length_dropWhile_le [of "\<lambda>x. \<not> is_whitespace x" cs] Cons by simp
    have tail: "list_all is_word (split_whitespace (dropWhile (\<lambda>x. \<not> is_whitespace x) cs))"
      by (rule less [OF d])
    have whole: "list_all is_word (split_whitespace cs)"
      by (rule less) (simp add: Cons)
    have "is_word (takeWhile (\<lambda>x. \<not> is_whitespace x) (c # cs))" if "\<not> is_whitespace c"
      using that by (auto simp: is_word_def list_all_iff dest: set_takeWhileD)
    then show ?thesis
      using tail whole Cons by (cases "is_whitespace c") (simp_all add: split_whitespace_nonspace)
  qed simp
qed

lemma no_space_takeWhile:
  assumes "\<forall>y\<in>set xs. \<not> is_whitespace y"
  shows "takeWhile (\<lambda>x. \<not> is_whitespace x) xs = xs" and "dropWhile (\<lambda>x. \<not> is_whitespace x) xs = []"
  using assms by (auto simp: takeWhile_eq_all_conv dropWhile_eq_Nil_conv)

lemma split_whitespace_append:
  assumes "is_whitespace c"
  shows "split_whitespace (a @ c # b) = split_whitespace a @ split_whitespace b"
proof (induction "length a" arbitrary: a rule: less_induct)
  case less
  show ?case
  proof (cases a)
    case Nil
    then show ?thesis using assms by simp
  next
    case (Cons x xs)
    let ?nw = "\<lambda>x. \<not> is_whitespace x"
    have d: "length (dropWhile ?nw xs) < length a"
      using length_dropWhile_le [of ?nw xs] Cons by simp
    show ?thesis
    proof (cases "is_whitespace x")
      case True
      then show ?thesis using less [of xs] Cons by simp
    next
      case False
      then show ?thesis
        using less [OF d] Cons assms
        by (cases "\<forall>y\<in>set xs. ?nw y")
          (simp_all add: split_whitespace_nonspace takeWhile_append dropWhile_append no_space_takeWhile)
    qed
  qed
qed

lemma split_whitespace_word: "is_word w \<Longrightarrow> split_whitespace w = [w]"
  by (cases w) (simp_all add: is_word_def split_whitespace_nonspace list_all_iff no_space_takeWhile)

lemma split_whitespace_join:
  assumes "list_all is_word ws"
  shows "split_whitespace (join (lit '' '') ws) = ws"
  using assms
proof (induction "lit '' ''" ws rule: join.induct)
  case (3 x y ys)
  have "is_whitespace 32" by (simp add: is_whitespace_def)
  with 3 show ?case by (simp add: split_whitespace_append split_whitespace_word)
qed (auto simp: split_whitespace_word)

lemma trim_Nil_iff: "trim s = [] \<longleftrightarrow> list_all is_whitespace s"
proof
  assume "list_all is_whitespace s"
  then show "trim s = []"
    by (auto simp: trim_def trim_start_def trim_end_def list_all_iff dropWhile_eq_Nil_conv
        dest: set_dropWhileD)
next
  assume "trim s = []"
  then have "list_all is_whitespace (trim_start s)"
    by (auto simp: trim_def trim_end_def dropWhile_eq_Nil_conv list_all_iff)
  moreover have "trim_start s = [] \<or> \<not> is_whitespace (hd (trim_start s))"
    using hd_trim_start by blast
  ultimately have "trim_start s = []" by (meson hd_in_set list_all_iff)
  then show "list_all is_whitespace s" by (simp add: trim_start_def dropWhile_eq_Nil_conv list_all_iff)
qed

lemma split_whitespace_blank: "list_all is_whitespace s \<Longrightarrow> split_whitespace s = []"
  by (induction s) auto

end
