(* ===== verification/Batch_Domain.thy ===== *)
theory Batch_Domain
  imports Rust_Text
begin

text \<open>
  The lifecycle of one provider-bound batch job:
  \<^verbatim>\<open>crates/voicetext-speech/src/domain/batch.rs\<close>. The attempt counter is a \<open>NonZeroU32\<close> in the
  source; here it is a 32-bit word and \<open>wf_state\<close> says it is not zero, an invariant that every
  transition keeps.
\<close>

section \<open>Profiles, fingerprints and failure codes\<close>

record BatchProfile =
  bp_contract_version :: u16
  bp_provider :: str
  bp_model :: str
  bp_language :: str

datatype BatchProfileField = ProviderField | ModelField | LanguageField

datatype InvalidBatchProfile = ZeroContractVersion | InvalidIdentity BatchProfileField

definition validate_profile_field ::
  "str \<Rightarrow> BatchProfileField \<Rightarrow> (unit, InvalidBatchProfile) result" where
  "validate_profile_field value field =
     (if value = [] \<or> trim value \<noteq> value \<or> has_control value then Err (InvalidIdentity field)
      else Ok ())"

definition profile_new ::
  "u16 \<Rightarrow> str \<Rightarrow> str \<Rightarrow> str \<Rightarrow> (BatchProfile, InvalidBatchProfile) result" where
  "profile_new contract_version provider model language =
     (if contract_version = 0 then Err ZeroContractVersion
      else and_then (validate_profile_field provider ProviderField) (\<lambda>_.
           and_then (validate_profile_field model ModelField) (\<lambda>_.
           and_then (validate_profile_field language LanguageField) (\<lambda>_.
           Ok \<lparr>bp_contract_version = contract_version, bp_provider = provider,
               bp_model = model, bp_language = language\<rparr>))))"

text \<open>A SHA-256 digest. The array length is part of the Rust type; \<open>wf_fingerprint\<close> states it.\<close>

type_synonym BatchRequestFingerprint = "u8 list"

definition wf_fingerprint :: "BatchRequestFingerprint \<Rightarrow> bool" where
  "wf_fingerprint f \<longleftrightarrow> length f = 32"

datatype BatchFailure = BatchFailure (failure_code: str)

datatype InvalidBatchFailure = InvalidCode | CodeTooLong

definition MAX_CODE_BYTES :: usize where
  "MAX_CODE_BYTES = 128"

definition failure_new :: "str \<Rightarrow> (BatchFailure, InvalidBatchFailure) result" where
  "failure_new code =
     (if code = [] \<or> trim code \<noteq> code then Err InvalidCode
      else if str_len code > MAX_CODE_BYTES then Err CodeTooLong
      else if has_control code then Err InvalidCode
      else Ok (BatchFailure code))"

section \<open>Job state\<close>

datatype BatchUnknownOutcome = Submission BatchFailure | InterruptedSubmission

datatype BatchJobState =
    Accepted
  | Submitting u32
  | Retryable u32 BatchFailure
  | Completed u32
  | Failed u32 BatchFailure
  | OutcomeUnknown u32 BatchUnknownOutcome

datatype BatchJobStatus =
  StAccepted | StSubmitting | StRetryable | StCompleted | StFailed | StOutcomeUnknown

fun status :: "BatchJobState \<Rightarrow> BatchJobStatus" where
  "status Accepted = StAccepted"
| "status (Submitting _) = StSubmitting"
| "status (Retryable _ _) = StRetryable"
| "status (Completed _) = StCompleted"
| "status (Failed _ _) = StFailed"
| "status (OutcomeUnknown _ _) = StOutcomeUnknown"

fun is_terminal :: "BatchJobState \<Rightarrow> bool" where
  "is_terminal (Completed _) = True"
| "is_terminal (Failed _ _) = True"
| "is_terminal (OutcomeUnknown _ _) = True"
| "is_terminal _ = False"

record BatchJob =
  job_profile :: BatchProfile
  job_fingerprint :: BatchRequestFingerprint
  job_state :: BatchJobState

datatype BatchTransitionError =
    InvalidTransition BatchJobStatus BatchJobStatus
  | AttemptOverflow u32

section \<open>Transitions\<close>

definition accept :: "BatchProfile \<Rightarrow> BatchRequestFingerprint \<Rightarrow> BatchJob" where
  "accept profile fingerprint =
     \<lparr>job_profile = profile, job_fingerprint = fingerprint, job_state = Accepted\<rparr>"

definition restore ::
  "BatchProfile \<Rightarrow> BatchRequestFingerprint \<Rightarrow> BatchJobState \<Rightarrow> BatchJob" where
  "restore profile fingerprint state =
     \<lparr>job_profile = profile, job_fingerprint = fingerprint, job_state = state\<rparr>"

definition begin_submission ::
  "BatchJob \<Rightarrow> BatchJob \<times> (u32, BatchTransitionError) result" where
  "begin_submission self =
     (let attempt =
        (case job_state self of
           Accepted \<Rightarrow> Ok 1
         | Retryable attempt _ \<Rightarrow> ok_or (checked_add attempt 1) (AttemptOverflow attempt)
         | state \<Rightarrow> Err (InvalidTransition (status state) StSubmitting))
      in case attempt of
           Err e \<Rightarrow> (self, Err e)
         | Ok a \<Rightarrow> (self\<lparr>job_state := Submitting a\<rparr>, Ok a))"

definition submission_attempt ::
  "BatchJob \<Rightarrow> BatchJobStatus \<Rightarrow> (u32, BatchTransitionError) result" where
  "submission_attempt self target =
     (case job_state self of
        Submitting attempt \<Rightarrow> Ok attempt
      | state \<Rightarrow> Err (InvalidTransition (status state) target))"

definition record_retryable_failure ::
  "BatchJob \<Rightarrow> BatchFailure \<Rightarrow> BatchJob \<times> (unit, BatchTransitionError) result" where
  "record_retryable_failure self failure =
     (case submission_attempt self StRetryable of
        Err e \<Rightarrow> (self, Err e)
      | Ok attempt \<Rightarrow> (self\<lparr>job_state := Retryable attempt failure\<rparr>, Ok ()))"

definition job_complete :: "BatchJob \<Rightarrow> BatchJob \<times> (unit, BatchTransitionError) result" where
  "job_complete self =
     (case submission_attempt self StCompleted of
        Err e \<Rightarrow> (self, Err e)
      | Ok attempt \<Rightarrow> (self\<lparr>job_state := Completed attempt\<rparr>, Ok ()))"

definition job_fail ::
  "BatchJob \<Rightarrow> BatchFailure \<Rightarrow> BatchJob \<times> (unit, BatchTransitionError) result" where
  "job_fail self failure =
     (case submission_attempt self StFailed of
        Err e \<Rightarrow> (self, Err e)
      | Ok attempt \<Rightarrow> (self\<lparr>job_state := Failed attempt failure\<rparr>, Ok ()))"

definition record_unknown_outcome ::
  "BatchJob \<Rightarrow> BatchFailure \<Rightarrow> BatchJob \<times> (unit, BatchTransitionError) result" where
  "record_unknown_outcome self failure =
     (case submission_attempt self StOutcomeUnknown of
        Err e \<Rightarrow> (self, Err e)
      | Ok attempt \<Rightarrow> (self\<lparr>job_state := OutcomeUnknown attempt (Submission failure)\<rparr>, Ok ()))"

definition recover_interrupted_submission :: "BatchJob \<Rightarrow> BatchJob \<times> bool" where
  "recover_interrupted_submission self =
     (case job_state self of
        Submitting attempt \<Rightarrow>
          (self\<lparr>job_state := OutcomeUnknown attempt InterruptedSubmission\<rparr>, True)
      | _ \<Rightarrow> (self, False))"

section \<open>Calls on a job and their specification\<close>

text \<open>
  A client can only call the methods above, in any order. \<open>job_call\<close> names the calls,
  \<open>call_job\<close> performs one and says whether it was a successful \<open>begin_submission\<close>, that is,
  whether it licenses one paid provider submission.
\<close>

datatype job_call =
    CallBegin
  | CallRetryable BatchFailure
  | CallComplete
  | CallFail BatchFailure
  | CallUnknown BatchFailure
  | CallRecover

fun call_job :: "BatchJob \<Rightarrow> job_call \<Rightarrow> BatchJob \<times> bool" where
  "call_job j CallBegin = (case begin_submission j of (j', r) \<Rightarrow> (j', is_ok r))"
| "call_job j (CallRetryable f) = (fst (record_retryable_failure j f), False)"
| "call_job j CallComplete = (fst (job_complete j), False)"
| "call_job j (CallFail f) = (fst (job_fail j f), False)"
| "call_job j (CallUnknown f) = (fst (record_unknown_outcome j f), False)"
| "call_job j CallRecover = (fst (recover_interrupted_submission j), False)"

fun run_job :: "BatchJob \<Rightarrow> job_call list \<Rightarrow> BatchJob \<times> nat" where
  "run_job j [] = (j, 0)"
| "run_job j (c # cs) =
     (let (j', licensed) = call_job j c; (j'', n) = run_job j' cs
      in (j'', (if licensed then 1 else 0) + n))"

definition attempt_of :: "BatchJobState \<Rightarrow> nat" where
  "attempt_of s =
     (case s of Accepted \<Rightarrow> 0 | Submitting a \<Rightarrow> unat a | Retryable a _ \<Rightarrow> unat a
      | Completed a \<Rightarrow> unat a | Failed a _ \<Rightarrow> unat a | OutcomeUnknown a _ \<Rightarrow> unat a)"

definition wf_state :: "BatchJobState \<Rightarrow> bool" where
  "wf_state s \<longleftrightarrow> s = Accepted \<or> 0 < attempt_of s"

text \<open>
  The Rust types already guarantee that a profile and a failure were built by their
  constructors, that a fingerprint has 32 bytes and that an attempt is not zero.
\<close>

definition wf_failure :: "BatchFailure \<Rightarrow> bool" where
  "wf_failure f \<longleftrightarrow> failure_new (failure_code f) = Ok f"

fun wf_job_state :: "BatchJobState \<Rightarrow> bool" where
  "wf_job_state Accepted = True"
| "wf_job_state (Submitting a) = (a \<noteq> 0)"
| "wf_job_state (Retryable a f) = (a \<noteq> 0 \<and> wf_failure f)"
| "wf_job_state (Completed a) = (a \<noteq> 0)"
| "wf_job_state (Failed a f) = (a \<noteq> 0 \<and> wf_failure f)"
| "wf_job_state (OutcomeUnknown a (Submission f)) = (a \<noteq> 0 \<and> wf_failure f)"
| "wf_job_state (OutcomeUnknown a InterruptedSubmission) = (a \<noteq> 0)"

definition wf_profile :: "BatchProfile \<Rightarrow> bool" where
  "wf_profile p \<longleftrightarrow>
     profile_new (bp_contract_version p) (bp_provider p) (bp_model p) (bp_language p) = Ok p"

definition wf_job :: "BatchJob \<Rightarrow> bool" where
  "wf_job j \<longleftrightarrow> wf_profile (job_profile j) \<and> wf_fingerprint (job_fingerprint j) \<and> wf_job_state (job_state j)"

text \<open>The abstract specification: the documented edges between statuses.\<close>

inductive lifecycle_edge :: "BatchJobStatus \<Rightarrow> BatchJobStatus \<Rightarrow> bool" where
  submit: "lifecycle_edge StAccepted StSubmitting"
| resubmit: "lifecycle_edge StRetryable StSubmitting"
| not_accepted: "lifecycle_edge StSubmitting StRetryable"
| completed: "lifecycle_edge StSubmitting StCompleted"
| failed: "lifecycle_edge StSubmitting StFailed"
| unknown: "lifecycle_edge StSubmitting StOutcomeUnknown"

inductive_simps lifecycle_edge_from [simp]:
  "lifecycle_edge StAccepted t" "lifecycle_edge StSubmitting t" "lifecycle_edge StRetryable t"
  "lifecycle_edge StCompleted t" "lifecycle_edge StFailed t" "lifecycle_edge StOutcomeUnknown t"

lemmas transition_defs =
  begin_submission_def submission_attempt_def record_retryable_failure_def job_complete_def
  job_fail_def record_unknown_outcome_def recover_interrupted_submission_def

lemma attempt_of_simps [simp]:
  "attempt_of Accepted = 0" "attempt_of (Submitting a) = unat a"
  "attempt_of (Retryable a f) = unat a" "attempt_of (Completed a) = unat a"
  "attempt_of (Failed a f) = unat a" "attempt_of (OutcomeUnknown a u) = unat a"
  by (simp_all add: attempt_of_def)

section \<open>One call\<close>

lemma begin_submission_attempt:
  assumes "begin_submission j = (j', Ok a)"
  shows "job_state j' = Submitting a" and "unat a = attempt_of (job_state j) + 1"
    and "job_profile j' = job_profile j" and "job_fingerprint j' = job_fingerprint j"
    and "job_state j = Accepted \<or> (\<exists>b f. job_state j = Retryable b f)"
  using assms
  by (auto simp: begin_submission_def Let_def dest: checked_add_SomeD(2)
      split: BatchJobState.splits result.splits)

lemma begin_submission_Err_unchanged: "begin_submission j = (j', Err e) \<Longrightarrow> j' = j"
  by (auto simp: begin_submission_def Let_def split: BatchJobState.splits result.splits)

lemma call_job_identity:
  "job_profile (fst (call_job j c)) = job_profile j"
  "job_fingerprint (fst (call_job j c)) = job_fingerprint j"
  by (cases c; cases "job_state j"; auto simp: transition_defs Let_def split: result.splits)+

lemma call_job_attempt:
  "attempt_of (job_state (fst (call_job j c))) =
     attempt_of (job_state j) + (if snd (call_job j c) then 1 else 0)"
proof (cases c)
  case CallBegin
  then show ?thesis
    using begin_submission_attempt(1,2) begin_submission_Err_unchanged
    by (cases "begin_submission j"; cases "snd (begin_submission j)") fastforce+
qed (cases "job_state j"; simp add: transition_defs)+

lemma call_job_edge:
  "call_job j c = (j', b) \<Longrightarrow> j' \<noteq> j \<Longrightarrow> lifecycle_edge (status (job_state j)) (status (job_state j'))"
  by (cases c; cases "job_state j"; auto simp: transition_defs Let_def split: result.splits)

lemma call_job_terminal: "is_terminal (job_state j) \<Longrightarrow> call_job j c = (j, False)"
  by (cases c; cases "job_state j"; simp add: transition_defs)

lemma call_job_wf: "wf_state (job_state j) \<Longrightarrow> wf_state (job_state (fst (call_job j c)))"
  using call_job_attempt [of j c]
  by (cases c; cases "job_state j")
    (auto simp: wf_state_def transition_defs Let_def split: result.splits)

section \<open>Any sequence of calls\<close>

lemma run_job_Cons:
  "run_job j (c # cs) =
     (fst (run_job (fst (call_job j c)) cs),
      (if snd (call_job j c) then 1 else 0) + snd (run_job (fst (call_job j c)) cs))"
  by (simp add: Let_def split: prod.splits)

declare run_job.simps(2) [simp del] run_job_Cons [simp]

lemma run_job_attempt:
  "attempt_of (job_state (fst (run_job j cs))) = attempt_of (job_state j) + snd (run_job j cs)"
  by (induction cs arbitrary: j) (simp_all add: call_job_attempt)

lemma run_job_identity:
  "job_profile (fst (run_job j cs)) = job_profile j"
  "job_fingerprint (fst (run_job j cs)) = job_fingerprint j"
  by (induction cs arbitrary: j) (simp_all add: call_job_identity)

lemma run_job_wf: "wf_state (job_state j) \<Longrightarrow> wf_state (job_state (fst (run_job j cs)))"
  by (induction cs arbitrary: j) (simp_all add: call_job_wf)

lemma run_job_append:
  "run_job j (cs @ ds) =
     (let (j', n) = run_job j cs; (j'', m) = run_job j' ds in (j'', n + m))"
  by (induction cs arbitrary: j) (auto simp: Let_def split: prod.splits)

lemma run_job_terminal: "is_terminal (job_state j) \<Longrightarrow> run_job j cs = (j, 0)"
  by (induction cs) (auto simp: call_job_terminal)

section \<open>Well-formed jobs\<close>

lemma profile_new_wf: "profile_new v p m l = Ok pr \<Longrightarrow> wf_profile pr"
  by (auto simp: profile_new_def wf_profile_def split: if_splits)

lemma failure_new_wf: "failure_new c = Ok f \<Longrightarrow> wf_failure f"
  by (auto simp: failure_new_def wf_failure_def split: if_splits)

lemma wf_job_begin_submission:
  assumes "begin_submission j = (j', Ok a)" and "wf_job j"
  shows "wf_job j'"
proof -
  note b = begin_submission_attempt [OF assms(1)]
  have "a \<noteq> 0" using b(2) by auto
  with b assms(2) show ?thesis by (simp add: wf_job_def)
qed

lemma wf_job_recover:
  "wf_job j \<Longrightarrow> wf_job (fst (recover_interrupted_submission j))"
  by (cases "job_state j") (auto simp: wf_job_def recover_interrupted_submission_def)

lemma wf_job_accept: "wf_profile p \<Longrightarrow> wf_fingerprint f \<Longrightarrow> wf_job (accept p f)"
  by (simp add: wf_job_def accept_def)

section \<open>Properties\<close>

text \<open>Whatever calls are made on an accepted job, in whatever order, its attempt number equals
  the number of submissions that were licensed so far, and its profile and fingerprint never
  change: an attempt is never skipped, reused or reset.\<close>

theorem attempts_count_submissions:
  "attempt_of (job_state (fst (run_job (accept profile fingerprint) calls)))
     = snd (run_job (accept profile fingerprint) calls) \<and>
   job_profile (fst (run_job (accept profile fingerprint) calls)) = profile \<and>
   job_fingerprint (fst (run_job (accept profile fingerprint) calls)) = fingerprint"
  using run_job_attempt [of "accept profile fingerprint" calls]
    run_job_identity [of "accept profile fingerprint" calls]
  by (simp add: accept_def)

text \<open>C19: Every call that changes a job follows one edge of the documented lifecycle, and a job in a
  terminal state is left unchanged by every sequence of calls, which license no submission.\<close>

theorem lifecycle_refinement:
  "(fst (call_job j c) = j \<or>
    lifecycle_edge (status (job_state j)) (status (job_state (fst (call_job j c))))) \<and>
   (is_terminal (job_state j) \<longrightarrow> run_job j calls = (j, 0))"
  using call_job_edge [of j c] run_job_terminal [of j calls] by (metis prod.collapse)

definition sample_completed_job :: BatchJob where
  "sample_completed_job =
     \<lparr>job_profile = \<lparr>bp_contract_version = 2, bp_provider = [100], bp_model = [110], bp_language = [109]\<rparr>,
      job_fingerprint = replicate 32 0, job_state = Completed 1\<rparr>"

theorem lifecycle_refinement_witness:
  "run_job sample_completed_job [CallBegin, CallBegin] = (sample_completed_job, 0)"
  using lifecycle_refinement [of sample_completed_job CallBegin "[CallBegin, CallBegin]"]
  by (simp add: sample_completed_job_def)

end
