(* ===== verification/Live_Domain.thy ===== *)
theory Live_Domain
  imports Prelude
begin

text \<open>
  The live-session state machine: \<^verbatim>\<open>crates/voicetext-speech/src/domain/live.rs\<close>. The two
  \<open>BTreeSet\<close>s of the source are sets; \<open>live_inv\<close> holds what the source relies on (finiteness,
  the pending bound, every provider-written frame still pending, every pending sequence already
  assigned) and is proved for every method. The \<open>debug_assert!\<close>s of the source follow from it.
\<close>

section \<open>Data\<close>

definition MAX_PENDING_AUDIO_SEQUENCES :: usize where
  "MAX_PENDING_AUDIO_SEQUENCES = 256"

datatype RawAudioSequence = RawAudioSequence (seq_get: u64)

instantiation RawAudioSequence :: linorder
begin

definition less_eq_RawAudioSequence :: "RawAudioSequence \<Rightarrow> RawAudioSequence \<Rightarrow> bool" where
  "a \<le> b \<longleftrightarrow> seq_get a \<le> seq_get b"

definition less_RawAudioSequence :: "RawAudioSequence \<Rightarrow> RawAudioSequence \<Rightarrow> bool" where
  "a < b \<longleftrightarrow> seq_get a < seq_get b"

instance
  by standard
    (auto simp: less_eq_RawAudioSequence_def less_RawAudioSequence_def RawAudioSequence.expand)

end

datatype LiveSessionPhase =
  AwaitingReady | Streaming | Finalizing | Finalized | ClosedPhase | FailedPhase

datatype FinalizeStatus = Flushed | NoProvider | Timeout

record FinalizeOutcome =
  fo_status :: FinalizeStatus
  fo_saw_result :: bool

datatype LiveSessionOperation =
    BecomeReady | AcceptAudio | ConfirmProviderWrite | ConfirmAcknowledgement | BeginFinalize
  | ObserveFinalizeResult | CompleteFinalize | CloseOp | FailOp

datatype LiveSessionError =
    LiveInvalidTransition LiveSessionPhase LiveSessionOperation
  | PendingAudioLimitReached
  | AudioSequenceExhausted
  | UnknownAudioSequence RawAudioSequence
  | ProviderWriteAlreadyConfirmed RawAudioSequence
  | ProviderWriteNotConfirmed RawAudioSequence
  | FinalizeHasPendingAudio
  | FlushedWithoutResult
  | NoProviderAfterAudio
  | NoProviderAfterResult

record LiveSession =
  ls_phase :: LiveSessionPhase
  ls_pending_audio :: "RawAudioSequence set"
  ls_provider_written_audio :: "RawAudioSequence set"
  ls_last_sequence :: u64
  ls_accepted_audio :: bool
  ls_finalize_result_observed :: bool

section \<open>Methods\<close>

definition session_new :: LiveSession where
  "session_new =
     \<lparr>ls_phase = AwaitingReady, ls_pending_audio = {}, ls_provider_written_audio = {},
      ls_last_sequence = 0, ls_accepted_audio = False, ls_finalize_result_observed = False\<rparr>"

definition pending_audio_count :: "LiveSession \<Rightarrow> usize" where
  "pending_audio_count self = card (ls_pending_audio self)"

definition pending_audio_sequences :: "LiveSession \<Rightarrow> RawAudioSequence list" where
  "pending_audio_sequences self = sorted_list_of_set (ls_pending_audio self)"

definition invalid_transition :: "LiveSession \<Rightarrow> LiveSessionOperation \<Rightarrow> LiveSessionError" where
  "invalid_transition self operation = LiveInvalidTransition (ls_phase self) operation"

definition require_phase ::
  "LiveSession \<Rightarrow> LiveSessionPhase \<Rightarrow> LiveSessionOperation \<Rightarrow> (unit, LiveSessionError) result"
  where
  "require_phase self expected operation =
     (if ls_phase self = expected then Ok () else Err (invalid_transition self operation))"

definition mark_ready :: "LiveSession \<Rightarrow> LiveSession \<times> (unit, LiveSessionError) result" where
  "mark_ready self =
     (case require_phase self AwaitingReady BecomeReady of
        Err e \<Rightarrow> (self, Err e)
      | Ok _ \<Rightarrow> (self\<lparr>ls_phase := Streaming\<rparr>, Ok ()))"

definition accept_audio ::
  "LiveSession \<Rightarrow> LiveSession \<times> (RawAudioSequence, LiveSessionError) result" where
  "accept_audio self =
     (case require_phase self Streaming AcceptAudio of
        Err e \<Rightarrow> (self, Err e)
      | Ok _ \<Rightarrow>
          if card (ls_pending_audio self) = MAX_PENDING_AUDIO_SEQUENCES
          then (self, Err PendingAudioLimitReached)
          else (case checked_add (ls_last_sequence self) 1 of
                  None \<Rightarrow> (self, Err AudioSequenceExhausted)
                | Some value \<Rightarrow>
                    (self\<lparr>ls_pending_audio := insert (RawAudioSequence value) (ls_pending_audio self),
                          ls_last_sequence := value, ls_accepted_audio := True\<rparr>,
                     Ok (RawAudioSequence value))))"

definition mark_provider_write_succeeded ::
  "LiveSession \<Rightarrow> RawAudioSequence \<Rightarrow> LiveSession \<times> (unit, LiveSessionError) result" where
  "mark_provider_write_succeeded self sequence =
     (case require_phase self Streaming ConfirmProviderWrite of
        Err e \<Rightarrow> (self, Err e)
      | Ok _ \<Rightarrow>
          if sequence \<notin> ls_pending_audio self then (self, Err (UnknownAudioSequence sequence))
          else if sequence \<in> ls_provider_written_audio self
          then (self, Err (ProviderWriteAlreadyConfirmed sequence))
          else (self\<lparr>ls_provider_written_audio :=
                        insert sequence (ls_provider_written_audio self)\<rparr>, Ok ()))"

definition mark_ack_sent ::
  "LiveSession \<Rightarrow> RawAudioSequence \<Rightarrow> LiveSession \<times> (unit, LiveSessionError) result" where
  "mark_ack_sent self sequence =
     (case require_phase self Streaming ConfirmAcknowledgement of
        Err e \<Rightarrow> (self, Err e)
      | Ok _ \<Rightarrow>
          if sequence \<notin> ls_pending_audio self then (self, Err (UnknownAudioSequence sequence))
          else if sequence \<notin> ls_provider_written_audio self
          then (self, Err (ProviderWriteNotConfirmed sequence))
          else (self\<lparr>ls_provider_written_audio := ls_provider_written_audio self - {sequence},
                     ls_pending_audio := ls_pending_audio self - {sequence}\<rparr>, Ok ()))"

definition begin_finalize :: "LiveSession \<Rightarrow> LiveSession \<times> (unit, LiveSessionError) result" where
  "begin_finalize self =
     (case require_phase self Streaming BeginFinalize of
        Err e \<Rightarrow> (self, Err e)
      | Ok _ \<Rightarrow>
          if ls_pending_audio self \<noteq> {} then (self, Err FinalizeHasPendingAudio)
          else (self\<lparr>ls_finalize_result_observed := False, ls_phase := Finalizing\<rparr>, Ok ()))"

definition mark_finalize_result_observed ::
  "LiveSession \<Rightarrow> LiveSession \<times> (unit, LiveSessionError) result" where
  "mark_finalize_result_observed self =
     (case require_phase self Finalizing ObserveFinalizeResult of
        Err e \<Rightarrow> (self, Err e)
      | Ok _ \<Rightarrow> (self\<lparr>ls_finalize_result_observed := True\<rparr>, Ok ()))"

definition complete_finalize ::
  "LiveSession \<Rightarrow> FinalizeStatus \<Rightarrow> LiveSession \<times> (FinalizeOutcome, LiveSessionError) result" where
  "complete_finalize self requested =
     (case require_phase self Finalizing CompleteFinalize of
        Err e \<Rightarrow> (self, Err e)
      | Ok _ \<Rightarrow>
          if requested = Flushed \<and> \<not> ls_finalize_result_observed self
          then (self, Err FlushedWithoutResult)
          else if requested = NoProvider \<and> ls_accepted_audio self
          then (self, Err NoProviderAfterAudio)
          else if requested = NoProvider \<and> ls_finalize_result_observed self
          then (self, Err NoProviderAfterResult)
          else (self\<lparr>ls_phase := Finalized\<rparr>,
                Ok \<lparr>fo_status = requested, fo_saw_result = ls_finalize_result_observed self\<rparr>))"

definition session_close :: "LiveSession \<Rightarrow> LiveSession \<times> (unit, LiveSessionError) result" where
  "session_close self =
     (if ls_phase self = ClosedPhase \<or> ls_phase self = FailedPhase
      then (self, Err (invalid_transition self CloseOp))
      else (self\<lparr>ls_phase := ClosedPhase\<rparr>, Ok ()))"

definition session_fail :: "LiveSession \<Rightarrow> LiveSession \<times> (unit, LiveSessionError) result" where
  "session_fail self =
     (if ls_phase self = ClosedPhase \<or> ls_phase self = FailedPhase
      then (self, Err (invalid_transition self FailOp))
      else (self\<lparr>ls_phase := FailedPhase\<rparr>, Ok ()))"

lemmas session_defs =
  mark_ready_def accept_audio_def mark_provider_write_succeeded_def mark_ack_sent_def
  begin_finalize_def mark_finalize_result_observed_def complete_finalize_def session_close_def
  session_fail_def require_phase_def invalid_transition_def

section \<open>The step relation and its invariant\<close>

text \<open>One step is one call on the session, with the result the caller saw.\<close>

datatype live_event =
    EvReady
  | EvAccepted RawAudioSequence
  | EvWritten RawAudioSequence
  | EvAcked RawAudioSequence
  | EvBeginFinalize
  | EvResultObserved
  | EvFinalized FinalizeOutcome
  | EvClosed
  | EvFailed
  | EvRejected LiveSessionError

inductive live_step :: "LiveSession \<Rightarrow> live_event \<Rightarrow> LiveSession \<Rightarrow> bool" where
  ready: "mark_ready s = (s', Ok ()) \<Longrightarrow> live_step s EvReady s'"
| ready_err: "mark_ready s = (s', Err e) \<Longrightarrow> live_step s (EvRejected e) s'"
| accept: "accept_audio s = (s', Ok q) \<Longrightarrow> live_step s (EvAccepted q) s'"
| accept_err: "accept_audio s = (s', Err e) \<Longrightarrow> live_step s (EvRejected e) s'"
| written: "mark_provider_write_succeeded s q = (s', Ok ()) \<Longrightarrow> live_step s (EvWritten q) s'"
| written_err: "mark_provider_write_succeeded s q = (s', Err e) \<Longrightarrow> live_step s (EvRejected e) s'"
| acked: "mark_ack_sent s q = (s', Ok ()) \<Longrightarrow> live_step s (EvAcked q) s'"
| acked_err: "mark_ack_sent s q = (s', Err e) \<Longrightarrow> live_step s (EvRejected e) s'"
| begin_fin: "begin_finalize s = (s', Ok ()) \<Longrightarrow> live_step s EvBeginFinalize s'"
| begin_fin_err: "begin_finalize s = (s', Err e) \<Longrightarrow> live_step s (EvRejected e) s'"
| observed: "mark_finalize_result_observed s = (s', Ok ()) \<Longrightarrow> live_step s EvResultObserved s'"
| observed_err: "mark_finalize_result_observed s = (s', Err e) \<Longrightarrow> live_step s (EvRejected e) s'"
| finalized: "complete_finalize s r = (s', Ok out) \<Longrightarrow> live_step s (EvFinalized out) s'"
| finalized_err: "complete_finalize s r = (s', Err e) \<Longrightarrow> live_step s (EvRejected e) s'"
| close: "session_close s = (s', Ok ()) \<Longrightarrow> live_step s EvClosed s'"
| close_err: "session_close s = (s', Err e) \<Longrightarrow> live_step s (EvRejected e) s'"
| fail: "session_fail s = (s', Ok ()) \<Longrightarrow> live_step s EvFailed s'"
| fail_err: "session_fail s = (s', Err e) \<Longrightarrow> live_step s (EvRejected e) s'"

text \<open>A history of calls from the new session, the latest event last.\<close>

inductive live_trace :: "live_event list \<Rightarrow> LiveSession \<Rightarrow> bool" where
  start: "live_trace [] session_new"
| step: "live_trace es s \<Longrightarrow> live_step s e s' \<Longrightarrow> live_trace (es @ [e]) s'"

definition live_inv :: "LiveSession \<Rightarrow> bool" where
  "live_inv s \<longleftrightarrow>
     finite (ls_pending_audio s) \<and>
     card (ls_pending_audio s) \<le> MAX_PENDING_AUDIO_SEQUENCES \<and>
     ls_provider_written_audio s \<subseteq> ls_pending_audio s \<and>
     (\<forall>q \<in> ls_pending_audio s. 0 < seq_get q \<and> seq_get q \<le> ls_last_sequence s) \<and>
     (ls_accepted_audio s \<longleftrightarrow> ls_last_sequence s \<noteq> 0) \<and>
     (ls_phase s = AwaitingReady \<longrightarrow> ls_last_sequence s = 0) \<and>
     (ls_phase s \<in> {Finalizing, Finalized} \<longrightarrow> ls_pending_audio s = {})"

text \<open>
  The sequences accepted, written and acknowledged so far, read off the history of calls.
\<close>

definition accepted_in :: "live_event list \<Rightarrow> RawAudioSequence list" where
  "accepted_in es = List.map_filter (\<lambda>e. case e of EvAccepted q \<Rightarrow> Some q | _ \<Rightarrow> None) es"

definition written_in :: "live_event list \<Rightarrow> RawAudioSequence list" where
  "written_in es = List.map_filter (\<lambda>e. case e of EvWritten q \<Rightarrow> Some q | _ \<Rightarrow> None) es"

definition acked_in :: "live_event list \<Rightarrow> RawAudioSequence list" where
  "acked_in es = List.map_filter (\<lambda>e. case e of EvAcked q \<Rightarrow> Some q | _ \<Rightarrow> None) es"

lemma history_snoc [simp]:
  "accepted_in (es @ [e]) = accepted_in es @ (case e of EvAccepted q \<Rightarrow> [q] | _ \<Rightarrow> [])"
  "written_in (es @ [e]) = written_in es @ (case e of EvWritten q \<Rightarrow> [q] | _ \<Rightarrow> [])"
  "acked_in (es @ [e]) = acked_in es @ (case e of EvAcked q \<Rightarrow> [q] | _ \<Rightarrow> [])"
  by (cases e; simp add: accepted_in_def written_in_def acked_in_def List.map_filter_def)+

lemma history_Nil [simp]: "accepted_in [] = []" "written_in [] = []" "acked_in [] = []"
  by (simp_all add: accepted_in_def written_in_def acked_in_def List.map_filter_def)

lemma rejected_unchanged: "live_step s (EvRejected e) s' \<Longrightarrow> s' = s"
  by (erule live_step.cases) (auto simp: session_defs split: if_splits option.splits)

text \<open>What each successful call requires and does, read off the step relation.\<close>

lemma step_effect:
  assumes "live_step s ev s'"
  shows
    "case ev of
       EvReady \<Rightarrow> ls_phase s = AwaitingReady \<and> s' = s\<lparr>ls_phase := Streaming\<rparr>
     | EvAccepted q \<Rightarrow>
         ls_phase s = Streaming \<and> card (ls_pending_audio s) \<noteq> MAX_PENDING_AUDIO_SEQUENCES \<and>
         unat (seq_get q) = unat (ls_last_sequence s) + 1 \<and>
         s' = s\<lparr>ls_pending_audio := insert q (ls_pending_audio s),
                ls_last_sequence := seq_get q, ls_accepted_audio := True\<rparr>
     | EvWritten q \<Rightarrow>
         ls_phase s = Streaming \<and> q \<in> ls_pending_audio s - ls_provider_written_audio s \<and>
         s' = s\<lparr>ls_provider_written_audio := insert q (ls_provider_written_audio s)\<rparr>
     | EvAcked q \<Rightarrow>
         ls_phase s = Streaming \<and> q \<in> ls_pending_audio s \<inter> ls_provider_written_audio s \<and>
         s' = s\<lparr>ls_provider_written_audio := ls_provider_written_audio s - {q},
                ls_pending_audio := ls_pending_audio s - {q}\<rparr>
     | EvBeginFinalize \<Rightarrow>
         ls_phase s = Streaming \<and> ls_pending_audio s = {} \<and>
         s' = s\<lparr>ls_finalize_result_observed := False, ls_phase := Finalizing\<rparr>
     | EvResultObserved \<Rightarrow>
         ls_phase s = Finalizing \<and> s' = s\<lparr>ls_finalize_result_observed := True\<rparr>
     | EvFinalized out \<Rightarrow>
         ls_phase s = Finalizing \<and> s' = s\<lparr>ls_phase := Finalized\<rparr> \<and>
         fo_saw_result out = ls_finalize_result_observed s \<and>
         (fo_status out = Flushed \<longrightarrow> ls_finalize_result_observed s) \<and>
         (fo_status out = NoProvider \<longrightarrow>
            \<not> ls_accepted_audio s \<and> \<not> ls_finalize_result_observed s)
     | EvClosed \<Rightarrow>
         ls_phase s \<notin> {ClosedPhase, FailedPhase} \<and> s' = s\<lparr>ls_phase := ClosedPhase\<rparr>
     | EvFailed \<Rightarrow>
         ls_phase s \<notin> {ClosedPhase, FailedPhase} \<and> s' = s\<lparr>ls_phase := FailedPhase\<rparr>
     | EvRejected e \<Rightarrow> s' = s"
  using assms
proof (cases rule: live_step.cases)
  case (accept q)
  then show ?thesis
    by (auto simp: session_defs dest: checked_add_SomeD(2) split: if_splits option.splits)
qed (auto simp: session_defs split: if_splits option.splits)

lemma live_inv_new: "live_inv session_new"
  by (simp add: live_inv_def session_new_def)

lemma live_inv_accept:
  assumes inv: "live_inv s" and ph: "ls_phase s = Streaming"
    and room: "card (ls_pending_audio s) \<noteq> MAX_PENDING_AUDIO_SEQUENCES"
    and next_value: "unat (seq_get q) = unat (ls_last_sequence s) + 1"
  shows "live_inv (s\<lparr>ls_pending_audio := insert q (ls_pending_audio s),
                     ls_last_sequence := seq_get q, ls_accepted_audio := True\<rparr>)"
proof -
  have fin: "finite (ls_pending_audio s)"
    and room': "card (ls_pending_audio s) < MAX_PENDING_AUDIO_SEQUENCES"
    using inv room by (auto simp: live_inv_def)
  have later: "ls_last_sequence s < seq_get q" "0 < seq_get q"
    using next_value by (auto simp: word_less_nat_alt)
  have "card (insert q (ls_pending_audio s)) \<le> MAX_PENDING_AUDIO_SEQUENCES"
    using fin room' by (auto simp: card_insert_if)
  moreover have "\<forall>p \<in> insert q (ls_pending_audio s). 0 < seq_get p \<and> seq_get p \<le> seq_get q"
    using inv later by (auto simp: live_inv_def)
  ultimately show ?thesis
    using inv fin later ph by (auto simp: live_inv_def)
qed

lemma card_remove_le:
  "finite A \<Longrightarrow> card A \<le> n \<Longrightarrow> card (A - {x}) \<le> (n::nat)"
  by (meson card_Diff1_le order_trans)

lemma live_inv_step:
  assumes "live_step s ev s'" and "live_inv s"
  shows "live_inv s'"
proof (cases ev)
  case (EvAccepted q)
  with step_effect [OF assms(1)] live_inv_accept [OF assms(2), of q] show ?thesis by simp
next
  case (EvAcked q)
  with step_effect [OF assms(1)] assms(2) show ?thesis
    by (auto simp: live_inv_def intro!: card_remove_le)
qed (use step_effect [OF assms(1)] assms(2) in \<open>auto simp: live_inv_def\<close>)

lemma live_trace_inv: "live_trace es s \<Longrightarrow> live_inv s"
  by (induction rule: live_trace.induct) (auto intro: live_inv_new live_inv_step)

section \<open>Histories\<close>

text \<open>The sequence numbers assigned so far, in order.\<close>

definition assigned :: "u64 \<Rightarrow> RawAudioSequence list" where
  "assigned n = map (\<lambda>k. RawAudioSequence (of_nat k)) [1..<Suc (unat n)]"

lemma assigned_0 [simp]: "assigned 0 = []"
  by (simp add: assigned_def)

lemma assigned_next:
  assumes "unat (seq_get q) = unat n + 1"
  shows "assigned (seq_get q) = assigned n @ [q]"
proof -
  have "RawAudioSequence (of_nat (Suc (unat n))) = q"
    using assms by (metis RawAudioSequence.collapse Suc_eq_plus1 of_nat_unat ucast_id)
  then show ?thesis using assms by (simp add: assigned_def)
qed

lemma assigned_distinct: "distinct (assigned n)"
proof -
  have "inj_on (\<lambda>k. RawAudioSequence (of_nat k)) (set [1..<Suc (unat n)])"
  proof (rule inj_onI)
    fix j k assume jk: "j \<in> set [1..<Suc (unat n)]" "k \<in> set [1..<Suc (unat n)]"
      and eq: "RawAudioSequence (of_nat j) = RawAudioSequence (of_nat k)"
    have "unat n < 2 ^ 64" using unsigned_less [of n] by simp
    then have "unat (of_nat j :: u64) = j" "unat (of_nat k :: u64) = k"
      using jk by (auto simp: unat_of_nat)
    with eq show "j = k" by (metis RawAudioSequence.inject)
  qed
  then show ?thesis by (simp add: assigned_def distinct_map)
qed

lemma assigned_le: "q \<in> set (assigned n) \<Longrightarrow> seq_get q \<le> n"
proof -
  assume "q \<in> set (assigned n)"
  then obtain k where "q = RawAudioSequence (of_nat k)" "k \<le> unat n"
    by (auto simp: assigned_def)
  then show ?thesis by (simp add: word_le_nat_alt unat_of_nat)
qed

definition trace_inv :: "live_event list \<Rightarrow> LiveSession \<Rightarrow> bool" where
  "trace_inv es s \<longleftrightarrow>
     accepted_in es = assigned (ls_last_sequence s) \<and>
     distinct (written_in es) \<and> distinct (acked_in es) \<and>
     set (acked_in es) \<subseteq> set (written_in es) \<and>
     set (written_in es) \<subseteq> set (accepted_in es) \<and>
     ls_pending_audio s = set (accepted_in es) - set (acked_in es) \<and>
     ls_provider_written_audio s = set (written_in es) - set (acked_in es)"

lemma trace_inv_step:
  assumes "live_step s ev s'" and "trace_inv es s"
  shows "trace_inv (es @ [ev]) s'"
proof (cases ev)
  case (EvAccepted q)
  have nxt: "unat (seq_get q) = unat (ls_last_sequence s) + 1"
    using step_effect [OF assms(1)] EvAccepted by simp
  then have "\<not> seq_get q \<le> ls_last_sequence s" by (simp add: word_le_nat_alt)
  then have "q \<notin> set (assigned (ls_last_sequence s))" using assigned_le by blast
  with step_effect [OF assms(1)] EvAccepted assms(2) assigned_next [OF nxt] show ?thesis
    by (auto simp: trace_inv_def)
qed (use step_effect [OF assms(1)] assms(2) in \<open>auto simp: trace_inv_def\<close>)

lemma live_trace_history: "live_trace es s \<Longrightarrow> trace_inv es s"
proof (induction rule: live_trace.induct)
  case start
  show ?case by (simp add: trace_inv_def session_new_def)
qed (rule trace_inv_step)

text \<open>Evidence for the finalize outcome: the drain happens at most once.\<close>

definition drain_inv :: "live_event list \<Rightarrow> LiveSession \<Rightarrow> bool" where
  "drain_inv es s \<longleftrightarrow>
     (ls_finalize_result_observed s \<longleftrightarrow> EvResultObserved \<in> set es) \<and>
     (ls_accepted_audio s \<longleftrightarrow> accepted_in es \<noteq> []) \<and>
     (ls_phase s \<in> {AwaitingReady, Streaming} \<longrightarrow> EvResultObserved \<notin> set es)"

lemma drain_inv_step: "live_step s ev s' \<Longrightarrow> drain_inv es s \<Longrightarrow> drain_inv (es @ [ev]) s'"
  by (drule step_effect, cases ev) (auto simp: drain_inv_def)

lemma live_trace_drain: "live_trace es s \<Longrightarrow> drain_inv es s"
proof (induction rule: live_trace.induct)
  case start
  show ?case by (simp add: drain_inv_def session_new_def)
qed (rule drain_inv_step)

inductive_cases live_trace_snocE: "live_trace (es @ [e]) s"

lemma live_trace_prefix: "live_trace (es @ fs) s \<Longrightarrow> \<exists>s'. live_trace es s'"
  by (induction fs arbitrary: s rule: rev_induct)
    (auto simp flip: append_assoc elim: live_trace_snocE)

lemma closed_is_final:
  "live_step s ev s' \<Longrightarrow> ls_phase s \<in> {ClosedPhase, FailedPhase} \<Longrightarrow> \<exists>e. ev = EvRejected e \<and> s' = s"
  by (drule step_effect, cases ev) auto

section \<open>Properties\<close>

text \<open>C10: In every history of calls the accepted frames are numbered 1, 2, 3, ... without gap or
  reuse; every acknowledged frame was written to the provider before, and every written frame
  accepted before, each at most once; the pending set is exactly what was accepted and not
  acknowledged, and never exceeds 256 frames.\<close>

theorem ack_discipline:
  assumes "live_trace es s"
  shows "accepted_in es = assigned (ls_last_sequence s) \<and> distinct (accepted_in es) \<and>
         distinct (written_in es) \<and> distinct (acked_in es) \<and>
         set (acked_in es) \<subseteq> set (written_in es) \<and> set (written_in es) \<subseteq> set (accepted_in es) \<and>
         ls_pending_audio s = set (accepted_in es) - set (acked_in es) \<and>
         pending_audio_count s \<le> 256"
proof -
  have "pending_audio_count s \<le> 256"
    using live_trace_inv [OF assms]
    by (simp add: live_inv_def pending_audio_count_def MAX_PENDING_AUDIO_SEQUENCES_def)
  with live_trace_history [OF assms] assigned_distinct show ?thesis
    unfolding trace_inv_def by metis
qed

definition sample_trace :: "live_event list" where
  "sample_trace =
     [EvReady, EvAccepted (RawAudioSequence 1), EvWritten (RawAudioSequence 1),
      EvAcked (RawAudioSequence 1), EvBeginFinalize, EvResultObserved]"

definition sample_session :: LiveSession where
  "sample_session =
     \<lparr>ls_phase = Finalizing, ls_pending_audio = {}, ls_provider_written_audio = {},
      ls_last_sequence = 1, ls_accepted_audio = True, ls_finalize_result_observed = True\<rparr>"

lemma checked_add_0_1: "checked_add (0::u64) 1 = Some 1"
  by (simp add: checked_add_def)

lemma sample_trace_ok: "live_trace sample_trace sample_session"
proof -
  let ?q = "RawAudioSequence 1"
  define s1 where "s1 = session_new\<lparr>ls_phase := Streaming\<rparr>"
  define s2 where "s2 = s1\<lparr>ls_pending_audio := {?q}, ls_last_sequence := 1, ls_accepted_audio := True\<rparr>"
  define s3 where "s3 = s2\<lparr>ls_provider_written_audio := {?q}\<rparr>"
  define s4 where "s4 = s2\<lparr>ls_pending_audio := {}\<rparr>"
  note d = s1_def s2_def s3_def s4_def session_new_def session_defs MAX_PENDING_AUDIO_SEQUENCES_def
  have 1: "live_trace ([] @ [EvReady]) s1"
    by (rule live_trace.step [OF live_trace.start live_step.ready]) (simp add: d)
  have 2: "live_trace (([] @ [EvReady]) @ [EvAccepted ?q]) s2"
    by (rule live_trace.step [OF 1 live_step.accept]) (simp add: d checked_add_0_1)
  have 3: "live_trace ((([] @ [EvReady]) @ [EvAccepted ?q]) @ [EvWritten ?q]) s3"
    by (rule live_trace.step [OF 2 live_step.written]) (simp add: d)
  have 4: "live_trace (((([] @ [EvReady]) @ [EvAccepted ?q]) @ [EvWritten ?q]) @ [EvAcked ?q]) s4"
    by (rule live_trace.step [OF 3 live_step.acked]) (simp add: d)
  have 5: "live_trace ((((([] @ [EvReady]) @ [EvAccepted ?q]) @ [EvWritten ?q]) @ [EvAcked ?q])
             @ [EvBeginFinalize]) (s4\<lparr>ls_phase := Finalizing\<rparr>)"
    by (rule live_trace.step [OF 4 live_step.begin_fin]) (simp add: d)
  have "live_trace (((((([] @ [EvReady]) @ [EvAccepted ?q]) @ [EvWritten ?q]) @ [EvAcked ?q])
             @ [EvBeginFinalize]) @ [EvResultObserved]) sample_session"
    by (rule live_trace.step [OF 5 live_step.observed]) (simp add: d sample_session_def)
  then show ?thesis by (simp add: sample_trace_def)
qed

theorem ack_discipline_witness:
  "live_trace sample_trace sample_session \<and> pending_audio_count sample_session \<le> 256 \<and>
   set (acked_in sample_trace) \<subseteq> set (written_in sample_trace)"
  using ack_discipline [OF sample_trace_ok] sample_trace_ok by simp

text \<open>C12: The outcome of a finalize is truthful: when it succeeds every accepted frame has been
  acknowledged, \<open>Flushed\<close> is reported only after a result was observed during the drain,
  \<open>NoProvider\<close> only when no audio was ever accepted and no result observed, and the
  \<open>saw_result\<close> flag says exactly whether a result was observed.\<close>

theorem finalize_truthful:
  assumes "live_trace (es @ [EvFinalized out]) s"
  shows "set (acked_in es) = set (accepted_in es) \<and>
         (fo_saw_result out \<longleftrightarrow> EvResultObserved \<in> set es) \<and>
         (fo_status out = Flushed \<longrightarrow> EvResultObserved \<in> set es) \<and>
         (fo_status out = NoProvider \<longrightarrow> accepted_in es = [] \<and> EvResultObserved \<notin> set es)"
proof -
  obtain s0 where s0: "live_trace es s0" "live_step s0 (EvFinalized out) s"
    using assms by (auto elim: live_trace_snocE)
  have "ls_pending_audio s0 = {}"
    using live_trace_inv [OF s0(1)] step_effect [OF s0(2)] by (simp add: live_inv_def)
  then have "set (acked_in es) = set (accepted_in es)"
    using live_trace_history [OF s0(1)] by (auto simp: trace_inv_def)
  with step_effect [OF s0(2)] live_trace_drain [OF s0(1)] show ?thesis
    by (auto simp: drain_inv_def)
qed

theorem finalize_truthful_witness:
  "\<exists>out s. live_trace (sample_trace @ [EvFinalized out]) s \<and> fo_saw_result out"
proof -
  let ?out = "\<lparr>fo_status = Flushed, fo_saw_result = True\<rparr>"
  have "live_trace (sample_trace @ [EvFinalized ?out]) (sample_session\<lparr>ls_phase := Finalized\<rparr>)"
    by (rule live_trace.step [OF sample_trace_ok live_step.finalized [where r = Flushed]])
      (simp add: complete_finalize_def require_phase_def sample_session_def)
  moreover have "fo_saw_result ?out"
    using finalize_truthful [OF calculation] by (simp add: sample_trace_def)
  ultimately show ?thesis by blast
qed

text \<open>\<open>Closed\<close> and \<open>Failed\<close> are final: once the session is there, every further call is
  rejected with an error and leaves the session as it is.\<close>

theorem closed_or_failed_is_final:
  assumes "live_step s ev s'" and "ls_phase s = ClosedPhase \<or> ls_phase s = FailedPhase"
  shows "(\<exists>e. ev = EvRejected e) \<and> s' = s"
  using closed_is_final [OF assms(1)] assms(2) by blast

theorem closed_or_failed_is_final_witness:
  "fst (session_close (session_new\<lparr>ls_phase := FailedPhase\<rparr>)) = session_new\<lparr>ls_phase := FailedPhase\<rparr>"
proof -
  let ?s = "session_new\<lparr>ls_phase := FailedPhase\<rparr>"
  have "live_step ?s (EvRejected (LiveInvalidTransition FailedPhase CloseOp)) (fst (session_close ?s))"
    by (rule live_step.close_err) (simp add: session_close_def invalid_transition_def)
  from closed_or_failed_is_final [OF this] show ?thesis by simp
qed

end
