(* ===== verification/Rust_Float.thy ===== *)
theory Rust_Float
  imports Complex_Main Prelude
begin

text \<open>
  Floating-point values, as far as the gateway inspects them. A finite \<open>f32\<close> or \<open>f64\<close> denotes a
  dyadic rational, so comparisons, \<open>is_finite\<close> and the conversion of seconds to a \<open>Duration\<close>
  (which rounds the exact value of its argument to nanoseconds) are functions of that rational.
  Arithmetic that rounds to a float again is not modelled.
\<close>

datatype float = NaN | Infinite bool | Finite rat

fun is_finite :: "float \<Rightarrow> bool" where
  "is_finite (Finite _) = True"
| "is_finite _ = False"

text \<open>\<open>value.is_finite() && (0.0..=1.0).contains(&value)\<close>.\<close>

fun unit_interval :: "float \<Rightarrow> bool" where
  "unit_interval (Finite q) = (0 \<le> q \<and> q \<le> 1)"
| "unit_interval _ = False"

definition valid_confidence :: "float option \<Rightarrow> bool" where
  "valid_confidence c = (case c of None \<Rightarrow> True | Some v \<Rightarrow> unit_interval v)"

lemma unit_interval_finite: "unit_interval v \<Longrightarrow> is_finite v"
  by (cases v) auto

lemma valid_confidence_simps [simp]:
  "valid_confidence None" "valid_confidence (Some v) = unit_interval v"
  by (simp_all add: valid_confidence_def)

end
