(* ===== verification/Ports.thy ===== *)
theory Ports
  imports Batch_Domain Live_Domain Rust_Float
begin

text \<open>
  The provider-neutral data that the application, the adapters and the storage exchange:
  \<^verbatim>\<open>crates/voicetext-speech/src/application/ports.rs\<close>. The traits of that file are interfaces:
  the job store is the locale \<open>job_ledger\<close> of the theory \<open>Batch_Coordinator\<close>; recognizers are
  external services, and what they answer is an argument of the operations that call them.
\<close>

section \<open>Identities and provider references\<close>

type_synonym BatchJobId = str
type_synonym BatchAudioHandle = str

datatype ProviderOperationKind = RequestId | TranscriptionId | SessionId

record ProviderOperation =
  po_kind :: ProviderOperationKind
  po_id :: str

record ProviderReference =
  pr_id :: str
  pr_operation_kind :: "ProviderOperationKind option"

definition reference_new :: "str \<Rightarrow> ProviderReference" where
  "reference_new value = \<lparr>pr_id = value, pr_operation_kind = None\<rparr>"

definition reference_operation :: "ProviderOperationKind \<Rightarrow> str \<Rightarrow> ProviderReference" where
  "reference_operation kind value = \<lparr>pr_id = value, pr_operation_kind = Some kind\<rparr>"

definition provider_operation :: "ProviderReference \<Rightarrow> ProviderOperation option" where
  "provider_operation self =
     map_option (\<lambda>kind. \<lparr>po_kind = kind, po_id = pr_id self\<rparr>) (pr_operation_kind self)"

section \<open>Failure evidence\<close>

datatype RecognitionFailureClass =
    ClassKnownNotAccepted bool
  | ClassKnownAcceptedTerminal
  | ClassUnknownAfterSend

datatype RecognitionFailure =
    KnownNotAccepted bool str "ProviderReference option" "u64 option"
  | KnownAcceptedTerminal str "ProviderReference option"
  | UnknownAfterSend str "ProviderReference option"

fun class_of :: "RecognitionFailure \<Rightarrow> RecognitionFailureClass" where
  "class_of (KnownNotAccepted retryable _ _ _) = ClassKnownNotAccepted retryable"
| "class_of (KnownAcceptedTerminal _ _) = ClassKnownAcceptedTerminal"
| "class_of (UnknownAfterSend _ _) = ClassUnknownAfterSend"

fun code_of :: "RecognitionFailure \<Rightarrow> str" where
  "code_of (KnownNotAccepted _ c _ _) = c"
| "code_of (KnownAcceptedTerminal c _) = c"
| "code_of (UnknownAfterSend c _) = c"

fun reference_of :: "RecognitionFailure \<Rightarrow> ProviderReference option" where
  "reference_of (KnownNotAccepted _ _ r _) = r"
| "reference_of (KnownAcceptedTerminal _ r) = r"
| "reference_of (UnknownAfterSend _ r) = r"

section \<open>Batch recognition\<close>

record BatchRecognitionRequest =
  brq_profile :: BatchProfile
  brq_audio :: "u8 list"
  brq_authoritative_duration_millis :: u64
  brq_keyterms :: "str list"

record BatchSegment =
  bs_start_millis :: u64
  bs_end_millis :: u64
  bs_text :: str
  bs_confidence :: "float option"
  bs_speaker :: "str option"

record BatchReadableSegment =
  brs_start_millis :: u64
  brs_end_millis :: u64
  brs_text :: str
  brs_source_segment_indices :: "usize list"

record BatchRecognitionResult =
  brr_profile :: BatchProfile
  brr_text :: str
  brr_duration_millis :: u64
  brr_provider_duration_millis :: "u64 option"
  brr_segments :: "BatchSegment list"
  brr_readable_segments :: "BatchReadableSegment list option"
  brr_provider_reference :: "ProviderReference option"

datatype BatchResultProjectionFailure = BatchResultProjectionFailure

section \<open>Durable jobs\<close>

record BatchJobSnapshot =
  sn_id :: BatchJobId
  sn_job :: BatchJob
  sn_audio :: BatchAudioHandle
  sn_authoritative_duration_millis :: u64
  sn_keyterms :: "str list"
  sn_provider_reference :: "ProviderReference option"
  sn_retry_after_millis :: "u64 option"
  sn_result :: "BatchRecognitionResult option"
  sn_revision :: u64

datatype BatchJobInsertOutcome = Inserted BatchJobSnapshot | Existing BatchJobSnapshot

datatype BatchJobUpdateOutcome =
    Stored BatchJobSnapshot
  | RevisionConflict BatchJobSnapshot
  | MissingRow

datatype BatchJobStoreFailure = StoreUnavailable str | InvalidSnapshot str

text \<open>\<open>str\<close> comparison of Rust is byte order, which for UTF-8 is the order of the scalars.\<close>

fun str_le :: "str \<Rightarrow> str \<Rightarrow> bool" where
  "str_le [] _ = True"
| "str_le (_ # _) [] = False"
| "str_le (x # xs) (y # ys) = (x < y \<or> x = y \<and> str_le xs ys)"

lemma str_le_refl [simp]: "str_le a a"
  by (induction a) auto

lemma str_le_total: "str_le a b \<or> str_le b a"
  by (induction a b rule: str_le.induct) auto

lemma str_le_antisym: "str_le a b \<Longrightarrow> str_le b a \<Longrightarrow> a = b"
  by (induction a b rule: str_le.induct) (auto elim: str_le.elims)

lemma str_le_trans: "str_le a b \<Longrightarrow> str_le b c \<Longrightarrow> str_le a c"
proof (induction a b arbitrary: c rule: str_le.induct)
  case (3 x xs y ys)
  then show ?case by (cases c) auto
qed auto

text \<open>The default method that bounds a recovery page by a frozen head.\<close>

definition list_recovery_candidates_through ::
  "(BatchJobSnapshot list, BatchJobStoreFailure) result \<Rightarrow> BatchJobId \<Rightarrow>
   (BatchJobSnapshot list, BatchJobStoreFailure) result" where
  "list_recovery_candidates_through listed through =
     map_ok (filter (\<lambda>snapshot. str_le (sn_id snapshot) through)) listed"

datatype BatchAudioSpoolFailure =
  SpoolUnavailable str | SpoolMissing | SpoolIdentityConflict | SpoolCapacityExceeded

datatype BatchAudioStoreOutcome = AudioStored BatchAudioHandle | AudioExisting BatchAudioHandle

datatype BatchAudioRemoveOutcome = Removed | AlreadyMissing

section \<open>Live recognition\<close>

record LiveProfile =
  lp_protocol_version :: u16
  lp_provider :: str
  lp_model :: str
  lp_language :: str

record LiveRecognitionRequest =
  lrq_profile :: LiveProfile
  lrq_sample_rate_hz :: u32
  lrq_channels :: u8
  lrq_keyterms :: "str list"

record LiveAudioFrame =
  laf_sequence :: RawAudioSequence
  laf_pcm_s16le :: "u8 list"

datatype LiveTranscriptStability = Partial | SegmentFinal | UtteranceFinal

record LiveTranscript =
  lt_text :: str
  lt_start_millis :: u64
  lt_duration_millis :: u64
  lt_confidence :: "float option"
  lt_stability :: LiveTranscriptStability

datatype LiveRecognitionEvent =
    RecTranscript LiveTranscript
  | RecUtteranceEnd u64
  | RecFinalizeResultObserved

end
