(* ===== verification/Batch_Models.thy ===== *)
theory Batch_Models
  imports Ports
begin

text \<open>
  The batch coordinator's models and the decision what a provider answer becomes in the ledger:
  \<^verbatim>\<open>crates/voicetext-speech/src/application/batch_models.rs\<close>. The result validator is translated
  loop by loop with its checked arithmetic, and proved equivalent to a declarative contract. The
  consumer-owned projection is an argument: a function that accepts or rejects a result.
\<close>

section \<open>Data\<close>

definition MAX_SEGMENTS :: usize where
  "MAX_SEGMENTS = 10000"

definition MAX_TRANSCRIPT_BYTES :: usize where
  "MAX_TRANSCRIPT_BYTES = 4 * 1024 * 1024"

definition MAX_READABLE_REFERENCES :: usize where
  "MAX_READABLE_REFERENCES = 100000"

record BatchAdmissionRequest =
  bar_id :: BatchJobId
  bar_profile :: BatchProfile
  bar_fingerprint :: BatchRequestFingerprint
  bar_audio :: "u8 list"
  bar_authoritative_duration_millis :: u64
  bar_keyterms :: "str list"

datatype BatchAdmissionOutcome = AdmAccepted BatchJobSnapshot | AdmReplay BatchJobSnapshot

datatype BatchExecutionOutcome =
    Persisted BatchJobSnapshot
  | NotClaimed "BatchJobSnapshot option"
  | NotActionable BatchJobSnapshot

record BatchStartupRecovery =
  rec_actionable :: "BatchJobSnapshot list"
  rec_recovered_unknown :: "BatchJobSnapshot list"
  rec_conflicts :: "BatchJobSnapshot list"
  rec_missing :: "BatchJobId list"
  rec_invalid_candidates :: "BatchJobSnapshot list"
  rec_next_cursor :: "BatchJobId option"

datatype BatchCoordinatorFailure =
    AdmissionConflict BatchJobSnapshot
  | SpoolFailure BatchAudioSpoolFailure
  | StoreFailure BatchJobStoreFailure
  | AdmissionStoreUncertain BatchJobStoreFailure BatchJobStoreFailure
  | AdmissionCleanup "BatchJobStoreFailure option" BatchAudioSpoolFailure
  | Transition BatchTransitionError
  | PostEgressStore BatchJobStoreFailure
  | PostEgressConflict

type_synonym projection =
  "BatchJobId \<Rightarrow> BatchRecognitionResult \<Rightarrow> (unit, BatchResultProjectionFailure) result"

section \<open>Validation of a provider result\<close>

text \<open>The loop over the segments; the result is the number of text bytes so far.\<close>

fun valid_segments :: "u64 \<Rightarrow> u64 \<Rightarrow> usize \<Rightarrow> BatchSegment list \<Rightarrow> usize option" where
  "valid_segments duration previous_end text_bytes [] = Some text_bytes"
| "valid_segments duration previous_end text_bytes (segment # rest) =
     (case usize_checked_add text_bytes (str_len (bs_text segment)) of
        None \<Rightarrow> None
      | Some next_text \<Rightarrow>
          (case (case bs_speaker segment of
                   None \<Rightarrow> Some next_text
                 | Some speaker \<Rightarrow> usize_checked_add next_text (str_len speaker)) of
             None \<Rightarrow> None
           | Some next_text_bytes \<Rightarrow>
               if bs_start_millis segment < previous_end
                  \<or> bs_end_millis segment \<le> bs_start_millis segment
                  \<or> bs_end_millis segment > duration
                  \<or> bs_text segment = []
                  \<or> next_text_bytes > MAX_TRANSCRIPT_BYTES
                  \<or> \<not> valid_confidence (bs_confidence segment)
               then None
               else valid_segments duration (bs_end_millis segment) next_text_bytes rest))"

text \<open>\<open>windows(2).all(|pair| pair[0] < pair[1])\<close>.\<close>

fun strictly_increasing :: "usize list \<Rightarrow> bool" where
  "strictly_increasing (a # b # rest) = (a < b \<and> strictly_increasing (b # rest))"
| "strictly_increasing _ = True"

definition sources_valid :: "usize \<Rightarrow> usize list \<Rightarrow> bool" where
  "sources_valid segment_count indices \<longleftrightarrow>
     indices \<noteq> [] \<and> strictly_increasing indices \<and> last indices < segment_count"

fun valid_readable ::
  "u64 \<Rightarrow> usize \<Rightarrow> u64 \<Rightarrow> usize \<Rightarrow> usize \<Rightarrow> BatchReadableSegment list \<Rightarrow> bool" where
  "valid_readable duration count previous_end references total_text_bytes [] = True"
| "valid_readable duration count previous_end references total_text_bytes (segment # rest) =
     (case usize_checked_add references (length (brs_source_segment_indices segment)) of
        None \<Rightarrow> False
      | Some next_references \<Rightarrow>
          (case usize_checked_add total_text_bytes (str_len (brs_text segment)) of
             None \<Rightarrow> False
           | Some next_text_bytes \<Rightarrow>
               brs_start_millis segment \<ge> previous_end
               \<and> brs_end_millis segment > brs_start_millis segment
               \<and> brs_end_millis segment \<le> duration
               \<and> brs_text segment \<noteq> []
               \<and> next_references \<le> MAX_READABLE_REFERENCES
               \<and> next_text_bytes \<le> MAX_TRANSCRIPT_BYTES
               \<and> sources_valid count (brs_source_segment_indices segment)
               \<and> valid_readable duration count (brs_end_millis segment) next_references
                    next_text_bytes rest))"

definition valid_result :: "BatchJobSnapshot \<Rightarrow> BatchRecognitionResult \<Rightarrow> bool" where
  "valid_result snapshot result =
     (if brr_profile result \<noteq> job_profile (sn_job snapshot)
         \<or> brr_duration_millis result \<noteq> sn_authoritative_duration_millis snapshot
         \<or> str_len (brr_text result) > MAX_TRANSCRIPT_BYTES
         \<or> length (brr_segments result) > MAX_SEGMENTS
      then False
      else
        (case valid_segments (brr_duration_millis result) 0 (str_len (brr_text result))
                (brr_segments result) of
           None \<Rightarrow> False
         | Some text_bytes \<Rightarrow>
             (case brr_readable_segments result of
                None \<Rightarrow> True
              | Some segments \<Rightarrow>
                  if length segments > MAX_SEGMENTS then False
                  else valid_readable (brr_duration_millis result) (length (brr_segments result))
                         0 0 text_bytes segments)))"

section \<open>Applying a recognition outcome\<close>

definition batch_failure :: "str \<Rightarrow> BatchFailure" where
  "batch_failure code =
     (case failure_new code of
        Ok f \<Rightarrow> f
      | Err _ \<Rightarrow>
          (case failure_new (lit ''INVALID_RECOGNITION_FAILURE'') of
             Ok f \<Rightarrow> f
           | Err _ \<Rightarrow> BatchFailure []))"

text \<open>\<open>snapshot.job.m(..)?\<close> followed by \<open>Ok(snapshot)\<close>.\<close>

definition finish_job ::
  "BatchJobSnapshot \<Rightarrow> BatchJob \<times> (unit, BatchTransitionError) result \<Rightarrow>
   (BatchJobSnapshot, BatchTransitionError) result" where
  "finish_job snapshot stepped =
     (case stepped of (job, r) \<Rightarrow> map_ok (\<lambda>_. snapshot\<lparr>sn_job := job\<rparr>) r)"

definition apply_recognition_outcome ::
  "BatchJobSnapshot \<Rightarrow> (BatchRecognitionResult, RecognitionFailure) result \<Rightarrow> projection \<Rightarrow>
   (BatchJobSnapshot, BatchTransitionError) result" where
  "apply_recognition_outcome snapshot0 recognition validate =
     (let snapshot = snapshot0\<lparr>sn_retry_after_millis := None\<rparr> in
      case recognition of
        Ok recognized \<Rightarrow>
          (let valid = valid_result snapshot recognized;
               projectable = valid \<and> is_ok (validate (sn_id snapshot) recognized);
               referenced = snapshot\<lparr>sn_provider_reference := brr_provider_reference recognized\<rparr>
           in if projectable
              then finish_job (referenced\<lparr>sn_result := Some recognized\<rparr>) (job_complete (sn_job snapshot))
              else
                let code = (if valid then lit ''PROVIDER_RESULT_PROJECTION_FAILED''
                            else lit ''INVALID_RECOGNITION_RESULT'')
                in finish_job (referenced\<lparr>sn_result := None\<rparr>)
                     (job_fail (sn_job snapshot) (batch_failure code)))
      | Err (KnownNotAccepted retryable code provider_reference retry_after_millis) \<Rightarrow>
          (let referenced = snapshot\<lparr>sn_provider_reference := provider_reference\<rparr>;
               evidence = batch_failure code
           in if retryable
              then finish_job (referenced\<lparr>sn_retry_after_millis := retry_after_millis\<rparr>)
                     (record_retryable_failure (sn_job snapshot) evidence)
              else finish_job referenced (job_fail (sn_job snapshot) evidence))
      | Err (KnownAcceptedTerminal code provider_reference) \<Rightarrow>
          finish_job (snapshot\<lparr>sn_provider_reference := provider_reference\<rparr>)
            (job_fail (sn_job snapshot) (batch_failure code))
      | Err (UnknownAfterSend code provider_reference) \<Rightarrow>
          finish_job (snapshot\<lparr>sn_provider_reference := provider_reference\<rparr>)
            (record_unknown_outcome (sn_job snapshot) (batch_failure code)))"

section \<open>The contract of a valid result\<close>

definition segment_ok :: "u64 \<Rightarrow> BatchSegment \<Rightarrow> bool" where
  "segment_ok duration s \<longleftrightarrow>
     bs_start_millis s < bs_end_millis s \<and> bs_end_millis s \<le> duration \<and> bs_text s \<noteq> [] \<and>
     valid_confidence (bs_confidence s)"

definition segment_bytes :: "BatchSegment \<Rightarrow> nat" where
  "segment_bytes s =
     str_len (bs_text s) + (case bs_speaker s of None \<Rightarrow> 0 | Some sp \<Rightarrow> str_len sp)"

definition readable_ok :: "u64 \<Rightarrow> nat \<Rightarrow> BatchReadableSegment \<Rightarrow> bool" where
  "readable_ok duration count s \<longleftrightarrow>
     brs_start_millis s < brs_end_millis s \<and> brs_end_millis s \<le> duration \<and> brs_text s \<noteq> [] \<and>
     brs_source_segment_indices s \<noteq> [] \<and>
     sorted_wrt (<) (brs_source_segment_indices s) \<and>
     (\<forall>i \<in> set (brs_source_segment_indices s). i < count)"

definition segments_total :: "BatchRecognitionResult \<Rightarrow> nat" where
  "segments_total r = str_len (brr_text r) + sum_list (map segment_bytes (brr_segments r))"

text \<open>
  What the rest of the system may rely on: identity and duration of the request, ordered,
  disjoint, non-empty segments within the audio, readable segments that are ordered, disjoint and
  cite existing segments in strictly increasing order, and the global budgets.
\<close>

definition result_contract :: "BatchJobSnapshot \<Rightarrow> BatchRecognitionResult \<Rightarrow> bool" where
  "result_contract sn r \<longleftrightarrow>
     brr_profile r = job_profile (sn_job sn) \<and>
     brr_duration_millis r = sn_authoritative_duration_millis sn \<and>
     length (brr_segments r) \<le> MAX_SEGMENTS \<and>
     segments_total r \<le> MAX_TRANSCRIPT_BYTES \<and>
     sorted_wrt (\<lambda>a b. bs_end_millis a \<le> bs_start_millis b) (brr_segments r) \<and>
     (\<forall>s \<in> set (brr_segments r). segment_ok (brr_duration_millis r) s) \<and>
     (case brr_readable_segments r of
        None \<Rightarrow> True
      | Some rs \<Rightarrow>
          length rs \<le> MAX_SEGMENTS \<and>
          sorted_wrt (\<lambda>a b. brs_end_millis a \<le> brs_start_millis b) rs \<and>
          (\<forall>s \<in> set rs. readable_ok (brr_duration_millis r) (length (brr_segments r)) s) \<and>
          sum_list (map (length \<circ> brs_source_segment_indices) rs) \<le> MAX_READABLE_REFERENCES \<and>
          segments_total r + sum_list (map (str_len \<circ> brs_text) rs) \<le> MAX_TRANSCRIPT_BYTES)"

lemma strictly_increasing_iff: "strictly_increasing xs \<longleftrightarrow> sorted_wrt (<) xs"
  by (induction xs rule: strictly_increasing.induct) (auto intro: less_trans)

lemma sorted_lt_last:
  "sorted_wrt (<) xs \<Longrightarrow> xs \<noteq> [] \<Longrightarrow> (\<forall>i \<in> set xs. i < (n::nat)) \<longleftrightarrow> last xs < n"
  by (induction xs rule: rev_induct) (auto simp: sorted_wrt_append)

lemma sources_valid_iff:
  "sources_valid n xs \<longleftrightarrow> xs \<noteq> [] \<and> sorted_wrt (<) xs \<and> (\<forall>i \<in> set xs. i < n)"
  using sorted_lt_last [of xs n] by (auto simp: sources_valid_def strictly_increasing_iff)

lemma checked_total:
  "c \<le> MAX_TRANSCRIPT_BYTES \<Longrightarrow> usize_checked_add a b = Some c \<longleftrightarrow> c = a + b"
  by (auto simp: usize_checked_add_def usize_limit_def MAX_TRANSCRIPT_BYTES_def)

lemma usize_add_None_big: "usize_checked_add a b = None \<Longrightarrow> 2 ^ 64 \<le> a + b"
  by (simp add: usize_checked_add_def usize_limit_def split: if_splits)

text \<open>One iteration of the segment loop.\<close>

lemma valid_segments_Cons:
  "valid_segments d p n (s # ss) = Some m \<longleftrightarrow>
     p \<le> bs_start_millis s \<and> segment_ok d s \<and> n + segment_bytes s \<le> MAX_TRANSCRIPT_BYTES \<and>
     valid_segments d (bs_end_millis s) (n + segment_bytes s) ss = Some m"
proof (cases "n + segment_bytes s < 2 ^ 64")
  case True
  then show ?thesis
    by (cases "bs_speaker s")
      (auto simp: usize_checked_add_def usize_limit_def segment_bytes_def segment_ok_def add.assoc)
next
  case False
  then have "\<not> n + segment_bytes s \<le> MAX_TRANSCRIPT_BYTES" by (simp add: MAX_TRANSCRIPT_BYTES_def)
  with False show ?thesis
    by (cases "bs_speaker s")
      (auto simp: usize_checked_add_def usize_limit_def segment_bytes_def add.assoc)
qed

lemma valid_segments_iff:
  assumes "n \<le> MAX_TRANSCRIPT_BYTES"
  shows "valid_segments d p n ss = Some m \<longleftrightarrow>
     (\<forall>s \<in> set ss. p \<le> bs_start_millis s \<and> segment_ok d s) \<and>
     sorted_wrt (\<lambda>a b. bs_end_millis a \<le> bs_start_millis b) ss \<and>
     n + sum_list (map segment_bytes ss) \<le> MAX_TRANSCRIPT_BYTES \<and>
     m = n + sum_list (map segment_bytes ss)"
  using assms
proof (induction ss arbitrary: p n)
  case (Cons s ss)
  have p: "p \<le> bs_start_millis s \<Longrightarrow> segment_ok d s \<Longrightarrow> bs_end_millis s \<le> x \<Longrightarrow> p \<le> x" for x
    by (auto simp: segment_ok_def)
  show ?case
  proof (cases "n + segment_bytes s \<le> MAX_TRANSCRIPT_BYTES")
    case True
    show ?thesis
      unfolding valid_segments_Cons using True Cons.IH [OF True, of "bs_end_millis s"] p
      by (auto simp: add.assoc)
  next
    case False
    then have "\<not> n + sum_list (map segment_bytes (s # ss)) \<le> MAX_TRANSCRIPT_BYTES" by simp
    with False show ?thesis unfolding valid_segments_Cons by blast
  qed
qed auto

text \<open>One iteration of the readable-segment loop.\<close>

lemma valid_readable_Cons:
  "valid_readable d c p r n (s # ss) \<longleftrightarrow>
     p \<le> brs_start_millis s \<and> readable_ok d c s \<and>
     r + length (brs_source_segment_indices s) \<le> MAX_READABLE_REFERENCES \<and>
     n + str_len (brs_text s) \<le> MAX_TRANSCRIPT_BYTES \<and>
     valid_readable d c (brs_end_millis s) (r + length (brs_source_segment_indices s))
       (n + str_len (brs_text s)) ss"
  by (auto simp: usize_checked_add_def usize_limit_def MAX_TRANSCRIPT_BYTES_def
      MAX_READABLE_REFERENCES_def readable_ok_def sources_valid_iff)

declare valid_segments.simps(2) [simp del] valid_readable.simps(2) [simp del]

lemma valid_readable_iff:
  assumes "r \<le> MAX_READABLE_REFERENCES" and "n \<le> MAX_TRANSCRIPT_BYTES"
  shows "valid_readable d c p r n ss \<longleftrightarrow>
     (\<forall>s \<in> set ss. p \<le> brs_start_millis s \<and> readable_ok d c s) \<and>
     sorted_wrt (\<lambda>a b. brs_end_millis a \<le> brs_start_millis b) ss \<and>
     r + sum_list (map (length \<circ> brs_source_segment_indices) ss) \<le> MAX_READABLE_REFERENCES \<and>
     n + sum_list (map (str_len \<circ> brs_text) ss) \<le> MAX_TRANSCRIPT_BYTES"
  using assms
proof (induction ss arbitrary: p r n)
  case (Cons s ss)
  let ?r = "r + length (brs_source_segment_indices s)" and ?n = "n + str_len (brs_text s)"
  have p: "p \<le> brs_start_millis s \<Longrightarrow> readable_ok d c s \<Longrightarrow> brs_end_millis s \<le> x \<Longrightarrow> p \<le> x" for x
    by (auto simp: readable_ok_def)
  show ?case
  proof (cases "?r \<le> MAX_READABLE_REFERENCES \<and> ?n \<le> MAX_TRANSCRIPT_BYTES")
    case True
    show ?thesis
      unfolding valid_readable_Cons using True Cons.IH [of ?r ?n "brs_end_millis s"] p
      by (auto simp: add.assoc)
  next
    case False
    then have "\<not> (r + sum_list (map (length \<circ> brs_source_segment_indices) (s # ss)) \<le> MAX_READABLE_REFERENCES \<and>
        n + sum_list (map (str_len \<circ> brs_text) (s # ss)) \<le> MAX_TRANSCRIPT_BYTES)" by auto
    with False show ?thesis unfolding valid_readable_Cons by blast
  qed
qed auto

lemma valid_result_iff: "valid_result sn r \<longleftrightarrow> result_contract sn r"
proof (cases "str_len (brr_text r) \<le> MAX_TRANSCRIPT_BYTES")
  case True
  note seg = valid_segments_iff [OF True, of "brr_duration_millis r" 0 "brr_segments r"]
  show ?thesis
  proof (cases "valid_segments (brr_duration_millis r) 0 (str_len (brr_text r)) (brr_segments r)")
    case None
    with seg [of "segments_total r"] show ?thesis
      by (auto simp: valid_result_def result_contract_def segments_total_def)
  next
    case (Some m)
    then have m: "m \<le> MAX_TRANSCRIPT_BYTES" and total: "segments_total r = m"
      using seg [of m] by (simp_all add: segments_total_def)
    note read = valid_readable_iff [OF le0 m]
    have segs: "sorted_wrt (\<lambda>a b. bs_end_millis a \<le> bs_start_millis b) (brr_segments r)"
      "\<forall>s \<in> set (brr_segments r). segment_ok (brr_duration_millis r) s"
      using Some seg [of m] by auto
    show ?thesis
      using Some True m segs unfolding valid_result_def result_contract_def total
      by (cases "brr_readable_segments r") (auto simp: read)
  qed
next
  case False
  then show ?thesis by (auto simp: valid_result_def result_contract_def segments_total_def)
qed

section \<open>The ledger state after an answer\<close>

lemma batch_failure_total:
  "failure_new (lit ''INVALID_RECOGNITION_FAILURE'') = Ok (BatchFailure (lit ''INVALID_RECOGNITION_FAILURE''))"
  by code_simp

lemma batch_failure_eq:
  "batch_failure code =
     (case failure_new code of Ok f \<Rightarrow> f | Err _ \<Rightarrow> BatchFailure (lit ''INVALID_RECOGNITION_FAILURE''))"
  unfolding batch_failure_def batch_failure_total result.case by (rule refl)

definition same_immutable :: "BatchJobSnapshot \<Rightarrow> BatchJobSnapshot \<Rightarrow> bool" where
  "same_immutable a b \<longleftrightarrow>
     sn_id a = sn_id b \<and> job_profile (sn_job a) = job_profile (sn_job b) \<and>
     job_fingerprint (sn_job a) = job_fingerprint (sn_job b) \<and> sn_audio a = sn_audio b \<and>
     sn_authoritative_duration_millis a = sn_authoritative_duration_millis b \<and>
     sn_keyterms a = sn_keyterms b"

text \<open>The state the answer leads to, as a table.\<close>

definition outcome_state ::
  "BatchJobSnapshot \<Rightarrow> u32 \<Rightarrow> (BatchRecognitionResult, RecognitionFailure) result \<Rightarrow> projection \<Rightarrow>
   BatchJobState" where
  "outcome_state sn a recognition validate =
     (case recognition of
        Ok r \<Rightarrow>
          if \<not> result_contract sn r
          then Failed a (batch_failure (lit ''INVALID_RECOGNITION_RESULT''))
          else if \<not> is_ok (validate (sn_id sn) r)
          then Failed a (batch_failure (lit ''PROVIDER_RESULT_PROJECTION_FAILED''))
          else Completed a
      | Err (KnownNotAccepted True c _ _) \<Rightarrow> Retryable a (batch_failure c)
      | Err (KnownNotAccepted False c _ _) \<Rightarrow> Failed a (batch_failure c)
      | Err (KnownAcceptedTerminal c _) \<Rightarrow> Failed a (batch_failure c)
      | Err (UnknownAfterSend c _) \<Rightarrow> OutcomeUnknown a (Submission (batch_failure c)))"

lemma valid_result_retry [simp]:
  "valid_result (sn\<lparr>sn_retry_after_millis := x\<rparr>) r \<longleftrightarrow> result_contract sn r"
  by (simp add: valid_result_iff result_contract_def)

definition outcome_result ::
  "BatchJobSnapshot \<Rightarrow> (BatchRecognitionResult, RecognitionFailure) result \<Rightarrow> projection \<Rightarrow>
   BatchRecognitionResult option" where
  "outcome_result sn recognition validate =
     (case recognition of
        Ok r \<Rightarrow> if result_contract sn r \<and> is_ok (validate (sn_id sn) r) then Some r else None
      | Err _ \<Rightarrow> sn_result sn)"

definition outcome_reference ::
  "(BatchRecognitionResult, RecognitionFailure) result \<Rightarrow> ProviderReference option" where
  "outcome_reference recognition =
     (case recognition of Ok r \<Rightarrow> brr_provider_reference r | Err e \<Rightarrow> reference_of e)"

definition outcome_retry_after ::
  "(BatchRecognitionResult, RecognitionFailure) result \<Rightarrow> u64 option" where
  "outcome_retry_after recognition =
     (case recognition of Err (KnownNotAccepted True _ _ ra) \<Rightarrow> ra | _ \<Rightarrow> None)"

lemmas outcome_defs =
  outcome_state_def outcome_result_def outcome_reference_def outcome_retry_after_def

lemma apply_outcome_submitting:
  assumes "job_state (sn_job sn) = Submitting a"
  shows "apply_recognition_outcome sn recognition validate =
           Ok (sn\<lparr>sn_job := (sn_job sn)\<lparr>job_state := outcome_state sn a recognition validate\<rparr>,
                  sn_provider_reference := outcome_reference recognition,
                  sn_retry_after_millis := outcome_retry_after recognition,
                  sn_result := outcome_result sn recognition validate\<rparr>)"
proof (cases recognition)
  case (Ok r)
  with assms show ?thesis
    by (cases "result_contract sn r"; cases "is_ok (validate (sn_id sn) r)")
      (simp_all add: apply_recognition_outcome_def Let_def finish_job_def transition_defs
        outcome_defs del: lit_Cons)
next
  case (Err e)
  with assms show ?thesis
  proof (cases e)
    case (KnownNotAccepted b c pr ra)
    with Err assms show ?thesis
      by (cases b) (simp_all add: apply_recognition_outcome_def Let_def finish_job_def
          transition_defs outcome_defs)
  qed (use Err assms in \<open>simp_all add: apply_recognition_outcome_def Let_def finish_job_def
         transition_defs outcome_defs\<close>)
qed

text \<open>Outside \<open>Submitting\<close> an answer is rejected.\<close>

lemma apply_outcome_not_submitting:
  assumes "\<And>a. job_state (sn_job sn) \<noteq> Submitting a"
  shows "\<exists>t. apply_recognition_outcome sn recognition validate =
                Err (InvalidTransition (status (job_state (sn_job sn))) t)"
proof -
  have "\<exists>t. submission_attempt (sn_job sn) u = Err (InvalidTransition (status (job_state (sn_job sn))) u)" for u
    using assms by (cases "job_state (sn_job sn)") (auto simp: submission_attempt_def)
  then show ?thesis
    by (simp add: apply_recognition_outcome_def Let_def finish_job_def transition_defs
        split: result.splits RecognitionFailure.splits)
qed

lemma outcome_state_status:
  "outcome_state sn a rec v \<noteq> Submitting b" "outcome_state sn a rec v \<noteq> Accepted"
  "attempt_of (outcome_state sn a rec v) = unat a"
  by (auto simp: outcome_state_def split: result.splits RecognitionFailure.splits bool.splits)

lemma wf_batch_failure: "wf_failure (batch_failure c)"
proof (cases "failure_new c")
  case (Ok f)
  then show ?thesis by (simp add: batch_failure_def failure_new_wf)
next
  case (Err e)
  then have "batch_failure c = BatchFailure (lit ''INVALID_RECOGNITION_FAILURE'')"
    unfolding batch_failure_eq by simp
  moreover have "wf_failure (BatchFailure (lit ''INVALID_RECOGNITION_FAILURE''))"
    unfolding wf_failure_def BatchFailure.sel by (rule batch_failure_total)
  ultimately show ?thesis by (simp only:)
qed

lemma wf_outcome_state: "a \<noteq> 0 \<Longrightarrow> wf_job_state (outcome_state sn a rec v)"
  by (auto simp: outcome_state_def wf_batch_failure simp del: lit_Cons
      split: result.splits RecognitionFailure.splits bool.splits)

text \<open>The kind of a provider reference is not stored.\<close>

definition untyped_reference :: "ProviderReference option \<Rightarrow> ProviderReference option" where
  "untyped_reference r = map_option (\<lambda>x. reference_new (pr_id x)) r"

definition untyped :: "BatchJobSnapshot \<Rightarrow> BatchJobSnapshot" where
  "untyped sn =
     sn\<lparr>sn_provider_reference := untyped_reference (sn_provider_reference sn),
        sn_result := map_option
          (\<lambda>r. r\<lparr>brr_provider_reference := untyped_reference (brr_provider_reference r)\<rparr>)
          (sn_result sn)\<rparr>"

section \<open>Properties\<close>

text \<open>C15: The result validator, with its running counters, checked additions and early exits,
  accepts exactly the results that satisfy the declarative contract: identity and duration of the
  request, ordered disjoint non-empty segments within the audio, readable segments that cite
  existing segments in strictly increasing order, and the global size budgets.\<close>

theorem valid_result_contract: "valid_result snapshot r \<longleftrightarrow> result_contract snapshot r"
  by (rule valid_result_iff)

text \<open>C16: Applying a provider answer to a claimed job never fails and is exactly the outcome table:
  the job completes only on a valid, projectable result (which is then stored), becomes retryable
  only on a retryable known-not-accepted answer, terminally unknown on an unknown outcome, and
  failed otherwise; the attempt is kept and nothing of the job's identity changes.\<close>

theorem recognition_outcome_table:
  assumes "job_state (sn_job snapshot) = Submitting a"
  shows "\<exists>snapshot'. apply_recognition_outcome snapshot recognition validate = Ok snapshot' \<and>
    job_state (sn_job snapshot') = outcome_state snapshot a recognition validate \<and>
    sn_result snapshot' = outcome_result snapshot recognition validate \<and>
    sn_provider_reference snapshot' = outcome_reference recognition \<and>
    sn_retry_after_millis snapshot' = outcome_retry_after recognition \<and>
    same_immutable snapshot' snapshot \<and> sn_revision snapshot' = sn_revision snapshot \<and>
    attempt_of (job_state (sn_job snapshot')) = unat a"
  unfolding apply_outcome_submitting [OF assms]
  by (simp add: same_immutable_def outcome_state_status)

definition sample_snapshot :: BatchJobSnapshot where
  "sample_snapshot =
     \<lparr>sn_id = [7],
      sn_job = \<lparr>job_profile = \<lparr>bp_contract_version = 2, bp_provider = [112], bp_model = [109],
                               bp_language = [108]\<rparr>,
               job_fingerprint = replicate 32 0, job_state = Submitting 1\<rparr>,
      sn_audio = [], sn_authoritative_duration_millis = 1000, sn_keyterms = [],
      sn_provider_reference = None, sn_retry_after_millis = None, sn_result = None,
      sn_revision = 1\<rparr>"

theorem recognition_outcome_table_witness:
  "\<exists>sn'. apply_recognition_outcome sample_snapshot (Err (UnknownAfterSend [120] None))
      (\<lambda>_ _. Ok ()) = Ok sn' \<and>
    job_state (sn_job sn') = OutcomeUnknown 1 (Submission (batch_failure [120]))"
proof -
  have "job_state (sn_job sample_snapshot) = Submitting 1" by (simp add: sample_snapshot_def)
  from recognition_outcome_table [OF this, of "Err (UnknownAfterSend [120] None)" "\<lambda>_ _. Ok ()"]
  show ?thesis by (auto simp: outcome_state_def)
qed

end
