(* ===== verification/Records.thy ===== *)
theory Records
  imports Batch_Models
begin

text \<open>
  The mapping between job snapshots and database rows:
  \<^verbatim>\<open>crates/voicetext-gateway/src/storage/records.rs\<close> and
  \<^verbatim>\<open>storage/records/result_validation.rs\<close>. The JSON and UUID libraries are parameters, held in a
  \<open>codec\<close> record over abstract JSON values \<open>'v\<close> and JSON texts \<open>'t\<close>; what the mapping relies on
  is \<open>codec_laws\<close>. \<open>i16\<close> and \<open>i64\<close> columns are integers with their range checks written out.
\<close>

section \<open>Rows\<close>

definition MAX_KEYTERMS :: usize where "MAX_KEYTERMS = 100"
definition MAX_KEYTERM_BYTES :: usize where "MAX_KEYTERM_BYTES = 256"
definition MAX_KEYTERMS_BYTES :: usize where "MAX_KEYTERMS_BYTES = 16384"
definition MAX_PROVIDER_REFERENCE_BYTES :: usize where "MAX_PROVIDER_REFERENCE_BYTES = 256"
definition MAX_PROFILE_FIELD_BYTES :: usize where "MAX_PROFILE_FIELD_BYTES = 256"
definition MAX_RETRY_AFTER_MILLIS :: u64 where "MAX_RETRY_AFTER_MILLIS = 3600000"
definition MAX_SERIALIZED_RESULT_BYTES :: usize where
  "MAX_SERIALIZED_RESULT_BYTES = 32 * 1024 * 1024"

type_synonym uuid = "128 word"

record ('v, 't) JobRecord =
  jr_job_id :: uuid
  jr_contract_version :: int
  jr_provider :: str
  jr_model :: str
  jr_language :: str
  jr_fingerprint :: "u8 list"
  jr_audio_handle :: str
  jr_authoritative_duration_millis :: int
  jr_keyterms :: 'v
  jr_state :: str
  jr_attempt :: "int option"
  jr_failure_code :: "str option"
  jr_unknown_reason :: "str option"
  jr_provider_reference :: "str option"
  jr_retry_after_millis :: "int option"
  jr_result_json :: "'v option"
  jr_result_text :: "'t option"
  jr_revision :: int

type_synonym RecordError = str

record SegmentRecord =
  sr_start_millis :: u64
  sr_end_millis :: u64
  sr_text :: str
  sr_confidence :: "float option"
  sr_speaker :: "str option"

record ReadableRecord =
  rr_start_millis :: u64
  rr_end_millis :: u64
  rr_text :: str
  rr_source_segment_indices :: "usize list"

record ResultRecord =
  res_text :: str
  res_duration_millis :: u64
  res_provider_duration_millis :: "u64 option"
  res_segments :: "SegmentRecord list"
  res_readable_segments :: "ReadableRecord list option"

text \<open>The libraries: UUID text, and JSON conversion of the two stored shapes.\<close>

record ('v, 't) codec =
  cd_uuid_parse :: "str \<Rightarrow> uuid option"
  cd_uuid_text :: "uuid \<Rightarrow> str"
  cd_keyterms_value :: "str list \<Rightarrow> 'v"
  cd_keyterms_of :: "'v \<Rightarrow> str list option"
  cd_result_text :: "ResultRecord \<Rightarrow> 't"
  cd_result_of :: "'t \<Rightarrow> ResultRecord option"
  cd_text_value :: "'t \<Rightarrow> 'v option"
  cd_value_text :: "'v \<Rightarrow> 't"
  cd_text_len :: "'t \<Rightarrow> usize"

text \<open>\<open>TryFrom\<close> between signed columns and unsigned values.\<close>

definition i64_of_u64 :: "u64 \<Rightarrow> int option" where
  "i64_of_u64 w = (if unat w < 2 ^ 63 then Some (int (unat w)) else None)"

definition u64_of_i64 :: "int \<Rightarrow> u64 option" where
  "u64_of_i64 i = (if 0 \<le> i \<and> i < 2 ^ 63 then Some (word_of_nat (nat i)) else None)"

definition i16_of_u16 :: "u16 \<Rightarrow> int option" where
  "i16_of_u16 w = (if unat w < 2 ^ 15 then Some (int (unat w)) else None)"

definition u16_of_i16 :: "int \<Rightarrow> u16 option" where
  "u16_of_i16 i = (if 0 \<le> i \<and> i < 2 ^ 15 then Some (word_of_nat (nat i)) else None)"

text \<open>\<open>u32::try_from(value).ok().and_then(NonZeroU32::new)\<close>.\<close>

definition nonzero_u32_of_i64 :: "int \<Rightarrow> u32 option" where
  "nonzero_u32_of_i64 i = (if 0 < i \<and> i < 2 ^ 32 then Some (word_of_nat (nat i)) else None)"

section \<open>Validation\<close>

definition canonical_uuid :: "('v, 't) codec \<Rightarrow> str \<Rightarrow> (uuid, RecordError) result" where
  "canonical_uuid cd value =
     (case cd_uuid_parse cd value of
        None \<Rightarrow> Err (lit ''INVALID_JOB_ID'')
      | Some u \<Rightarrow> if cd_uuid_text cd u \<noteq> value then Err (lit ''INVALID_JOB_ID'') else Ok u)"

definition strip_suffix :: "str \<Rightarrow> str \<Rightarrow> str option" where
  "strip_suffix p s =
     (if length p \<le> length s \<and> drop (length s - length p) s = p
      then Some (take (length s - length p) s) else None)"

definition validate_handle :: "str \<Rightarrow> str \<Rightarrow> (unit, RecordError) result" where
  "validate_handle handle job_id =
     (case Option.bind (strip_prefix (job_id @ lit ''-'') handle) (strip_suffix (lit ''.ogg'')) of
        None \<Rightarrow> Err (lit ''INVALID_AUDIO_HANDLE'')
      | Some digest \<Rightarrow>
          if str_len digest \<noteq> 64 \<or> \<not> list_all lowercase_hex (str_bytes digest)
          then Err (lit ''INVALID_AUDIO_HANDLE'') else Ok ())"

fun keyterms_total :: "usize \<Rightarrow> str list \<Rightarrow> (usize, RecordError) result" where
  "keyterms_total acc [] = Ok acc"
| "keyterms_total acc (keyterm # rest) =
     (if keyterm = [] \<or> str_len keyterm > MAX_KEYTERM_BYTES \<or> trim keyterm \<noteq> keyterm
         \<or> has_control keyterm
      then Err (lit ''INVALID_KEYTERMS'')
      else and_then (ok_or (usize_checked_add acc (str_len keyterm)) (lit ''INVALID_KEYTERMS''))
             (\<lambda>acc'. keyterms_total acc' rest))"

definition record_validate_keyterms :: "str list \<Rightarrow> (unit, RecordError) result" where
  "record_validate_keyterms keyterms =
     (if length keyterms > MAX_KEYTERMS then Err (lit ''INVALID_KEYTERMS'')
      else and_then (keyterms_total 0 keyterms)
             (\<lambda>bytes. if bytes > MAX_KEYTERMS_BYTES then Err (lit ''INVALID_KEYTERMS'') else Ok ()))"

definition validate_profile :: "BatchProfile \<Rightarrow> (unit, RecordError) result" where
  "validate_profile profile =
     (if list_ex (\<lambda>value. str_len value > MAX_PROFILE_FIELD_BYTES)
           [bp_provider profile, bp_model profile, bp_language profile]
      then Err (lit ''INVALID_PROFILE'') else Ok ())"

definition validate_reference :: "ProviderReference option \<Rightarrow> (unit, RecordError) result" where
  "validate_reference reference =
     (case reference of
        None \<Rightarrow> Ok ()
      | Some r \<Rightarrow>
          if pr_id r = [] \<or> str_len (pr_id r) > MAX_PROVIDER_REFERENCE_BYTES
             \<or> \<not> list_all printable_ascii (str_bytes (pr_id r))
          then Err (lit ''INVALID_PROVIDER_REFERENCE'') else Ok ())"

definition restore_reference ::
  "str option \<Rightarrow> (ProviderReference option, RecordError) result" where
  "restore_reference value =
     (let reference = map_option reference_new value in
      and_then (validate_reference reference) (\<lambda>_. Ok reference))"

definition is_completed :: "BatchJobState \<Rightarrow> bool" where
  "is_completed state = (case state of Completed _ \<Rightarrow> True | _ \<Rightarrow> False)"

definition is_retryable :: "BatchJobState \<Rightarrow> bool" where
  "is_retryable state = (case state of Retryable _ _ \<Rightarrow> True | _ \<Rightarrow> False)"

definition validate_result_presence :: "BatchJobState \<Rightarrow> bool \<Rightarrow> (unit, RecordError) result" where
  "validate_result_presence state has_result =
     (if is_completed state \<noteq> has_result then Err (lit ''INVALID_RESULT_STATE'') else Ok ())"

definition validate_retry_after ::
  "BatchJobState \<Rightarrow> u64 option \<Rightarrow> (unit, RecordError) result" where
  "validate_retry_after state retry_after_millis =
     (if (case retry_after_millis of None \<Rightarrow> False | Some v \<Rightarrow> v > MAX_RETRY_AFTER_MILLIS)
         \<or> (\<not> is_retryable state \<and> retry_after_millis \<noteq> None)
      then Err (lit ''INVALID_RETRY_AFTER'') else Ok ())"

definition restore_retry_after ::
  "BatchJobState \<Rightarrow> int option \<Rightarrow> (u64 option, RecordError) result" where
  "restore_retry_after state value =
     and_then (map_err (\<lambda>_. lit ''INVALID_RETRY_AFTER'')
        (transpose_opt (map_option (\<lambda>v. ok_or (u64_of_i64 v) ()) value)))
       (\<lambda>value'. and_then (validate_retry_after state value') (\<lambda>_. Ok value'))"

section \<open>Validation of a stored result\<close>

definition MAX_TEXT_BYTES :: usize where "MAX_TEXT_BYTES = 4 * 1024 * 1024"

definition speaker_invalid :: "str option \<Rightarrow> bool" where
  "speaker_invalid speaker =
     (case speaker of
        None \<Rightarrow> False
      | Some v \<Rightarrow> v = [] \<or> str_len v > MAX_PROVIDER_REFERENCE_BYTES \<or> has_control v)"

fun stored_segments_ok :: "u64 \<Rightarrow> u64 \<Rightarrow> BatchSegment list \<Rightarrow> (unit, RecordError) result" where
  "stored_segments_ok duration previous_end [] = Ok ()"
| "stored_segments_ok duration previous_end (segment # rest) =
     (if bs_start_millis segment < previous_end
         \<or> bs_end_millis segment \<le> bs_start_millis segment
         \<or> bs_end_millis segment > duration
         \<or> bs_text segment = []
         \<or> str_len (bs_text segment) > MAX_TEXT_BYTES
         \<or> \<not> valid_confidence (bs_confidence segment)
         \<or> speaker_invalid (bs_speaker segment)
      then Err (lit ''INVALID_RESULT'')
      else stored_segments_ok duration (bs_end_millis segment) rest)"

fun stored_readable_ok ::
  "u64 \<Rightarrow> usize \<Rightarrow> u64 \<Rightarrow> usize \<Rightarrow> BatchReadableSegment list \<Rightarrow> (usize, RecordError) result" where
  "stored_readable_ok duration count previous_end references [] = Ok references"
| "stored_readable_ok duration count previous_end references (segment # rest) =
     and_then (ok_or (usize_checked_add references (length (brs_source_segment_indices segment)))
                 (lit ''RESULT_TOO_LARGE''))
       (\<lambda>references'.
          if brs_start_millis segment < previous_end
             \<or> brs_end_millis segment \<le> brs_start_millis segment
             \<or> brs_end_millis segment > duration
             \<or> brs_text segment = []
             \<or> str_len (brs_text segment) > MAX_TEXT_BYTES
             \<or> brs_source_segment_indices segment = []
             \<or> \<not> strictly_increasing (brs_source_segment_indices segment)
             \<or> last (brs_source_segment_indices segment) \<ge> count
          then Err (lit ''INVALID_RESULT'')
          else stored_readable_ok duration count (brs_end_millis segment) references' rest)"

definition stored_validate_result :: "BatchRecognitionResult \<Rightarrow> (unit, RecordError) result" where
  "stored_validate_result r =
     (if str_len (brr_text r) > MAX_TEXT_BYTES \<or> length (brr_segments r) > MAX_SEGMENTS
      then Err (lit ''RESULT_TOO_LARGE'')
      else and_then (stored_segments_ok (brr_duration_millis r) 0 (brr_segments r)) (\<lambda>_.
           and_then
             (case brr_readable_segments r of
                None \<Rightarrow> Ok 0
              | Some segments \<Rightarrow>
                  if length segments > MAX_SEGMENTS then Err (lit ''RESULT_TOO_LARGE'')
                  else stored_readable_ok (brr_duration_millis r) (length (brr_segments r)) 0 0
                         segments)
             (\<lambda>references.
                if references > MAX_READABLE_REFERENCES then Err (lit ''RESULT_TOO_LARGE'')
                else Ok ())))"

section \<open>State columns\<close>

definition i64_of_u32 :: "u32 \<Rightarrow> int" where
  "i64_of_u32 a = int (unat a)"

fun flatten_state ::
  "BatchJobState \<Rightarrow> str \<times> int option \<times> str option \<times> str option" where
  "flatten_state Accepted = (lit ''accepted'', None, None, None)"
| "flatten_state (Submitting attempt) = (lit ''submitting'', Some (i64_of_u32 attempt), None, None)"
| "flatten_state (Retryable attempt failure) =
     (lit ''retryable'', Some (i64_of_u32 attempt), Some (failure_code failure), None)"
| "flatten_state (Completed attempt) = (lit ''completed'', Some (i64_of_u32 attempt), None, None)"
| "flatten_state (Failed attempt failure) =
     (lit ''failed'', Some (i64_of_u32 attempt), Some (failure_code failure), None)"
| "flatten_state (OutcomeUnknown attempt (Submission failure)) =
     (lit ''outcome_unknown'', Some (i64_of_u32 attempt), Some (failure_code failure),
      Some (lit ''submission''))"
| "flatten_state (OutcomeUnknown attempt InterruptedSubmission) =
     (lit ''outcome_unknown'', Some (i64_of_u32 attempt), None,
      Some (lit ''interrupted_submission''))"

definition restore_shape ::
  "str \<Rightarrow> u32 option \<Rightarrow> BatchFailure option \<Rightarrow> str option \<Rightarrow> (BatchJobState, RecordError) result"
  where
  "restore_shape state attempt failure unknown_reason =
     (if state = lit ''accepted'' \<and> attempt = None \<and> failure = None \<and> unknown_reason = None
      then Ok Accepted
      else case attempt of
        None \<Rightarrow> Err (lit ''INVALID_STATE_SNAPSHOT'')
      | Some a \<Rightarrow>
          (case (failure, unknown_reason) of
             (None, None) \<Rightarrow>
               if state = lit ''submitting'' then Ok (Submitting a)
               else if state = lit ''completed'' then Ok (Completed a)
               else Err (lit ''INVALID_STATE_SNAPSHOT'')
           | (Some f, None) \<Rightarrow>
               if state = lit ''retryable'' then Ok (Retryable a f)
               else if state = lit ''failed'' then Ok (Failed a f)
               else Err (lit ''INVALID_STATE_SNAPSHOT'')
           | (Some f, Some reason) \<Rightarrow>
               if state = lit ''outcome_unknown'' \<and> reason = lit ''submission''
               then Ok (OutcomeUnknown a (Submission f))
               else Err (lit ''INVALID_STATE_SNAPSHOT'')
           | (None, Some reason) \<Rightarrow>
               if state = lit ''outcome_unknown'' \<and> reason = lit ''interrupted_submission''
               then Ok (OutcomeUnknown a InterruptedSubmission)
               else Err (lit ''INVALID_STATE_SNAPSHOT'')))"

definition restore_state ::
  "str \<Rightarrow> int option \<Rightarrow> str option \<Rightarrow> str option \<Rightarrow> (BatchJobState, RecordError) result" where
  "restore_state state attempt0 failure_code0 unknown_reason =
     and_then (transpose_opt
         (map_option (\<lambda>v. ok_or (nonzero_u32_of_i64 v) (lit ''INVALID_ATTEMPT'')) attempt0))
       (\<lambda>attempt. and_then (transpose_opt
           (map_option (\<lambda>v. map_err (\<lambda>_. lit ''INVALID_FAILURE_CODE'') (failure_new v)) failure_code0))
          (\<lambda>failure. restore_shape state attempt failure unknown_reason))"

section \<open>Result column\<close>

definition segment_to_record :: "BatchSegment \<Rightarrow> SegmentRecord" where
  "segment_to_record s =
     \<lparr>sr_start_millis = bs_start_millis s, sr_end_millis = bs_end_millis s, sr_text = bs_text s,
      sr_confidence = bs_confidence s, sr_speaker = bs_speaker s\<rparr>"

definition segment_of_record :: "SegmentRecord \<Rightarrow> BatchSegment" where
  "segment_of_record s =
     \<lparr>bs_start_millis = sr_start_millis s, bs_end_millis = sr_end_millis s, bs_text = sr_text s,
      bs_confidence = sr_confidence s, bs_speaker = sr_speaker s\<rparr>"

definition readable_to_record :: "BatchReadableSegment \<Rightarrow> ReadableRecord" where
  "readable_to_record s =
     \<lparr>rr_start_millis = brs_start_millis s, rr_end_millis = brs_end_millis s,
      rr_text = brs_text s, rr_source_segment_indices = brs_source_segment_indices s\<rparr>"

definition readable_of_record :: "ReadableRecord \<Rightarrow> BatchReadableSegment" where
  "readable_of_record s =
     \<lparr>brs_start_millis = rr_start_millis s, brs_end_millis = rr_end_millis s,
      brs_text = rr_text s, brs_source_segment_indices = rr_source_segment_indices s\<rparr>"

definition result_to_record :: "BatchRecognitionResult \<Rightarrow> ResultRecord" where
  "result_to_record r =
     \<lparr>res_text = brr_text r, res_duration_millis = brr_duration_millis r,
      res_provider_duration_millis = brr_provider_duration_millis r,
      res_segments = map segment_to_record (brr_segments r),
      res_readable_segments = map_option (map readable_to_record) (brr_readable_segments r)\<rparr>"

definition bounded_json :: "('v, 't) codec \<Rightarrow> 't \<Rightarrow> (unit, RecordError) result" where
  "bounded_json cd value =
     (if cd_text_len cd value > MAX_SERIALIZED_RESULT_BYTES then Err (lit ''RESULT_TOO_LARGE'')
      else Ok ())"

definition serialize_result ::
  "('v, 't) codec \<Rightarrow> BatchJobSnapshot \<Rightarrow> BatchRecognitionResult \<Rightarrow> ('t, RecordError) result" where
  "serialize_result cd snapshot r =
     (if brr_profile r \<noteq> job_profile (sn_job snapshot)
         \<or> brr_duration_millis r \<noteq> sn_authoritative_duration_millis snapshot
         \<or> brr_provider_reference r \<noteq> sn_provider_reference snapshot
      then Err (lit ''INVALID_RESULT_IDENTITY'')
      else and_then (stored_validate_result r) (\<lambda>_.
           let value = cd_result_text cd (result_to_record r) in
           and_then (bounded_json cd value) (\<lambda>_. Ok value)))"

definition restore_result ::
  "('v, 't) codec \<Rightarrow> 't option \<Rightarrow> BatchProfile \<Rightarrow> u64 \<Rightarrow> ProviderReference option \<Rightarrow>
   (BatchRecognitionResult option, RecordError) result" where
  "restore_result cd value0 profile duration provider_reference =
     (case value0 of
        None \<Rightarrow> Ok None
      | Some value \<Rightarrow>
          and_then (bounded_json cd value) (\<lambda>_.
          and_then (ok_or (cd_result_of cd value) (lit ''INVALID_RESULT_JSON'')) (\<lambda>rec.
          let r = \<lparr>brr_profile = profile, brr_text = res_text rec,
                   brr_duration_millis = res_duration_millis rec,
                   brr_provider_duration_millis = res_provider_duration_millis rec,
                   brr_segments = map segment_of_record (res_segments rec),
                   brr_readable_segments =
                     map_option (map readable_of_record) (res_readable_segments rec),
                   brr_provider_reference = provider_reference\<rparr> in
          if brr_duration_millis r \<noteq> duration then Err (lit ''INVALID_RESULT_IDENTITY'')
          else and_then (stored_validate_result r) (\<lambda>_. Ok (Some r)))))"

definition compatible_result_text ::
  "('v, 't) codec \<Rightarrow> 'v option \<Rightarrow> 't option \<Rightarrow> ('t option, RecordError) result" where
  "compatible_result_text cd legacy0 exact0 =
     (case (legacy0, exact0) of
        (None, None) \<Rightarrow> Ok None
      | (Some legacy, None) \<Rightarrow> Ok (Some (cd_value_text cd legacy))
      | (Some legacy, Some exact) \<Rightarrow>
          and_then (ok_or (cd_text_value cd exact) (lit ''INVALID_RESULT_JSON'')) (\<lambda>exact_value.
          if exact_value = legacy then Ok (Some exact) else Ok (Some (cd_value_text cd legacy)))
      | (None, Some _) \<Rightarrow> Err (lit ''INVALID_RESULT_REPRESENTATION''))"

section \<open>Whole rows\<close>

definition snapshot_of_record ::
  "('v, 't) codec \<Rightarrow> ('v, 't) JobRecord \<Rightarrow> (BatchJobSnapshot, RecordError) result" where
  "snapshot_of_record cd rec =
     (let id = cd_uuid_text cd (jr_job_id rec) in
      and_then (ok_or (u16_of_i16 (jr_contract_version rec)) (lit ''INVALID_CONTRACT_VERSION''))
        (\<lambda>contract_version.
      and_then (map_err (\<lambda>_. lit ''INVALID_PROFILE'')
          (profile_new contract_version (jr_provider rec) (jr_model rec) (jr_language rec)))
        (\<lambda>profile.
      and_then (validate_profile profile) (\<lambda>_.
      and_then (if length (jr_fingerprint rec) = 32 then Ok (jr_fingerprint rec)
                else Err (lit ''INVALID_FINGERPRINT''))
        (\<lambda>fingerprint.
      and_then (validate_handle (jr_audio_handle rec) id) (\<lambda>_.
      and_then (ok_or (u64_of_i64 (jr_authoritative_duration_millis rec)) (lit ''INVALID_DURATION''))
        (\<lambda>duration.
      and_then (ok_or (cd_keyterms_of cd (jr_keyterms rec)) (lit ''INVALID_KEYTERMS'')) (\<lambda>keyterms.
      and_then (record_validate_keyterms keyterms) (\<lambda>_.
      and_then (restore_reference (jr_provider_reference rec)) (\<lambda>provider_reference.
      and_then (restore_state (jr_state rec) (jr_attempt rec) (jr_failure_code rec)
                  (jr_unknown_reason rec)) (\<lambda>state.
      and_then (and_then (compatible_result_text cd (jr_result_json rec) (jr_result_text rec))
          (\<lambda>text. restore_result cd text profile duration provider_reference)) (\<lambda>recognized.
      and_then (validate_result_presence state (recognized \<noteq> None)) (\<lambda>_.
      and_then (restore_retry_after state (jr_retry_after_millis rec)) (\<lambda>retry_after_millis.
      and_then (ok_or (u64_of_i64 (jr_revision rec)) (lit ''INVALID_REVISION'')) (\<lambda>revision.
      Ok \<lparr>sn_id = id, sn_job = restore profile fingerprint state, sn_audio = jr_audio_handle rec,
          sn_authoritative_duration_millis = duration, sn_keyterms = keyterms,
          sn_provider_reference =
            (case recognized of None \<Rightarrow> provider_reference | Some r \<Rightarrow> brr_provider_reference r),
          sn_retry_after_millis = retry_after_millis, sn_result = recognized,
          sn_revision = revision\<rparr>)))))))))))))))"

definition record_of_snapshot ::
  "('v, 't) codec \<Rightarrow> BatchJobSnapshot \<Rightarrow> (('v, 't) JobRecord, RecordError) result" where
  "record_of_snapshot cd sn =
     (let state = job_state (sn_job sn); profile = job_profile (sn_job sn) in
      and_then (canonical_uuid cd (sn_id sn)) (\<lambda>job_id.
      and_then (validate_handle (sn_audio sn) (sn_id sn)) (\<lambda>_.
      and_then (validate_profile profile) (\<lambda>_.
      and_then (record_validate_keyterms (sn_keyterms sn)) (\<lambda>_.
      and_then (validate_reference (sn_provider_reference sn)) (\<lambda>_.
      and_then (validate_retry_after state (sn_retry_after_millis sn)) (\<lambda>_.
      case flatten_state state of (state_text, attempt, code, unknown_reason) \<Rightarrow>
      and_then (transpose_opt (map_option (serialize_result cd sn) (sn_result sn))) (\<lambda>text.
      and_then (validate_result_presence state (text \<noteq> None)) (\<lambda>_.
      and_then (transpose_opt (map_option
          (\<lambda>t. ok_or (cd_text_value cd t) (lit ''INVALID_RESULT_JSON'')) text)) (\<lambda>json.
      and_then (ok_or (i16_of_u16 (bp_contract_version profile)) (lit ''INVALID_CONTRACT_VERSION''))
        (\<lambda>contract_version.
      and_then (ok_or (i64_of_u64 (sn_authoritative_duration_millis sn)) (lit ''INVALID_DURATION''))
        (\<lambda>duration.
      and_then (transpose_opt (map_option
          (\<lambda>v. ok_or (i64_of_u64 v) (lit ''INVALID_RETRY_AFTER'')) (sn_retry_after_millis sn)))
        (\<lambda>retry_after.
      and_then (ok_or (i64_of_u64 (sn_revision sn)) (lit ''INVALID_REVISION'')) (\<lambda>revision.
      Ok \<lparr>jr_job_id = job_id, jr_contract_version = contract_version,
          jr_provider = bp_provider profile, jr_model = bp_model profile,
          jr_language = bp_language profile, jr_fingerprint = job_fingerprint (sn_job sn),
          jr_audio_handle = sn_audio sn, jr_authoritative_duration_millis = duration,
          jr_keyterms = cd_keyterms_value cd (sn_keyterms sn), jr_state = state_text,
          jr_attempt = attempt, jr_failure_code = code, jr_unknown_reason = unknown_reason,
          jr_provider_reference = map_option pr_id (sn_provider_reference sn),
          jr_retry_after_millis = retry_after, jr_result_json = json, jr_result_text = text,
          jr_revision = revision\<rparr>))))))))))))))"

section \<open>What the libraries promise\<close>

definition finite_record :: "ResultRecord \<Rightarrow> bool" where
  "finite_record r \<longleftrightarrow>
     (\<forall>s \<in> set (res_segments r). case sr_confidence s of None \<Rightarrow> True | Some c \<Rightarrow> is_finite c)"

definition codec_laws :: "('v, 't) codec \<Rightarrow> bool" where
  "codec_laws cd \<longleftrightarrow>
     (\<forall>u. cd_uuid_parse cd (cd_uuid_text cd u) = Some u) \<and>
     (\<forall>k. cd_keyterms_of cd (cd_keyterms_value cd k) = Some k) \<and>
     (\<forall>r. finite_record r \<longrightarrow>
        cd_result_of cd (cd_result_text cd r) = Some r \<and>
        cd_text_value cd (cd_result_text cd r) \<noteq> None)"

section \<open>Round trips\<close>

lemma u64_i64_roundtrip: "i64_of_u64 w = Some i \<Longrightarrow> u64_of_i64 i = Some w"
  by (auto simp: i64_of_u64_def u64_of_i64_def nat_less_iff simp flip: nat_uint_eq split: if_splits)

lemma u16_i16_roundtrip: "i16_of_u16 w = Some i \<Longrightarrow> u16_of_i16 i = Some w"
  by (auto simp: i16_of_u16_def u16_of_i16_def nat_less_iff simp flip: nat_uint_eq split: if_splits)

lemma attempt_roundtrip: "a \<noteq> 0 \<Longrightarrow> nonzero_u32_of_i64 (i64_of_u32 a) = Some a"
proof -
  assume "a \<noteq> 0"
  then have "0 < unat a" by (simp add: unat_gt_0)
  moreover have "unat a < 2 ^ 32" using unsigned_less [of a, where 'a = nat] by simp
  ultimately show ?thesis
    by (auto simp: nonzero_u32_of_i64_def i64_of_u32_def nat_less_iff simp flip: nat_uint_eq)
qed

lemma state_roundtrip:
  assumes "wf_job_state st" and "flatten_state st = (t, a, c, u)"
  shows "restore_state t a c u = Ok st"
  using assms
  by (cases st rule: wf_job_state.cases)
    (auto simp: restore_state_def restore_shape_def attempt_roundtrip wf_failure_def simp del: lit_Cons)

lemma record_segment_inverse [simp]:
  "segment_of_record (segment_to_record s) = s"
  "readable_of_record (readable_to_record q) = q"
  "segment_of_record \<circ> segment_to_record = id"
  "readable_of_record \<circ> readable_to_record = id"
  by (auto simp: segment_of_record_def segment_to_record_def readable_of_record_def
      readable_to_record_def)

lemma stored_validate_untyped [simp]:
  "stored_validate_result (r\<lparr>brr_provider_reference := x\<rparr>) = stored_validate_result r"
  by (cases "brr_readable_segments r") (simp_all add: stored_validate_result_def)

lemma stored_segments_finite:
  "stored_segments_ok d p ss = Ok () \<Longrightarrow> s \<in> set ss \<Longrightarrow> valid_confidence (bs_confidence s)"
  by (induction ss arbitrary: p) (auto split: if_splits)

lemma stored_result_finite:
  assumes "stored_validate_result r = Ok ()"
  shows "finite_record (result_to_record r)"
proof -
  have "stored_segments_ok (brr_duration_millis r) 0 (brr_segments r) = Ok ()"
    using assms by (auto simp: stored_validate_result_def split: if_splits)
  then have "\<forall>s \<in> set (brr_segments r). valid_confidence (bs_confidence s)"
    using stored_segments_finite by blast
  then show ?thesis
    by (auto simp: finite_record_def result_to_record_def segment_to_record_def unit_interval_finite
        split: option.splits)
qed

lemma result_roundtrip:
  assumes laws: "codec_laws cd" and ser: "serialize_result cd sn r = Ok body"
    and ref: "sn_provider_reference sn = ref'"
  shows "restore_result cd (Some body) (job_profile (sn_job sn)) (sn_authoritative_duration_millis sn) x
           = Ok (Some (r\<lparr>brr_provider_reference := x\<rparr>))"
    and "\<exists>v. cd_text_value cd body = Some v"
    and "brr_provider_reference r = sn_provider_reference sn"
proof -
  have id: "brr_profile r = job_profile (sn_job sn)"
      "brr_duration_millis r = sn_authoritative_duration_millis sn"
      "brr_provider_reference r = sn_provider_reference sn"
    and ok: "stored_validate_result r = Ok ()"
    and body: "body = cd_result_text cd (result_to_record r)" "bounded_json cd body = Ok ()"
    using ser by (auto simp: serialize_result_def Let_def split: if_splits)
  have law: "cd_result_of cd body = Some (result_to_record r)" "cd_text_value cd body \<noteq> None"
    using laws stored_result_finite [OF ok] body(1) by (simp_all add: codec_laws_def)
  then show "\<exists>v. cd_text_value cd body = Some v" by simp
  show "brr_provider_reference r = sn_provider_reference sn" by (rule id(3))
  let ?rebuilt = "\<lparr>brr_profile = job_profile (sn_job sn), brr_text = brr_text r,
      brr_duration_millis = brr_duration_millis r,
      brr_provider_duration_millis = brr_provider_duration_millis r,
      brr_segments = brr_segments r, brr_readable_segments = brr_readable_segments r,
      brr_provider_reference = x\<rparr>"
  have "?rebuilt = r\<lparr>brr_provider_reference := x\<rparr>" using id(1) by simp
  moreover have "map_option (map readable_of_record)
      (map_option (map readable_to_record) (brr_readable_segments r)) = brr_readable_segments r"
    by (cases "brr_readable_segments r") simp_all
  ultimately show "restore_result cd (Some body) (job_profile (sn_job sn))
      (sn_authoritative_duration_millis sn) x = Ok (Some (r\<lparr>brr_provider_reference := x\<rparr>))"
    using law(1) body(2) id(2) ok
    by (simp add: restore_result_def result_to_record_def Let_def)
qed

lemma reference_roundtrip:
  "validate_reference r = Ok () \<Longrightarrow> restore_reference (map_option pr_id r) = Ok (untyped_reference r)"
  by (cases r) (auto simp: restore_reference_def untyped_reference_def validate_reference_def
      reference_new_def Let_def split: if_splits)

lemma retry_after_roundtrip:
  assumes "validate_retry_after st ra = Ok ()"
    and "transpose_opt (map_option (\<lambda>v. ok_or (i64_of_u64 v) e) ra) = Ok ia"
  shows "restore_retry_after st ia = Ok ra"
  using assms by (cases ra) (auto simp: restore_retry_after_def u64_i64_roundtrip)

lemma canonical_uuid_Ok:
  "canonical_uuid cd s = Ok u \<Longrightarrow> cd_uuid_text cd u = s"
  by (auto simp: canonical_uuid_def split: option.splits if_splits)

lemma stored_text_roundtrip:
  assumes laws: "codec_laws cd"
    and body: "transpose_opt (map_option (serialize_result cd sn) (sn_result sn)) = Ok body"
    and json: "transpose_opt (map_option (\<lambda>t. ok_or (cd_text_value cd t) e) body) = Ok json"
  shows "and_then (compatible_result_text cd json body)
      (\<lambda>t. restore_result cd t (job_profile (sn_job sn)) (sn_authoritative_duration_millis sn) x)
      = Ok (map_option (\<lambda>r. r\<lparr>brr_provider_reference := x\<rparr>) (sn_result sn))"
proof (cases "sn_result sn")
  case None
  with body json show ?thesis by (simp add: compatible_result_text_def restore_result_def)
next
  case (Some r)
  with body obtain t where t: "serialize_result cd sn r = Ok t" "body = Some t" by auto
  with json have "json = cd_text_value cd t" by auto
  with t Some result_roundtrip(1,2) [OF laws t(1) refl] show ?thesis
    by (auto simp: compatible_result_text_def)
qed

text \<open>The checks and the columns of an encoded row.\<close>

lemma record_parts:
  assumes enc: "record_of_snapshot cd sn = Ok rec"
    and fl: "flatten_state (job_state (sn_job sn)) = (st, a, c, u)"
  obtains i body json cv du ra rv where
    "canonical_uuid cd (sn_id sn) = Ok i"
    and "validate_handle (sn_audio sn) (sn_id sn) = Ok ()"
    and "validate_profile (job_profile (sn_job sn)) = Ok ()" and "record_validate_keyterms (sn_keyterms sn) = Ok ()"
    and "validate_reference (sn_provider_reference sn) = Ok ()"
    and "validate_retry_after (job_state (sn_job sn)) (sn_retry_after_millis sn) = Ok ()"
    and "transpose_opt (map_option (serialize_result cd sn) (sn_result sn)) = Ok body"
    and "validate_result_presence (job_state (sn_job sn)) (body \<noteq> None) = Ok ()"
    and "transpose_opt (map_option
      (\<lambda>t. ok_or (cd_text_value cd t) (lit ''INVALID_RESULT_JSON'')) body) = Ok json"
    and "i16_of_u16 (bp_contract_version (job_profile (sn_job sn))) = Some cv"
    and "i64_of_u64 (sn_authoritative_duration_millis sn) = Some du"
    and "transpose_opt (map_option
      (\<lambda>v. ok_or (i64_of_u64 v) (lit ''INVALID_RETRY_AFTER'')) (sn_retry_after_millis sn)) = Ok ra"
    and "i64_of_u64 (sn_revision sn) = Some rv"
    and "rec = \<lparr>jr_job_id = i, jr_contract_version = cv, jr_provider = bp_provider (job_profile (sn_job sn)),
      jr_model = bp_model (job_profile (sn_job sn)), jr_language = bp_language (job_profile (sn_job sn)),
      jr_fingerprint = job_fingerprint (sn_job sn), jr_audio_handle = sn_audio sn,
      jr_authoritative_duration_millis = du, jr_keyterms = cd_keyterms_value cd (sn_keyterms sn),
      jr_state = st, jr_attempt = a, jr_failure_code = c, jr_unknown_reason = u,
      jr_provider_reference = map_option pr_id (sn_provider_reference sn),
      jr_retry_after_millis = ra, jr_result_json = json, jr_result_text = body, jr_revision = rv\<rparr>"
  using enc unfolding record_of_snapshot_def Let_def fl prod.case and_then_Ok_iff ok_or_Ok_iff
  by (elim exE conjE, simp only: result.inject) (rule that; (assumption | erule sym | simp))

lemma record_roundtrip_untyped:
  assumes laws: "codec_laws cd" and wf: "wf_job (sn_job sn)"
    and enc: "record_of_snapshot cd sn = Ok rec"
  shows "snapshot_of_record cd rec = Ok (untyped sn)"
proof -
  let ?st = "job_state (sn_job sn)" and ?p = "job_profile (sn_job sn)"
  obtain st a c u where fl: "flatten_state ?st = (st, a, c, u)" by (cases "flatten_state ?st")
  obtain i body json cv du ra rv where
    i: "canonical_uuid cd (sn_id sn) = Ok i"
    and h: "validate_handle (sn_audio sn) (sn_id sn) = Ok ()"
    and p: "validate_profile ?p = Ok ()" and k: "record_validate_keyterms (sn_keyterms sn) = Ok ()"
    and ref: "validate_reference (sn_provider_reference sn) = Ok ()"
    and rt: "validate_retry_after ?st (sn_retry_after_millis sn) = Ok ()"
    and body: "transpose_opt (map_option (serialize_result cd sn) (sn_result sn)) = Ok body"
    and pres: "validate_result_presence ?st (body \<noteq> None) = Ok ()"
    and json: "transpose_opt (map_option
      (\<lambda>t. ok_or (cd_text_value cd t) (lit ''INVALID_RESULT_JSON'')) body) = Ok json"
    and cv: "i16_of_u16 (bp_contract_version ?p) = Some cv"
    and du: "i64_of_u64 (sn_authoritative_duration_millis sn) = Some du"
    and ra: "transpose_opt (map_option
      (\<lambda>v. ok_or (i64_of_u64 v) (lit ''INVALID_RETRY_AFTER'')) (sn_retry_after_millis sn)) = Ok ra"
    and rv: "i64_of_u64 (sn_revision sn) = Some rv"
    and row: "rec = \<lparr>jr_job_id = i, jr_contract_version = cv, jr_provider = bp_provider ?p,
      jr_model = bp_model ?p, jr_language = bp_language ?p,
      jr_fingerprint = job_fingerprint (sn_job sn), jr_audio_handle = sn_audio sn,
      jr_authoritative_duration_millis = du, jr_keyterms = cd_keyterms_value cd (sn_keyterms sn),
      jr_state = st, jr_attempt = a, jr_failure_code = c, jr_unknown_reason = u,
      jr_provider_reference = map_option pr_id (sn_provider_reference sn),
      jr_retry_after_millis = ra, jr_result_json = json, jr_result_text = body, jr_revision = rv\<rparr>"
    by (rule record_parts [OF enc fl])
  have kt: "cd_keyterms_of cd (cd_keyterms_value cd (sn_keyterms sn)) = Some (sn_keyterms sn)"
    using laws by (simp add: codec_laws_def)
  have has: "body \<noteq> None \<longleftrightarrow> sn_result sn \<noteq> None" using body by (cases "sn_result sn") auto
  have wfs: "wf_profile ?p" "length (job_fingerprint (sn_job sn)) = 32" "wf_job_state ?st"
    using wf by (simp_all add: wf_job_def wf_fingerprint_def)
  note stored = stored_text_roundtrip [OF laws body json]
  have refs: "(case sn_result sn of None \<Rightarrow> sn_provider_reference sn
      | Some r \<Rightarrow> brr_provider_reference r) = sn_provider_reference sn"
    using body result_roundtrip(3) [OF laws _ refl] by (cases "sn_result sn") auto
  show ?thesis
    unfolding snapshot_of_record_def row Let_def
    using wfs h p k kt pres has refs
    by (simp add: canonical_uuid_Ok [OF i] u16_i16_roundtrip [OF cv] wf_profile_def
        u64_i64_roundtrip [OF du] reference_roundtrip [OF ref] state_roundtrip [OF _ fl]
        stored retry_after_roundtrip [OF rt ra] u64_i64_roundtrip [OF rv])
      (cases "sn_result sn"; simp add: untyped_def restore_def)
qed

section \<open>Decoding is fail-closed\<close>

lemma nonzero_u32_nonzero: "nonzero_u32_of_i64 i = Some a \<Longrightarrow> a \<noteq> 0"
proof
  assume *: "nonzero_u32_of_i64 i = Some a" and "a = 0"
  then have i: "0 < i" "i < 2 ^ 32" and "(word_of_nat (nat i) :: u32) = 0"
    by (auto simp: nonzero_u32_of_i64_def split: if_splits)
  then have "unat (word_of_nat (nat i) :: u32) = 0" by simp
  moreover have "unat (word_of_nat (nat i) :: u32) = nat i"
    using i unat_of_nat [where 'a = 32, of "nat i"] by (simp only:) (simp add: nat_less_iff)
  ultimately show False using i by simp
qed

lemma restore_shape_wf:
  assumes "restore_shape st a f u = Ok s"
    and "\<And>x. a = Some x \<Longrightarrow> x \<noteq> 0" and "\<And>x. f = Some x \<Longrightarrow> wf_failure x"
  shows "wf_job_state s"
  using assms
  by (cases a; cases f; cases u) (auto simp: restore_shape_def simp del: lit_Cons split: if_splits)

lemma restore_state_wf: "restore_state st a c u = Ok s \<Longrightarrow> wf_job_state s"
  by (auto simp: restore_state_def intro: restore_shape_wf nonzero_u32_nonzero failure_new_wf
      elim!: restore_shape_wf dest: nonzero_u32_nonzero failure_new_wf)

text \<open>What holds of every snapshot read from the database.\<close>

definition stored_snapshot :: "BatchJobSnapshot \<Rightarrow> bool" where
  "stored_snapshot sn \<longleftrightarrow>
     wf_job (sn_job sn) \<and> validate_handle (sn_audio sn) (sn_id sn) = Ok () \<and>
     record_validate_keyterms (sn_keyterms sn) = Ok () \<and>
     (sn_result sn \<noteq> None \<longleftrightarrow> is_completed (job_state (sn_job sn))) \<and>
     (sn_retry_after_millis sn \<noteq> None \<longrightarrow> is_retryable (job_state (sn_job sn))) \<and>
     (\<forall>v. sn_retry_after_millis sn = Some v \<longrightarrow> v \<le> MAX_RETRY_AFTER_MILLIS)"

lemma snapshot_of_record_stored:
  assumes "snapshot_of_record cd rec = Ok sn"
  shows "stored_snapshot sn" and "sn_id sn = cd_uuid_text cd (jr_job_id rec)"
    and "u64_of_i64 (jr_revision rec) = Some (sn_revision sn)"
  using assms
  unfolding snapshot_of_record_def Let_def and_then_Ok_iff map_err_Ok_iff
  by (auto simp: stored_snapshot_def wf_job_def restore_def wf_fingerprint_def
      validate_result_presence_def restore_retry_after_def validate_retry_after_def
      intro: profile_new_wf restore_state_wf simp del: lit_Cons split: if_splits)

section \<open>Properties\<close>

text \<open>C17: Persistence round trip: a snapshot that can be written is read back unchanged except that
  provider references lose their native kind, for every state, result and bound.\<close>

theorem record_roundtrip:
  assumes "codec_laws cd" and "wf_job (sn_job snapshot)"
    and "record_of_snapshot cd snapshot = Ok rec"
  shows "snapshot_of_record cd rec = Ok (untyped snapshot)"
  by (rule record_roundtrip_untyped [OF assms])

text \<open>A concrete codec: JSON texts and values are the encoded data themselves.\<close>

definition sample_codec :: "(str list + ResultRecord, ResultRecord) codec" where
  "sample_codec =
     \<lparr>cd_uuid_parse = (\<lambda>s. case s of [n] \<Rightarrow> if n < 2 ^ 128 then Some (word_of_nat n) else None
                                  | _ \<Rightarrow> None),
      cd_uuid_text = (\<lambda>u. [unat u]),
      cd_keyterms_value = Inl, cd_keyterms_of = (\<lambda>v. case v of Inl k \<Rightarrow> Some k | Inr _ \<Rightarrow> None),
      cd_result_text = (\<lambda>r. r), cd_result_of = Some, cd_text_value = (\<lambda>t. Some (Inr t)),
      cd_value_text = (\<lambda>v. case v of Inr r \<Rightarrow> r
         | Inl _ \<Rightarrow> \<lparr>res_text = [], res_duration_millis = 0, res_provider_duration_millis = None,
                   res_segments = [], res_readable_segments = None\<rparr>),
      cd_text_len = (\<lambda>_. 0)\<rparr>"

lemma sample_codec_laws: "codec_laws sample_codec"
  using unsigned_less [where 'a = nat and 'b = 128]
  by (simp add: codec_laws_def sample_codec_def)

definition stored_sample :: BatchJobSnapshot where
  "stored_sample =
     sample_snapshot
       \<lparr>sn_audio := [7, 45] @ replicate 64 48 @ [46, 111, 103, 103],
        sn_provider_reference := Some (reference_operation RequestId [114])\<rparr>"

lemma stored_sample_handle: "validate_handle (sn_audio stored_sample) (sn_id stored_sample) = Ok ()"
  by (simp add: validate_handle_def stored_sample_def sample_snapshot_def strip_prefix_def
      strip_suffix_def str_len_def str_bytes_def utf8_char_def byte_def length_concat list_all_iff
      lowercase_hex_def ascii_digit_def map_replicate_const sum_list_replicate)

lemma stored_sample_encodes: "is_ok (record_of_snapshot sample_codec stored_sample)"
  unfolding record_of_snapshot_def Let_def stored_sample_handle
  by (simp add: stored_sample_def sample_snapshot_def sample_codec_def canonical_uuid_def
      validate_profile_def MAX_PROFILE_FIELD_BYTES_def utf8_char_def record_validate_keyterms_def
      MAX_KEYTERMS_def MAX_KEYTERMS_BYTES_def validate_reference_def reference_operation_def
      MAX_PROVIDER_REFERENCE_BYTES_def str_bytes_def byte_def printable_ascii_def
      validate_retry_after_def validate_result_presence_def is_completed_def i16_of_u16_def
      i64_of_u64_def)

lemma stored_sample_wf: "wf_job (sn_job stored_sample)"
  by (simp add: stored_sample_def sample_snapshot_def wf_job_def wf_profile_def profile_new_def
      validate_profile_field_def trim_def trim_start_def trim_end_def is_whitespace_def
      has_control_def is_control_def wf_fingerprint_def)

theorem record_roundtrip_witness:
  "\<exists>rec. record_of_snapshot sample_codec stored_sample = Ok rec \<and>
     snapshot_of_record sample_codec rec = Ok (untyped stored_sample)"
proof -
  obtain rec where "record_of_snapshot sample_codec stored_sample = Ok rec"
    using stored_sample_encodes by (auto simp: is_ok_iff)
  with record_roundtrip [OF sample_codec_laws stored_sample_wf this] show ?thesis by blast
qed

text \<open>C18: Decoding is fail-closed: whatever a row contains, a snapshot that is read from it has a
  profile, failure codes, fingerprint and attempt their constructors accept, an audio handle that
  belongs to the job, bounded key terms, a result exactly when it is completed, and a retry delay
  only when it is retryable.\<close>

theorem decoded_rows_well_formed:
  assumes "snapshot_of_record cd rec = Ok snapshot"
  shows "wf_job (sn_job snapshot) \<and>
         validate_handle (sn_audio snapshot) (sn_id snapshot) = Ok () \<and>
         record_validate_keyterms (sn_keyterms snapshot) = Ok () \<and>
         (sn_result snapshot \<noteq> None \<longleftrightarrow> is_completed (job_state (sn_job snapshot))) \<and>
         (sn_retry_after_millis snapshot \<noteq> None \<longrightarrow> is_retryable (job_state (sn_job snapshot)))"
  using snapshot_of_record_stored(1) [OF assms] by (simp add: stored_snapshot_def)

theorem decoded_rows_well_formed_witness: "wf_job (sn_job (untyped stored_sample))"
proof -
  obtain rec where "record_of_snapshot sample_codec stored_sample = Ok rec"
    using stored_sample_encodes by (auto simp: is_ok_iff)
  from record_roundtrip_untyped [OF sample_codec_laws stored_sample_wf this]
  show ?thesis using decoded_rows_well_formed by blast
qed

end
