(* ===== verification/Batch_Coordinator.thy ===== *)
theory Batch_Coordinator
  imports Batch_Models
begin

text \<open>
  Orchestration of durable batch recognition:
  \<^verbatim>\<open>crates/voicetext-speech/src/application/batch.rs\<close> and \<^verbatim>\<open>batch_recovery.rs\<close>. The
  \<open>dyn BatchJobStore\<close> and \<open>dyn BatchAudioSpool\<close> objects are records of operations over a store
  state and a spool state. Every call to them takes a fault, so that a lost request and a lost reply
  (the effect happened, the caller saw an error) are both behaviours of the model. Each \<open>async\<close>
  method is split at its \<open>await\<close>s into phases; the method is their composition, and the step
  relation of the theory \<open>Batch_System\<close> interleaves the same phases.
\<close>

section \<open>The ports as records of operations\<close>

datatype fault =
    Healthy
  | LostRequest BatchJobStoreFailure
  | LostReply BatchJobStoreFailure

type_synonym io_fault = "BatchAudioSpoolFailure option"

record 'l job_store =
  js_load :: "fault \<Rightarrow> 'l \<Rightarrow> BatchJobId \<Rightarrow>
    (BatchJobSnapshot option, BatchJobStoreFailure) result"
  js_insert :: "fault \<Rightarrow> 'l \<Rightarrow> BatchJobId \<Rightarrow> BatchJob \<Rightarrow> BatchAudioHandle \<Rightarrow> u64 \<Rightarrow> str list \<Rightarrow>
    'l \<times> (BatchJobInsertOutcome, BatchJobStoreFailure) result"
  js_compare_and_swap :: "fault \<Rightarrow> 'l \<Rightarrow> u64 \<Rightarrow> BatchJobSnapshot \<Rightarrow>
    'l \<times> (BatchJobUpdateOutcome, BatchJobStoreFailure) result"
  js_recovery_head :: "fault \<Rightarrow> 'l \<Rightarrow> (BatchJobId option, BatchJobStoreFailure) result"
  js_list_recovery_candidates :: "fault \<Rightarrow> 'l \<Rightarrow> BatchJobId option \<Rightarrow> usize \<Rightarrow>
    (BatchJobSnapshot list, BatchJobStoreFailure) result"
  js_list_recovery_candidates_through :: "fault \<Rightarrow> 'l \<Rightarrow> BatchJobId option \<Rightarrow> BatchJobId \<Rightarrow> usize \<Rightarrow>
    (BatchJobSnapshot list, BatchJobStoreFailure) result"

record 's audio_spool =
  as_store :: "io_fault \<Rightarrow> 's \<Rightarrow> BatchJobId \<Rightarrow> u8 list \<Rightarrow>
    's \<times> (BatchAudioStoreOutcome, BatchAudioSpoolFailure) result"
  as_read :: "io_fault \<Rightarrow> 's \<Rightarrow> BatchAudioHandle \<Rightarrow> (u8 list, BatchAudioSpoolFailure) result"
  as_remove :: "io_fault \<Rightarrow> 's \<Rightarrow> BatchAudioHandle \<Rightarrow>
    's \<times> (BatchAudioRemoveOutcome, BatchAudioSpoolFailure) result"

definition RECOVERY_BATCH_LIMIT :: usize where
  "RECOVERY_BATCH_LIMIT = 100"

record BatchExecutionReport =
  ber_outcome :: BatchExecutionOutcome
  ber_post_persistence_cleanup ::
    "(BatchAudioRemoveOutcome, BatchAudioSpoolFailure) result option"

text \<open>A phase either returns from the method or hands a value to the next phase.\<close>

datatype ('a, 'r) flow = Continue 'a | Return 'r

type_synonym admit_result = "(BatchAdmissionOutcome, BatchCoordinatorFailure) result"
type_synonym execute_result = "(BatchExecutionReport, BatchCoordinatorFailure) result"

section \<open>Admission\<close>

definition classify_existing :: "BatchJobSnapshot \<Rightarrow> BatchAdmissionRequest \<Rightarrow> admit_result" where
  "classify_existing existing request =
     (if job_profile (sn_job existing) = bar_profile request
         \<and> job_fingerprint (sn_job existing) = bar_fingerprint request
      then Ok (AdmReplay existing) else Err (AdmissionConflict existing))"

text \<open>The first load: an existing identity is classified, otherwise admission goes on.\<close>

definition admit_load ::
  "'l job_store \<Rightarrow> fault \<Rightarrow> 'l \<Rightarrow> BatchAdmissionRequest \<Rightarrow> (unit, admit_result) flow" where
  "admit_load jobs f l request =
     (case js_load jobs f l (bar_id request) of
        Err e \<Rightarrow> Return (Err (StoreFailure e))
      | Ok (Some existing) \<Rightarrow> Return (classify_existing existing request)
      | Ok None \<Rightarrow> Continue ())"

definition admit_spool ::
  "'s audio_spool \<Rightarrow> io_fault \<Rightarrow> 's \<Rightarrow> BatchAdmissionRequest \<Rightarrow>
   's \<times> (BatchAudioHandle \<times> bool, admit_result) flow" where
  "admit_spool spool io s request =
     (case as_store spool io s (bar_id request) (bar_audio request) of
        (s', Err e) \<Rightarrow> (s', Return (Err (SpoolFailure e)))
      | (s', Ok (AudioStored handle)) \<Rightarrow> (s', Continue (handle, True))
      | (s', Ok (AudioExisting handle)) \<Rightarrow> (s', Continue (handle, False)))"

text \<open>
  After the insert: done, or a race to resolve against an existing row, or an error to verify.
\<close>

datatype insert_next = Race BatchJobSnapshot | Verify BatchJobStoreFailure

definition admit_insert ::
  "'l job_store \<Rightarrow> fault \<Rightarrow> 'l \<Rightarrow> BatchAdmissionRequest \<Rightarrow> BatchAudioHandle \<Rightarrow>
   'l \<times> (insert_next, admit_result) flow" where
  "admit_insert jobs f l request audio =
     (case js_insert jobs f l (bar_id request)
             (accept (bar_profile request) (bar_fingerprint request)) audio
             (bar_authoritative_duration_millis request) (bar_keyterms request) of
        (l', Ok (Inserted snapshot)) \<Rightarrow> (l', Return (Ok (AdmAccepted snapshot)))
      | (l', Ok (Existing existing)) \<Rightarrow> (l', Continue (Race existing))
      | (l', Err e) \<Rightarrow> (l', Continue (Verify e)))"

text \<open>
  What remains after the insert: either the method returns, or the candidate artifact has to be
  removed first, and the value is what the method returns after a successful removal together with
  the store error a failed removal reports.
\<close>

type_synonym pending_removal = "admit_result \<times> BatchJobStoreFailure option"

definition resolve_race ::
  "BatchJobSnapshot \<Rightarrow> BatchAdmissionRequest \<Rightarrow> bool \<Rightarrow> BatchAudioHandle \<Rightarrow>
   (pending_removal, admit_result) flow" where
  "resolve_race existing request owns_audio candidate =
     (if owns_audio \<and> candidate \<noteq> sn_audio existing
      then Continue (classify_existing existing request, None)
      else Return (classify_existing existing request))"

definition admit_verify ::
  "'l job_store \<Rightarrow> fault \<Rightarrow> 'l \<Rightarrow> BatchAdmissionRequest \<Rightarrow> bool \<Rightarrow> BatchAudioHandle \<Rightarrow>
   BatchJobStoreFailure \<Rightarrow> (pending_removal, admit_result) flow" where
  "admit_verify jobs f l request owns_audio audio insert_error =
     (case js_load jobs f l (bar_id request) of
        Ok (Some existing) \<Rightarrow> resolve_race existing request owns_audio audio
      | Ok None \<Rightarrow>
          if owns_audio then Continue (Err (StoreFailure insert_error), Some insert_error)
          else Return (Err (StoreFailure insert_error))
      | Err verification \<Rightarrow> Return (Err (AdmissionStoreUncertain insert_error verification)))"

definition admit_remove ::
  "'s audio_spool \<Rightarrow> io_fault \<Rightarrow> 's \<Rightarrow> BatchAudioHandle \<Rightarrow> pending_removal \<Rightarrow>
   's \<times> admit_result" where
  "admit_remove spool io s candidate pending =
     (case as_remove spool io s candidate of
        (s', Err e) \<Rightarrow> (s', Err (AdmissionCleanup (snd pending) e))
      | (s', Ok _) \<Rightarrow> (s', fst pending))"

text \<open>The faults met by the calls of one admission, in order.\<close>

record admit_env =
  ae_load :: fault
  ae_store :: io_fault
  ae_insert :: fault
  ae_verify :: fault
  ae_remove :: io_fault

definition admit ::
  "'l job_store \<Rightarrow> 's audio_spool \<Rightarrow> admit_env \<Rightarrow> 'l \<Rightarrow> 's \<Rightarrow> BatchAdmissionRequest \<Rightarrow>
   'l \<times> 's \<times> admit_result" where
  "admit jobs spool env l s request =
     (case admit_load jobs (ae_load env) l request of
        Return r \<Rightarrow> (l, s, r)
      | Continue _ \<Rightarrow>
     (case admit_spool spool (ae_store env) s request of
        (s1, Return r) \<Rightarrow> (l, s1, r)
      | (s1, Continue (audio, owns_audio)) \<Rightarrow>
     (case admit_insert jobs (ae_insert env) l request audio of
        (l1, Return r) \<Rightarrow> (l1, s1, r)
      | (l1, Continue next) \<Rightarrow>
     (case (case next of
              Race existing \<Rightarrow> resolve_race existing request owns_audio audio
            | Verify e \<Rightarrow> admit_verify jobs (ae_verify env) l1 request owns_audio audio e) of
        Return r \<Rightarrow> (l1, s1, r)
      | Continue pending \<Rightarrow>
          (case admit_remove spool (ae_remove env) s1 audio pending of (s2, r) \<Rightarrow> (l1, s2, r))))))"

section \<open>Execution\<close>

definition exec_report ::
  "BatchExecutionOutcome \<Rightarrow> (BatchAudioRemoveOutcome, BatchAudioSpoolFailure) result option \<Rightarrow>
   BatchExecutionReport" where
  "exec_report outcome cleanup =
     \<lparr>ber_outcome = outcome, ber_post_persistence_cleanup = cleanup\<rparr>"

definition is_actionable :: "BatchJobState \<Rightarrow> bool" where
  "is_actionable state = (case state of Accepted \<Rightarrow> True | Retryable _ _ \<Rightarrow> True | _ \<Rightarrow> False)"

definition execute_load ::
  "'l job_store \<Rightarrow> fault \<Rightarrow> 'l \<Rightarrow> BatchJobId \<Rightarrow> (BatchJobSnapshot, execute_result) flow" where
  "execute_load jobs f l job_id =
     (case js_load jobs f l job_id of
        Err e \<Rightarrow> Return (Err (StoreFailure e))
      | Ok None \<Rightarrow> Return (Ok (exec_report (NotClaimed None) None))
      | Ok (Some snapshot) \<Rightarrow>
          if \<not> is_actionable (job_state (sn_job snapshot))
          then Return (Ok (exec_report (NotActionable snapshot) None))
          else Continue snapshot)"

definition execute_read ::
  "'s audio_spool \<Rightarrow> io_fault \<Rightarrow> 's \<Rightarrow> BatchJobSnapshot \<Rightarrow> (u8 list, execute_result) flow" where
  "execute_read spool io s snapshot =
     (case as_read spool io s (sn_audio snapshot) of
        Err e \<Rightarrow> Return (Err (SpoolFailure e))
      | Ok audio \<Rightarrow> Continue audio)"

definition execute_claim ::
  "'l job_store \<Rightarrow> fault \<Rightarrow> 'l \<Rightarrow> BatchJobSnapshot \<Rightarrow>
   'l \<times> (BatchJobSnapshot, execute_result) flow" where
  "execute_claim jobs f l snapshot =
     (case begin_submission (sn_job snapshot) of
        (_, Err e) \<Rightarrow> (l, Return (Err (Transition e)))
      | (job, Ok _) \<Rightarrow>
          let claimed = snapshot\<lparr>sn_job := job, sn_provider_reference := None,
                                 sn_retry_after_millis := None, sn_result := None\<rparr> in
          (case js_compare_and_swap jobs f l (sn_revision snapshot) claimed of
             (l', Err e) \<Rightarrow> (l', Return (Err (StoreFailure e)))
           | (l', Ok (Stored stored)) \<Rightarrow> (l', Continue stored)
           | (l', Ok (RevisionConflict current)) \<Rightarrow>
               (l', Return (Ok (exec_report (NotClaimed (Some current)) None)))
           | (l', Ok MissingRow) \<Rightarrow> (l', Return (Ok (exec_report (NotClaimed None) None)))))"

definition recognition_request :: "BatchJobSnapshot \<Rightarrow> u8 list \<Rightarrow> BatchRecognitionRequest" where
  "recognition_request claimed audio =
     \<lparr>brq_profile = job_profile (sn_job claimed), brq_audio = audio,
      brq_authoritative_duration_millis = sn_authoritative_duration_millis claimed,
      brq_keyterms = sn_keyterms claimed\<rparr>"

text \<open>After the provider answered: the outcome is computed and stored.\<close>

definition execute_persist ::
  "'l job_store \<Rightarrow> fault \<Rightarrow> projection \<Rightarrow> 'l \<Rightarrow> BatchJobSnapshot \<Rightarrow>
   (BatchRecognitionResult, RecognitionFailure) result \<Rightarrow>
   'l \<times> (BatchJobSnapshot, execute_result) flow" where
  "execute_persist jobs f validate l claimed recognition =
     (case apply_recognition_outcome claimed recognition validate of
        Err e \<Rightarrow> (l, Return (Err (Transition e)))
      | Ok replacement \<Rightarrow>
          (case js_compare_and_swap jobs f l (sn_revision claimed) replacement of
             (l', Ok (Stored stored)) \<Rightarrow> (l', Continue stored)
           | (l', Ok (RevisionConflict _)) \<Rightarrow> (l', Return (Err PostEgressConflict))
           | (l', Ok MissingRow) \<Rightarrow> (l', Return (Err PostEgressConflict))
           | (l', Err e) \<Rightarrow> (l', Return (Err (PostEgressStore e)))))"

definition execute_cleanup ::
  "'s audio_spool \<Rightarrow> io_fault \<Rightarrow> 's \<Rightarrow> BatchJobSnapshot \<Rightarrow> 's \<times> execute_result" where
  "execute_cleanup spool io s snapshot =
     (if is_terminal (job_state (sn_job snapshot))
      then (case as_remove spool io s (sn_audio snapshot) of
              (s', r) \<Rightarrow> (s', Ok (exec_report (Persisted snapshot) (Some r))))
      else (s, Ok (exec_report (Persisted snapshot) None)))"

record execute_env =
  ee_load :: fault
  ee_read :: io_fault
  ee_claim :: fault
  ee_persist :: fault
  ee_cleanup :: io_fault

text \<open>
  The whole method. The recognizer is a function from the request to its answer; the last
  component lists the requests that were sent, at most one.
\<close>

definition execute_with_cleanup_report ::
  "'l job_store \<Rightarrow> 's audio_spool \<Rightarrow>
   (BatchRecognitionRequest \<Rightarrow> (BatchRecognitionResult, RecognitionFailure) result) \<Rightarrow>
   projection \<Rightarrow> execute_env \<Rightarrow> 'l \<Rightarrow> 's \<Rightarrow> BatchJobId \<Rightarrow>
   'l \<times> 's \<times> execute_result \<times> BatchRecognitionRequest list" where
  "execute_with_cleanup_report jobs spool recognize validate env l s job_id =
     (case execute_load jobs (ee_load env) l job_id of
        Return r \<Rightarrow> (l, s, r, [])
      | Continue snapshot \<Rightarrow>
     (case execute_read spool (ee_read env) s snapshot of
        Return r \<Rightarrow> (l, s, r, [])
      | Continue audio \<Rightarrow>
     (case execute_claim jobs (ee_claim env) l snapshot of
        (l1, Return r) \<Rightarrow> (l1, s, r, [])
      | (l1, Continue claimed) \<Rightarrow>
          let request = recognition_request claimed audio in
     (case execute_persist jobs (ee_persist env) validate l1 claimed (recognize request) of
        (l2, Return r) \<Rightarrow> (l2, s, r, [request])
      | (l2, Continue stored) \<Rightarrow>
          (case execute_cleanup spool (ee_cleanup env) s stored of
             (s1, r) \<Rightarrow> (l2, s1, r, [request]))))))"

definition execute ::
  "'l job_store \<Rightarrow> 's audio_spool \<Rightarrow>
   (BatchRecognitionRequest \<Rightarrow> (BatchRecognitionResult, RecognitionFailure) result) \<Rightarrow>
   projection \<Rightarrow> execute_env \<Rightarrow> 'l \<Rightarrow> 's \<Rightarrow> BatchJobId \<Rightarrow>
   'l \<times> 's \<times> (BatchExecutionOutcome, BatchCoordinatorFailure) result" where
  "execute jobs spool recognize validate env l s job_id =
     (case execute_with_cleanup_report jobs spool recognize validate env l s job_id of
        (l', s', r, _) \<Rightarrow> (l', s', map_ok ber_outcome r))"

section \<open>Startup recovery\<close>

definition empty_recovery :: BatchStartupRecovery where
  "empty_recovery =
     \<lparr>rec_actionable = [], rec_recovered_unknown = [], rec_conflicts = [], rec_missing = [],
      rec_invalid_candidates = [], rec_next_cursor = None\<rparr>"

text \<open>One candidate: the compare-and-swap of an interrupted submission, then the removal.\<close>

definition reconcile_swap ::
  "'l job_store \<Rightarrow> fault \<Rightarrow> 'l \<Rightarrow> BatchJobSnapshot \<Rightarrow>
   'l \<times> (BatchJobUpdateOutcome, BatchJobStoreFailure) result" where
  "reconcile_swap jobs f l snapshot =
     js_compare_and_swap jobs f l (sn_revision snapshot)
       (snapshot\<lparr>sn_job := fst (recover_interrupted_submission (sn_job snapshot))\<rparr>)"

definition reconcile_one ::
  "'l job_store \<Rightarrow> 's audio_spool \<Rightarrow> fault \<Rightarrow> io_fault \<Rightarrow> 'l \<Rightarrow> 's \<Rightarrow> BatchStartupRecovery \<Rightarrow>
   BatchJobSnapshot \<Rightarrow> 'l \<times> 's \<times> (BatchStartupRecovery, BatchCoordinatorFailure) result" where
  "reconcile_one jobs spool f io l s recovery snapshot =
     (case job_state (sn_job snapshot) of
        Accepted \<Rightarrow> (l, s, Ok (recovery\<lparr>rec_actionable := rec_actionable recovery @ [snapshot]\<rparr>))
      | Retryable _ _ \<Rightarrow>
          (l, s, Ok (recovery\<lparr>rec_actionable := rec_actionable recovery @ [snapshot]\<rparr>))
      | Submitting _ \<Rightarrow>
          (case reconcile_swap jobs f l snapshot of
             (l', Err e) \<Rightarrow> (l', s, Err (StoreFailure e))
           | (l', Ok (Stored stored)) \<Rightarrow>
               (case as_remove spool io s (sn_audio stored) of
                  (s', Err e) \<Rightarrow> (l', s', Err (SpoolFailure e))
                | (s', Ok _) \<Rightarrow>
                    (l', s', Ok (recovery\<lparr>rec_recovered_unknown :=
                                   rec_recovered_unknown recovery @ [stored]\<rparr>)))
           | (l', Ok (RevisionConflict current)) \<Rightarrow>
               (l', s, Ok (recovery\<lparr>rec_conflicts := rec_conflicts recovery @ [current]\<rparr>))
           | (l', Ok MissingRow) \<Rightarrow>
               (l', s, Ok (recovery\<lparr>rec_missing := rec_missing recovery @ [sn_id snapshot]\<rparr>)))
      | _ \<Rightarrow> (l, s, Ok (recovery\<lparr>rec_invalid_candidates :=
                          rec_invalid_candidates recovery @ [snapshot]\<rparr>)))"

text \<open>The loop; \<open>env\<close> gives the faults of the call for the candidate at that distance from the end.\<close>

fun reconcile_loop ::
  "'l job_store \<Rightarrow> 's audio_spool \<Rightarrow> (nat \<Rightarrow> fault \<times> io_fault) \<Rightarrow> 'l \<Rightarrow> 's \<Rightarrow>
   BatchStartupRecovery \<Rightarrow> BatchJobSnapshot list \<Rightarrow>
   'l \<times> 's \<times> (BatchStartupRecovery, BatchCoordinatorFailure) result" where
  "reconcile_loop jobs spool env l s recovery [] = (l, s, Ok recovery)"
| "reconcile_loop jobs spool env l s recovery (snapshot # rest) =
     (case reconcile_one jobs spool (fst (env (length rest))) (snd (env (length rest))) l s
             recovery snapshot of
        (l', s', Err e) \<Rightarrow> (l', s', Err e)
      | (l', s', Ok recovery') \<Rightarrow> reconcile_loop jobs spool env l' s' recovery' rest)"

definition bounded_candidates ::
  "BatchJobSnapshot list \<Rightarrow> BatchJobSnapshot list \<times> BatchStartupRecovery" where
  "bounded_candidates candidates =
     (if length candidates \<ge> RECOVERY_BATCH_LIMIT
      then let page = take RECOVERY_BATCH_LIMIT candidates in
           (page, empty_recovery\<lparr>rec_next_cursor := map_option sn_id
                    (if page = [] then None else Some (last page))\<rparr>)
      else (candidates, empty_recovery))"

definition reconcile_candidates ::
  "'l job_store \<Rightarrow> 's audio_spool \<Rightarrow> (nat \<Rightarrow> fault \<times> io_fault) \<Rightarrow> 'l \<Rightarrow> 's \<Rightarrow>
   BatchJobSnapshot list \<Rightarrow> 'l \<times> 's \<times> (BatchStartupRecovery, BatchCoordinatorFailure) result" where
  "reconcile_candidates jobs spool env l s candidates =
     (case bounded_candidates candidates of
        (page, recovery) \<Rightarrow> reconcile_loop jobs spool env l s recovery page)"

definition recover_startup ::
  "'l job_store \<Rightarrow> 's audio_spool \<Rightarrow> fault \<Rightarrow> (nat \<Rightarrow> fault \<times> io_fault) \<Rightarrow> 'l \<Rightarrow> 's \<Rightarrow>
   BatchJobId option \<Rightarrow> 'l \<times> 's \<times> (BatchStartupRecovery, BatchCoordinatorFailure) result" where
  "recover_startup jobs spool f env l s after =
     (case js_list_recovery_candidates jobs f l after RECOVERY_BATCH_LIMIT of
        Err e \<Rightarrow> (l, s, Err (StoreFailure e))
      | Ok candidates \<Rightarrow> reconcile_candidates jobs spool env l s candidates)"

definition recover_startup_through ::
  "'l job_store \<Rightarrow> 's audio_spool \<Rightarrow> fault \<Rightarrow> (nat \<Rightarrow> fault \<times> io_fault) \<Rightarrow> 'l \<Rightarrow> 's \<Rightarrow>
   BatchJobId option \<Rightarrow> BatchJobId \<Rightarrow>
   'l \<times> 's \<times> (BatchStartupRecovery, BatchCoordinatorFailure) result" where
  "recover_startup_through jobs spool f env l s after through =
     (case js_list_recovery_candidates_through jobs f l after through RECOVERY_BATCH_LIMIT of
        Err e \<Rightarrow> (l, s, Err (StoreFailure e))
      | Ok candidates \<Rightarrow> reconcile_candidates jobs spool env l s candidates)"

end
