(* ===== verification/Batch_System.thy ===== *)
theory Batch_System
  imports Batch_Coordinator
begin

text \<open>
  The batch part of the gateway as a concurrent system. Any number of workers (HTTP admissions,
  executions, startup recoveries, possibly of several processes) run the phases of the theory
  \<open>Batch_Coordinator\<close> interleaved over one ledger and one spool; a worker can vanish at any point
  (a dropped future, a crash). \<open>job_ledger\<close> is the contract of the \<open>BatchJobStore\<close> trait; the
  safety of paid submissions is proved from it alone and holds for every store that implements it.
\<close>

section \<open>The contract of a job store\<close>

type_synonym rows = "BatchJobId \<Rightarrow> BatchJobSnapshot option"

definition initial_snapshot ::
  "BatchJobId \<Rightarrow> BatchJob \<Rightarrow> BatchAudioHandle \<Rightarrow> u64 \<Rightarrow> str list \<Rightarrow> BatchJobSnapshot" where
  "initial_snapshot i job audio duration keyterms =
     \<lparr>sn_id = i, sn_job = job, sn_audio = audio, sn_authoritative_duration_millis = duration,
      sn_keyterms = keyterms, sn_provider_reference = None, sn_retry_after_millis = None,
      sn_result = None, sn_revision = 0\<rparr>"

text \<open>A compare-and-swap that took effect, and the row it left.\<close>

definition swapped :: "rows \<Rightarrow> rows \<Rightarrow> u64 \<Rightarrow> BatchJobSnapshot \<Rightarrow> BatchJobSnapshot \<Rightarrow> bool" where
  "swapped R R' revision replacement stored \<longleftrightarrow>
     (\<exists>old. R (sn_id replacement) = Some old \<and> sn_revision old = revision \<and>
            same_immutable old replacement) \<and>
     R' = R(sn_id replacement \<mapsto> stored) \<and>
     stored = (untyped replacement)\<lparr>sn_revision := sn_revision stored\<rparr> \<and>
     unat (sn_revision stored) = unat revision + 1"

locale job_ledger =
  fixes jobs :: "'l job_store"
    and invar :: "'l \<Rightarrow> bool"
    and rows :: "'l \<Rightarrow> rows"
  assumes load_law: "invar l \<Longrightarrow> js_load jobs f l i = Ok found \<Longrightarrow> found = rows l i"
    and rows_law: "invar l \<Longrightarrow> rows l i = Some sn \<Longrightarrow> sn_id sn = i \<and> wf_job (sn_job sn)"
    and insert_invar:
      "invar l \<Longrightarrow> wf_job job \<Longrightarrow> js_insert jobs f l i job a d k = (l', inserted) \<Longrightarrow> invar l'"
    and insert_rows:
      "invar l \<Longrightarrow> wf_job job \<Longrightarrow> js_insert jobs f l i job a d k = (l', inserted) \<Longrightarrow>
         rows l' = rows l \<or>
         rows l i = None \<and> rows l' = (rows l)(i \<mapsto> initial_snapshot i job a d k)"
    and insert_result:
      "invar l \<Longrightarrow> wf_job job \<Longrightarrow> js_insert jobs f l i job a d k = (l', inserted) \<Longrightarrow>
         (\<forall>sn. inserted = Ok (Inserted sn) \<longrightarrow> rows l i = None \<and> rows l' i = Some sn) \<and>
         (\<forall>sn. inserted = Ok (Existing sn) \<longrightarrow> rows l' = rows l \<and> rows l i = Some sn)"
    and cas_invar:
      "invar l \<Longrightarrow> wf_job (sn_job replacement) \<Longrightarrow>
         js_compare_and_swap jobs f l revision replacement = (l', updated) \<Longrightarrow> invar l'"
    and cas_rows:
      "invar l \<Longrightarrow> wf_job (sn_job replacement) \<Longrightarrow>
         js_compare_and_swap jobs f l revision replacement = (l', updated) \<Longrightarrow>
         rows l' = rows l \<or> (\<exists>st. swapped (rows l) (rows l') revision replacement st)"
    and cas_stored:
      "invar l \<Longrightarrow> wf_job (sn_job replacement) \<Longrightarrow>
         js_compare_and_swap jobs f l revision replacement = (l', Ok (Stored st)) \<Longrightarrow>
         swapped (rows l) (rows l') revision replacement st"
    and cas_refused:
      "invar l \<Longrightarrow> wf_job (sn_job replacement) \<Longrightarrow>
         js_compare_and_swap jobs f l revision replacement = (l', Ok out) \<Longrightarrow>
         (\<forall>st. out \<noteq> Stored st) \<Longrightarrow> rows l' = rows l \<and>
         (case out of RevisionConflict cur \<Rightarrow> rows l (sn_id replacement) = Some cur
                                              \<and> sn_revision cur \<noteq> revision
          | MissingRow \<Rightarrow> rows l (sn_id replacement) = None | Stored _ \<Rightarrow> False)"
    and list_law:
      "invar l \<Longrightarrow> js_list_recovery_candidates jobs f l after n = Ok sns \<Longrightarrow> sn \<in> set sns \<Longrightarrow>
         rows l (sn_id sn) = Some sn"
    and list_through_law:
      "invar l \<Longrightarrow> js_list_recovery_candidates_through jobs f l after through n = Ok sns \<Longrightarrow>
         sn \<in> set sns \<Longrightarrow> rows l (sn_id sn) = Some sn"

section \<open>Workers\<close>

datatype phase =
    PAdmit BatchAdmissionRequest
  | PAbsent BatchAdmissionRequest
  | PSpooled BatchAdmissionRequest BatchAudioHandle bool
  | PVerify BatchAdmissionRequest BatchAudioHandle bool BatchJobStoreFailure
  | PRollback BatchAudioHandle pending_removal
  | PExecute BatchJobId
  | PLoaded BatchJobSnapshot
  | PReady BatchJobSnapshot "u8 list"
  | PClaimed BatchJobSnapshot "u8 list"
  | PAnswered BatchJobSnapshot "(BatchRecognitionResult, RecognitionFailure) result"
  | PCleanup BatchJobSnapshot
  | PScan "BatchJobId option" "BatchJobId option"
  | PReconcile "BatchJobSnapshot list"
  | PRemoveRecovered BatchJobSnapshot "BatchJobSnapshot list"

text \<open>What the environment decides at a step: the faults and, at egress, the provider's answer.\<close>

record step_env =
  en_fault :: fault
  en_io :: io_fault
  en_answer :: "(BatchRecognitionResult, RecognitionFailure) result"

type_synonym egress = "BatchJobId \<times> u32 \<times> (BatchRecognitionResult, RecognitionFailure) result"

definition claimed_attempt :: "BatchJobSnapshot \<Rightarrow> u32" where
  "claimed_attempt sn = (case job_state (sn_job sn) of Submitting a \<Rightarrow> a | _ \<Rightarrow> 0)"

definition after_insert ::
  "BatchAdmissionRequest \<Rightarrow> BatchAudioHandle \<Rightarrow> bool \<Rightarrow> (insert_next, admit_result) flow \<Rightarrow>
   phase option" where
  "after_insert request h owns r =
     (case r of
        Return _ \<Rightarrow> None
      | Continue (Verify e) \<Rightarrow> Some (PVerify request h owns e)
      | Continue (Race existing) \<Rightarrow>
          (case resolve_race existing request owns h of
             Return _ \<Rightarrow> None | Continue pending \<Rightarrow> Some (PRollback h pending)))"

definition reconcile_next ::
  "BatchJobSnapshot list \<Rightarrow> (BatchJobUpdateOutcome, BatchJobStoreFailure) result \<Rightarrow> phase option" where
  "reconcile_next rest r =
     (case r of
        Err _ \<Rightarrow> None
      | Ok (Stored stored) \<Rightarrow> Some (PRemoveRecovered stored rest)
      | Ok _ \<Rightarrow> Some (PReconcile rest))"

text \<open>
  One step of one worker: the ledger, the spool, the worker's next phase (\<open>None\<close> when its method
  has returned) and the provider submission it made, if any.
\<close>

fun worker_step ::
  "'l job_store \<Rightarrow> 's audio_spool \<Rightarrow> projection \<Rightarrow> step_env \<Rightarrow> 'l \<Rightarrow> 's \<Rightarrow> phase \<Rightarrow>
   'l \<times> 's \<times> phase option \<times> egress option" where
  "worker_step jobs spool validate env l s (PAdmit request) =
     (l, s, (case admit_load jobs (en_fault env) l request of
               Return _ \<Rightarrow> None | Continue _ \<Rightarrow> Some (PAbsent request)), None)"
| "worker_step jobs spool validate env l s (PAbsent request) =
     (case admit_spool spool (en_io env) s request of
        (s', Return _) \<Rightarrow> (l, s', None, None)
      | (s', Continue (h, owns)) \<Rightarrow> (l, s', Some (PSpooled request h owns), None))"
| "worker_step jobs spool validate env l s (PSpooled request h owns) =
     (case admit_insert jobs (en_fault env) l request h of
        (l', r) \<Rightarrow> (l', s, after_insert request h owns r, None))"
| "worker_step jobs spool validate env l s (PVerify request h owns e) =
     (l, s, (case admit_verify jobs (en_fault env) l request owns h e of
               Return _ \<Rightarrow> None | Continue pending \<Rightarrow> Some (PRollback h pending)), None)"
| "worker_step jobs spool validate env l s (PRollback h pending) =
     (l, fst (admit_remove spool (en_io env) s h pending), None, None)"
| "worker_step jobs spool validate env l s (PExecute i) =
     (l, s, (case execute_load jobs (en_fault env) l i of
               Return _ \<Rightarrow> None | Continue sn \<Rightarrow> Some (PLoaded sn)), None)"
| "worker_step jobs spool validate env l s (PLoaded sn) =
     (l, s, (case execute_read spool (en_io env) s sn of
               Return _ \<Rightarrow> None | Continue audio \<Rightarrow> Some (PReady sn audio)), None)"
| "worker_step jobs spool validate env l s (PReady sn audio) =
     (case execute_claim jobs (en_fault env) l sn of
        (l', Return _) \<Rightarrow> (l', s, None, None)
      | (l', Continue claimed) \<Rightarrow> (l', s, Some (PClaimed claimed audio), None))"
| "worker_step jobs spool validate env l s (PClaimed claimed audio) =
     (l, s, Some (PAnswered claimed (en_answer env)),
      Some (sn_id claimed, claimed_attempt claimed, en_answer env))"
| "worker_step jobs spool validate env l s (PAnswered claimed recognition) =
     (case execute_persist jobs (en_fault env) validate l claimed recognition of
        (l', Return _) \<Rightarrow> (l', s, None, None)
      | (l', Continue stored) \<Rightarrow> (l', s, Some (PCleanup stored), None))"
| "worker_step jobs spool validate env l s (PCleanup stored) =
     (l, fst (execute_cleanup spool (en_io env) s stored), None, None)"
| "worker_step jobs spool validate env l s (PScan after through) =
     (l, s, (case (case through of
                     None \<Rightarrow> js_list_recovery_candidates jobs (en_fault env) l after
                               RECOVERY_BATCH_LIMIT
                   | Some t \<Rightarrow> js_list_recovery_candidates_through jobs (en_fault env) l after t
                               RECOVERY_BATCH_LIMIT) of
               Err _ \<Rightarrow> None
             | Ok candidates \<Rightarrow> Some (PReconcile (fst (bounded_candidates candidates)))), None)"
| "worker_step jobs spool validate env l s (PReconcile []) = (l, s, None, None)"
| "worker_step jobs spool validate env l s (PReconcile (sn # rest)) =
     (case job_state (sn_job sn) of
        Submitting _ \<Rightarrow>
          (case reconcile_swap jobs (en_fault env) l sn of
             (l', r) \<Rightarrow> (l', s, reconcile_next rest r, None))
      | _ \<Rightarrow> (l, s, Some (PReconcile rest), None))"
| "worker_step jobs spool validate env l s (PRemoveRecovered sn rest) =
     (case as_remove spool (en_io env) s (sn_audio sn) of
        (s', Err _) \<Rightarrow> (l, s', None, None)
      | (s', Ok _) \<Rightarrow> (l, s', Some (PReconcile rest), None))"

section \<open>The system\<close>

record ('l, 's) sys =
  sy_ledger :: 'l
  sy_spool :: 's
  sy_workers :: "nat \<Rightarrow> phase option"
  sy_egress :: "egress list"

text \<open>A request carries a profile and a fingerprint built by their constructors.\<close>

fun wf_start :: "phase \<Rightarrow> bool" where
  "wf_start (PAdmit request) = (wf_profile (bar_profile request) \<and> wf_fingerprint (bar_fingerprint request))"
| "wf_start (PExecute _) = True"
| "wf_start (PScan _ _) = True"
| "wf_start _ = False"

inductive sys_step ::
  "'l job_store \<Rightarrow> 's audio_spool \<Rightarrow> projection \<Rightarrow> ('l, 's) sys \<Rightarrow> ('l, 's) sys \<Rightarrow> bool"
  for jobs spool validate where
  spawn: "sy_workers g w = None \<Longrightarrow> wf_start ph \<Longrightarrow>
    sys_step jobs spool validate g (g\<lparr>sy_workers := (sy_workers g)(w \<mapsto> ph)\<rparr>)"
| work: "sy_workers g w = Some ph \<Longrightarrow>
    worker_step jobs spool validate env (sy_ledger g) (sy_spool g) ph = (l', s', next_phase, sent) \<Longrightarrow>
    sys_step jobs spool validate g
      (g\<lparr>sy_ledger := l', sy_spool := s', sy_workers := (sy_workers g)(w := next_phase),
         sy_egress := sy_egress g @ (case sent of None \<Rightarrow> [] | Some e \<Rightarrow> [e])\<rparr>)"
| crash: "sys_step jobs spool validate g (g\<lparr>sy_workers := (sy_workers g)(w := None)\<rparr>)"

inductive reachable ::
  "'l job_store \<Rightarrow> 's audio_spool \<Rightarrow> projection \<Rightarrow> 'l \<Rightarrow> 's \<Rightarrow> ('l, 's) sys \<Rightarrow> bool"
  for jobs spool validate l0 s0 where
  start: "reachable jobs spool validate l0 s0
    \<lparr>sy_ledger = l0, sy_spool = s0, sy_workers = (\<lambda>_. None), sy_egress = []\<rparr>"
| step: "reachable jobs spool validate l0 s0 g \<Longrightarrow> sys_step jobs spool validate g g' \<Longrightarrow>
    reachable jobs spool validate l0 s0 g'"

section \<open>Facts about rows\<close>

text \<open>The allowed change of the whole table: nothing, one admission, or one lifecycle edge.\<close>

inductive row_move :: "rows \<Rightarrow> rows \<Rightarrow> bool" where
  unchanged: "row_move R R"
| admitted: "R i = None \<Longrightarrow> sn_id sn = i \<Longrightarrow> job_state (sn_job sn) = Accepted \<Longrightarrow>
    sn_revision sn = 0 \<Longrightarrow> row_move R (R(i \<mapsto> sn))"
| advanced: "R i = Some old \<Longrightarrow> same_immutable st old \<Longrightarrow>
    lifecycle_edge (status (job_state (sn_job old))) (status (job_state (sn_job st))) \<Longrightarrow>
    attempt_of (job_state (sn_job old)) \<le> attempt_of (job_state (sn_job st)) \<Longrightarrow>
    unat (sn_revision st) = unat (sn_revision old) + 1 \<Longrightarrow> row_move R (R(i \<mapsto> st))"

text \<open>A snapshot a worker read is the current row unless the row has moved on.\<close>

definition fresh_or_stale :: "rows \<Rightarrow> BatchJobSnapshot \<Rightarrow> bool" where
  "fresh_or_stale R sn \<longleftrightarrow>
     wf_job (sn_job sn) \<and>
     (\<exists>cur. R (sn_id sn) = Some cur \<and> unat (sn_revision sn) \<le> unat (sn_revision cur) \<and>
            (sn_revision sn = sn_revision cur \<longrightarrow> sn = cur))"

definition covered :: "rows \<Rightarrow> BatchJobId \<Rightarrow> u32 \<Rightarrow> bool" where
  "covered R i a \<longleftrightarrow>
     a \<noteq> 0 \<and> (\<exists>cur. R i = Some cur \<and> unat a \<le> attempt_of (job_state (sn_job cur)))"

definition is_retryable_answer ::
  "(BatchRecognitionResult, RecognitionFailure) result \<Rightarrow> bool" where
  "is_retryable_answer answer =
     (case answer of Err (KnownNotAccepted True _ _ _) \<Rightarrow> True | _ \<Rightarrow> False)"

text \<open>Every earlier attempt of a row was answered \<open>known not accepted, retryable\<close>.\<close>

definition spent_attempt :: "BatchJobState \<Rightarrow> nat \<Rightarrow> bool" where
  "spent_attempt st b \<longleftrightarrow>
     1 \<le> b \<and> (b < attempt_of st \<or> b = attempt_of st \<and> status st = StRetryable)"

definition evidence :: "rows \<Rightarrow> egress list \<Rightarrow> bool" where
  "evidence R es \<longleftrightarrow>
     (\<forall>i cur b. R i = Some cur \<longrightarrow> spent_attempt (job_state (sn_job cur)) b \<longrightarrow>
        (\<exists>a answer. unat a = b \<and> (i, a, answer) \<in> set es \<and> is_retryable_answer answer))"

lemma row_move_grows:
  assumes "row_move R R'" and "R i = Some cur"
  shows "\<exists>cur'. R' i = Some cur' \<and>
    attempt_of (job_state (sn_job cur)) \<le> attempt_of (job_state (sn_job cur')) \<and>
    (cur' = cur \<or> unat (sn_revision cur) < unat (sn_revision cur'))"
  using assms by (cases rule: row_move.cases) auto

lemma fresh_or_stale_move:
  assumes "row_move R R'" and "fresh_or_stale R sn"
  shows "fresh_or_stale R' sn"
proof -
  obtain cur where cur: "R (sn_id sn) = Some cur" "unat (sn_revision sn) \<le> unat (sn_revision cur)"
      "sn_revision sn = sn_revision cur \<longrightarrow> sn = cur" and wf: "wf_job (sn_job sn)"
    using assms(2) by (auto simp: fresh_or_stale_def)
  obtain cur' where c': "R' (sn_id sn) = Some cur'"
      "cur' = cur \<or> unat (sn_revision cur) < unat (sn_revision cur')"
    using row_move_grows [OF assms(1) cur(1)] by blast
  show ?thesis using c' cur(2,3) wf by (auto simp: fresh_or_stale_def)
qed

lemma covered_move: "row_move R R' \<Longrightarrow> covered R i a \<Longrightarrow> covered R' i a"
  unfolding covered_def by (meson row_move_grows order_trans)

lemma evidence_mono: "evidence R es \<Longrightarrow> set es \<subseteq> set es' \<Longrightarrow> evidence R es'"
  unfolding evidence_def by (meson subsetD)

text \<open>A swap by a worker that holds \<open>sn\<close> replaces exactly \<open>sn\<close>.\<close>

definition replaced :: "rows \<Rightarrow> rows \<Rightarrow> BatchJobSnapshot \<Rightarrow> BatchJobSnapshot \<Rightarrow> BatchJobSnapshot \<Rightarrow> bool"
  where
  "replaced R R' sn replacement st \<longleftrightarrow>
     R (sn_id sn) = Some sn \<and> R' = R(sn_id sn \<mapsto> st) \<and> sn_job st = sn_job replacement \<and>
     unat (sn_revision st) = unat (sn_revision sn) + 1 \<and> sn_id st = sn_id sn \<and>
     same_immutable st sn \<and> sn_result st = sn_result (untyped replacement)"

lemma replaced_unique: "replaced R R' sn rp st \<Longrightarrow> replaced R R' sn rp st' \<Longrightarrow> st' = st"
  unfolding replaced_def by (metis fun_upd_same option.inject)

lemma swapped_replaced:
  assumes "swapped R R' (sn_revision sn) replacement st" and "fresh_or_stale R sn"
    and "sn_id replacement = sn_id sn"
  shows "replaced R R' sn replacement st"
proof -
  obtain old where old: "R (sn_id sn) = Some old" "sn_revision old = sn_revision sn"
      "same_immutable old replacement"
    using assms(1,3) by (auto simp: swapped_def)
  then have osn: "old = sn" using assms(2) by (auto simp: fresh_or_stale_def)
  define rv where "rv = sn_revision st"
  have st: "st = (untyped replacement)\<lparr>sn_revision := rv\<rparr>" "R' = R(sn_id sn \<mapsto> st)"
    "unat rv = unat (sn_revision sn) + 1"
    using assms(1,3) by (simp_all add: swapped_def rv_def)
  have "same_immutable st sn" using old(3) osn st(1) by (simp add: untyped_def same_immutable_def)
  with old osn st assms(3) show ?thesis by (simp add: replaced_def untyped_def)
qed

lemma wf_job_attempt: "wf_job j \<Longrightarrow> job_state j = Submitting a \<Longrightarrow> a \<noteq> 0"
  by (simp add: wf_job_def)

lemma begin_submission_edge:
  assumes "begin_submission j = (j', Ok a)"
  shows "lifecycle_edge (status (job_state j)) (status (job_state j'))"
  using begin_submission_attempt(1,5) [OF assms] by auto

lemma outcome_edge: "lifecycle_edge StSubmitting (status (outcome_state sn a rec v))"
  by (auto simp: outcome_state_def split: result.splits RecognitionFailure.splits bool.splits)

lemma outcome_retryable:
  "status (outcome_state sn a rec v) = StRetryable \<Longrightarrow> is_retryable_answer rec"
  by (auto simp: outcome_state_def is_retryable_answer_def
      split: result.splits RecognitionFailure.splits bool.splits if_splits)

section \<open>What the phases do to a ledger\<close>

context job_ledger
begin

lemma cas_effect:
  assumes inv: "invar l" and fs: "fresh_or_stale (rows l) sn"
    and rp: "sn_id rp = sn_id sn" "wf_job (sn_job rp)"
    and cas: "js_compare_and_swap jobs f l (sn_revision sn) rp = (l', u)"
  shows "invar l' \<and>
    (rows l' = rows l \<and> (\<forall>c. u \<noteq> Ok (Stored c)) \<or>
     (\<exists>st. replaced (rows l) (rows l') sn rp st \<and> (\<forall>c. u = Ok (Stored c) \<longrightarrow> c = st)))"
proof (cases "\<exists>st. swapped (rows l) (rows l') (sn_revision sn) rp st")
  case True
  then obtain st where st: "replaced (rows l) (rows l') sn rp st"
    using swapped_replaced [OF _ fs rp(1)] by blast
  have "c = st" if "u = Ok (Stored c)" for c
    using cas_stored [OF inv rp(2) cas [unfolded that]] swapped_replaced [OF _ fs rp(1)]
      replaced_unique [OF st] by blast
  with st cas_invar [OF inv rp(2) cas] show ?thesis by blast
next
  case False
  then have "u \<noteq> Ok (Stored c)" for c using cas_stored [OF inv rp(2)] cas by blast
  with False show ?thesis using cas_rows [OF inv rp(2) cas] cas_invar [OF inv rp(2) cas] by blast
qed

text \<open>The claim: at most one edge into \<open>Submitting\<close>, with the next attempt number.\<close>

lemma claim_effect:
  assumes inv: "invar l" and fs: "fresh_or_stale (rows l) sn"
    and claim: "execute_claim jobs f l sn = (l', fl)"
  shows "invar l' \<and>
    ((\<forall>c. fl \<noteq> Continue c) \<and> rows l' = rows l \<or>
     (\<exists>st rp a. replaced (rows l) (rows l') sn rp st \<and> (\<forall>c. fl = Continue c \<longrightarrow> c = st) \<and>
        job_state (sn_job st) = Submitting a \<and> wf_job (sn_job st) \<and>
        unat a = attempt_of (job_state (sn_job sn)) + 1 \<and>
        (job_state (sn_job sn) = Accepted \<or> (\<exists>b e. job_state (sn_job sn) = Retryable b e))))"
proof -
  obtain j b where bs: "begin_submission (sn_job sn) = (j, b)" by fastforce
  show ?thesis
  proof (cases b)
    case (Err e)
    with claim bs inv show ?thesis by (auto simp: execute_claim_def)
  next
    case (Ok a)
    let ?cl = "sn\<lparr>sn_job := j, sn_provider_reference := None, sn_retry_after_millis := None,
                  sn_result := None\<rparr>"
    note att = begin_submission_attempt [OF bs [unfolded Ok]]
    have wf: "wf_job (sn_job ?cl)"
      using wf_job_begin_submission [OF bs [unfolded Ok]] fs by (simp add: fresh_or_stale_def)
    obtain l2 u where cas: "js_compare_and_swap jobs f l (sn_revision sn) ?cl = (l2, u)" by fastforce
    have l2: "l2 = l'" and fl: "fl = Continue c \<longleftrightarrow> u = Ok (Stored c)" for c
      using claim bs Ok cas
      by (auto simp: execute_claim_def Let_def split: result.splits BatchJobUpdateOutcome.splits)
    have "sn_id ?cl = sn_id sn" by simp
    from cas_effect [OF inv fs this wf cas [unfolded l2]] show ?thesis
    proof (elim conjE disjE exE)
      fix st
      assume il: "invar l'" and st: "replaced (rows l) (rows l') sn ?cl st"
        and u: "\<forall>c. u = Ok (Stored c) \<longrightarrow> c = st"
      from st have j: "sn_job st = j" by (simp add: replaced_def)
      have "job_state (sn_job st) = Submitting a" "wf_job (sn_job st)" using j att(1) wf by simp_all
      moreover have "\<forall>c. fl = Continue c \<longrightarrow> c = st" using u fl by blast
      ultimately show ?thesis using il st att(2,5) by blast
    qed (use fl in auto)
  qed
qed

text \<open>The answer: the edge out of \<open>Submitting\<close> that the answer asks for.\<close>

lemma persist_effect:
  assumes inv: "invar l" and fs: "fresh_or_stale (rows l) sn"
    and sub: "job_state (sn_job sn) = Submitting a"
    and per: "execute_persist jobs f validate l sn rec = (l', fl)"
  shows "invar l' \<and>
    ((\<forall>c. fl \<noteq> Continue c) \<and> rows l' = rows l \<or>
     (\<exists>st rp. replaced (rows l) (rows l') sn rp st \<and> (\<forall>c. fl = Continue c \<longrightarrow> c = st) \<and>
        job_state (sn_job st) = outcome_state sn a rec validate))"
proof -
  define rp where "rp = sn\<lparr>sn_job := (sn_job sn)\<lparr>job_state := outcome_state sn a rec validate\<rparr>,
      sn_provider_reference := outcome_reference rec,
      sn_retry_after_millis := outcome_retry_after rec,
      sn_result := outcome_result sn rec validate\<rparr>"
  have ap: "apply_recognition_outcome sn rec validate = Ok rp"
    using apply_outcome_submitting [OF sub] by (simp add: rp_def)
  have wf: "wf_job (sn_job rp)" and ids: "sn_id rp = sn_id sn"
    using fs sub wf_outcome_state [of a sn rec validate]
    by (auto simp: rp_def fresh_or_stale_def wf_job_def)
  obtain l2 u where cas: "js_compare_and_swap jobs f l (sn_revision sn) rp = (l2, u)" by fastforce
  have l2: "l2 = l'" and fl: "fl = Continue c \<longleftrightarrow> u = Ok (Stored c)" for c
    using per ap cas
    by (auto simp: execute_persist_def split: result.splits BatchJobUpdateOutcome.splits)
  from cas_effect [OF inv fs ids wf cas [unfolded l2]] show ?thesis
  proof (elim conjE disjE exE)
    fix st
    assume il: "invar l'" and st: "replaced (rows l) (rows l') sn rp st"
      and u: "\<forall>c. u = Ok (Stored c) \<longrightarrow> c = st"
    from st have "job_state (sn_job st) = outcome_state sn a rec validate"
      by (simp add: replaced_def rp_def)
    with il st u fl show ?thesis by auto
  qed (use fl in auto)
qed

text \<open>Recovery: an interrupted submission becomes terminally unknown.\<close>

lemma reconcile_effect:
  assumes inv: "invar l" and fs: "fresh_or_stale (rows l) sn"
    and sub: "job_state (sn_job sn) = Submitting a"
    and rec: "reconcile_swap jobs f l sn = (l', u)"
  shows "invar l' \<and>
    (rows l' = rows l \<or>
     (\<exists>st rp. replaced (rows l) (rows l') sn rp st \<and>
        job_state (sn_job st) = OutcomeUnknown a InterruptedSubmission))"
proof -
  let ?rp = "sn\<lparr>sn_job := fst (recover_interrupted_submission (sn_job sn))\<rparr>"
  have wf: "wf_job (sn_job ?rp)"
    using wf_job_recover fs by (simp add: fresh_or_stale_def)
  have ids: "sn_id ?rp = sn_id sn" by simp
  have js: "job_state (sn_job ?rp) = OutcomeUnknown a InterruptedSubmission"
    using sub by (simp add: recover_interrupted_submission_def)
  have "job_state (sn_job st) = OutcomeUnknown a InterruptedSubmission"
    if "replaced (rows l) (rows l') sn ?rp st" for st
    using that js by (simp add: replaced_def)
  with cas_effect [OF inv fs ids wf rec [unfolded reconcile_swap_def]] show ?thesis by blast
qed

end

section \<open>The system invariant\<close>

text \<open>The snapshots a worker will use for a compare-and-swap.\<close>

fun held :: "phase \<Rightarrow> BatchJobSnapshot list" where
  "held (PLoaded sn) = [sn]"
| "held (PReady sn _) = [sn]"
| "held (PClaimed sn _) = [sn]"
| "held (PAnswered sn _) = [sn]"
| "held (PReconcile sns) = sns"
| "held (PRemoveRecovered _ sns) = sns"
| "held _ = []"

definition wf_request :: "BatchAdmissionRequest \<Rightarrow> bool" where
  "wf_request rq \<longleftrightarrow> wf_profile (bar_profile rq) \<and> wf_fingerprint (bar_fingerprint rq)"

fun wf_phase :: "egress list \<Rightarrow> phase \<Rightarrow> bool" where
  "wf_phase es (PAdmit rq) = wf_request rq"
| "wf_phase es (PAbsent rq) = wf_request rq"
| "wf_phase es (PSpooled rq _ _) = wf_request rq"
| "wf_phase es (PVerify rq _ _ _) = wf_request rq"
| "wf_phase es (PClaimed sn _) = (status (job_state (sn_job sn)) = StSubmitting)"
| "wf_phase es (PAnswered sn answer) =
     (status (job_state (sn_job sn)) = StSubmitting \<and>
      (sn_id sn, claimed_attempt sn, answer) \<in> set es)"
| "wf_phase es _ = True"

text \<open>The submissions a worker has licensed but not made yet.\<close>

fun claim_key :: "phase \<Rightarrow> (BatchJobId \<times> u32) option" where
  "claim_key (PClaimed sn _) = Some (sn_id sn, claimed_attempt sn)"
| "claim_key _ = None"

definition egress_key :: "egress \<Rightarrow> BatchJobId \<times> u32" where
  "egress_key e = (fst e, fst (snd e))"

definition worker_ok :: "rows \<Rightarrow> egress list \<Rightarrow> phase \<Rightarrow> bool" where
  "worker_ok R es ph \<longleftrightarrow>
     (\<forall>sn \<in> set (held ph). fresh_or_stale R sn) \<and> wf_phase es ph \<and>
     (\<forall>i a. claim_key ph = Some (i, a) \<longrightarrow> covered R i a \<and> (i, a) \<notin> egress_key ` set es)"

definition system_ok :: "rows \<Rightarrow> (nat \<Rightarrow> phase option) \<Rightarrow> egress list \<Rightarrow> bool" where
  "system_ok R ws es \<longleftrightarrow>
     (\<forall>w ph. ws w = Some ph \<longrightarrow> worker_ok R es ph) \<and>
     (\<forall>v w ph ph' k. ws v = Some ph \<longrightarrow> ws w = Some ph' \<longrightarrow> v \<noteq> w \<longrightarrow>
        claim_key ph = Some k \<longrightarrow> claim_key ph' \<noteq> Some k) \<and>
     distinct (map egress_key es) \<and>
     (\<forall>e \<in> set es. covered R (fst e) (fst (snd e))) \<and>
     evidence R es"

lemma wf_phase_mono: "wf_phase es ph \<Longrightarrow> set es \<subseteq> set es' \<Longrightarrow> wf_phase es' ph"
  by (cases ph) auto

lemma worker_ok_move:
  "worker_ok R es ph \<Longrightarrow> row_move R R' \<Longrightarrow> worker_ok R' es ph"
  by (auto simp: worker_ok_def intro: fresh_or_stale_move covered_move)

text \<open>A step of worker \<open>w\<close> that sends nothing keeps the system in order when its new phase is.\<close>

lemma system_ok_quiet:
  assumes ok: "system_ok R ws es" and mv: "row_move R R'" and ev: "evidence R' es"
    and nxt: "\<And>ph. nph = Some ph \<Longrightarrow> worker_ok R' es ph"
    and key: "\<And>ph k. nph = Some ph \<Longrightarrow> claim_key ph = Some k \<Longrightarrow> \<not> covered R (fst k) (snd k)"
  shows "system_ok R' (ws(w := nph)) es"
proof -
  have others: "worker_ok R' es ph" if "ws v = Some ph" for v ph
    using worker_ok_move [OF _ mv] ok that unfolding system_ok_def by blast
  have apart: "claim_key ph \<noteq> Some k" if "ws v = Some ph" "nph = Some ph'" "claim_key ph' = Some k"
    for v ph ph' k
  proof
    assume "claim_key ph = Some k"
    then have "covered R (fst k) (snd k)"
      using ok that(1) by (cases k) (auto simp: system_ok_def worker_ok_def)
    with key [OF that(2,3)] show False by blast
  qed
  have "\<forall>e \<in> set es. covered R' (fst e) (fst (snd e))"
    using ok mv covered_move by (auto simp: system_ok_def)
  moreover have "distinct (map egress_key es)" using ok by (simp add: system_ok_def)
  moreover have "\<forall>v ph. (ws(w := nph)) v = Some ph \<longrightarrow> worker_ok R' es ph"
    using others nxt by auto
  moreover have "\<forall>u v ph ph' k. (ws(w := nph)) u = Some ph \<longrightarrow> (ws(w := nph)) v = Some ph' \<longrightarrow> u \<noteq> v \<longrightarrow>
        claim_key ph = Some k \<longrightarrow> claim_key ph' \<noteq> Some k"
    using ok apart by (auto simp: system_ok_def split: if_splits)
  ultimately show ?thesis using ev by (simp add: system_ok_def)
qed

lemma evidence_replaced:
  assumes ev: "evidence R es" and rp: "replaced R R' sn rpl st"
    and spent: "\<And>b. spent_attempt (job_state (sn_job st)) b \<Longrightarrow>
      spent_attempt (job_state (sn_job sn)) b \<or>
      (\<exists>a answer. unat a = b \<and> (sn_id sn, a, answer) \<in> set es \<and> is_retryable_answer answer)"
  shows "evidence R' es"
  unfolding evidence_def
proof (intro allI impI)
  fix i cur b
  assume i: "R' i = Some cur" and b: "spent_attempt (job_state (sn_job cur)) b"
  have R': "R' = R(sn_id sn \<mapsto> st)" and R: "R (sn_id sn) = Some sn" using rp by (simp_all add: replaced_def)
  show "\<exists>a answer. unat a = b \<and> (i, a, answer) \<in> set es \<and> is_retryable_answer answer"
  proof (cases "i = sn_id sn")
    case True
    with i R' have "cur = st" by simp
    with b spent have "spent_attempt (job_state (sn_job sn)) b \<or>
        (\<exists>a answer. unat a = b \<and> (sn_id sn, a, answer) \<in> set es \<and> is_retryable_answer answer)"
      by blast
    with ev R True show ?thesis unfolding evidence_def by blast
  next
    case False
    then show ?thesis using i b R' ev unfolding evidence_def by auto
  qed
qed

lemma replaced_move:
  assumes "replaced R R' sn rpl st"
    and "lifecycle_edge (status (job_state (sn_job sn))) (status (job_state (sn_job st)))"
    and "attempt_of (job_state (sn_job sn)) \<le> attempt_of (job_state (sn_job st))"
  shows "row_move R R'"
  using assms row_move.advanced [of R "sn_id sn" sn st] by (simp add: replaced_def)

lemma replaced_fresh:
  "replaced R R' sn rpl st \<Longrightarrow> wf_job (sn_job st) \<Longrightarrow> fresh_or_stale R' st"
  by (auto simp: replaced_def fresh_or_stale_def)

lemma system_ok_worker: "system_ok R ws es \<Longrightarrow> ws w = Some ph \<Longrightarrow> worker_ok R es ph"
  by (simp add: system_ok_def)

lemma system_ok_evidence: "system_ok R ws es \<Longrightarrow> evidence R es"
  by (simp add: system_ok_def)

text \<open>Workers that neither claim nor send, with the table unchanged.\<close>

lemma system_ok_idle:
  assumes "system_ok R ws es" and "\<And>ph. nph = Some ph \<Longrightarrow> worker_ok R es ph \<and> claim_key ph = None"
  shows "system_ok R (ws(w := nph)) es"
  by (rule system_ok_quiet [OF assms(1) row_move.unchanged system_ok_evidence [OF assms(1)]])
    (use assms(2) in force)+

text \<open>The egress step: the claim of the worker becomes a submission.\<close>

lemma system_ok_send:
  assumes ok: "system_ok R ws es" and w: "ws w = Some (PClaimed sn audio)"
  shows "system_ok R (ws(w \<mapsto> PAnswered sn answer))
           (es @ [(sn_id sn, claimed_attempt sn, answer)])"
proof -
  let ?e = "(sn_id sn, claimed_attempt sn, answer)"
  have me: "worker_ok R es (PClaimed sn audio)" by (rule system_ok_worker [OF ok w])
  have fresh: "egress_key ?e \<notin> egress_key ` set es" "covered R (sn_id sn) (claimed_attempt sn)"
    using me by (simp_all add: worker_ok_def egress_key_def)
  have other: "worker_ok R (es @ [?e]) ph" if v: "ws v = Some ph" and ne: "v \<noteq> w" for v ph
  proof -
    have vo: "worker_ok R es ph" by (rule system_ok_worker [OF ok v])
    have "claim_key ph \<noteq> Some (sn_id sn, claimed_attempt sn)"
      using ok v w ne unfolding system_ok_def by (metis claim_key.simps(1))
    with vo wf_phase_mono [of es ph "es @ [?e]"] show ?thesis
      by (auto simp: worker_ok_def egress_key_def)
  qed
  have mine: "worker_ok R (es @ [?e]) (PAnswered sn answer)" using me by (simp add: worker_ok_def)
  have "\<forall>u v ph ph' k. (ws(w \<mapsto> PAnswered sn answer)) u = Some ph \<longrightarrow>
      (ws(w \<mapsto> PAnswered sn answer)) v = Some ph' \<longrightarrow> u \<noteq> v \<longrightarrow>
      claim_key ph = Some k \<longrightarrow> claim_key ph' \<noteq> Some k"
    using ok unfolding system_ok_def by (auto split: if_splits)
  moreover have "distinct (map egress_key (es @ [?e]))"
    using ok fresh(1) by (simp add: system_ok_def)
  moreover have "\<forall>v ph. (ws(w \<mapsto> PAnswered sn answer)) v = Some ph \<longrightarrow> worker_ok R (es @ [?e]) ph"
    using other mine by auto
  moreover have "\<forall>e \<in> set (es @ [?e]). covered R (fst e) (fst (snd e))"
    using ok fresh(2) by (auto simp: system_ok_def)
  moreover have "evidence R (es @ [?e])"
    using evidence_mono [OF system_ok_evidence [OF ok], of "es @ [?e]"] by auto
  ultimately show ?thesis by (simp add: system_ok_def)
qed

lemma spent_claim:
  assumes "unat a = attempt_of st + 1" and "st = Accepted \<or> (\<exists>b e. st = Retryable b e)"
    and "spent_attempt (Submitting a) b"
  shows "spent_attempt st b"
  using assms by (auto simp: spent_attempt_def)

context job_ledger
begin

lemma fresh_row:
  "invar l \<Longrightarrow> rows l (sn_id sn) = Some sn \<Longrightarrow> fresh_or_stale (rows l) sn"
  using rows_law [of l "sn_id sn" sn] by (simp add: fresh_or_stale_def)

lemma claim_step:
  assumes inv: "invar l" and ok: "system_ok (rows l) ws es" and w: "ws w = Some (PReady sn audio)"
    and claim: "execute_claim jobs f l sn = (l', fl)"
    and nph: "nph = (case fl of Return _ \<Rightarrow> None | Continue c \<Rightarrow> Some (PClaimed c audio))"
  shows "invar l' \<and> row_move (rows l) (rows l') \<and> system_ok (rows l') (ws(w := nph)) es"
proof -
  have fs: "fresh_or_stale (rows l) sn"
    using system_ok_worker [OF ok w] by (simp add: worker_ok_def)
  from claim_effect [OF inv fs claim] show ?thesis
  proof (elim conjE disjE)
    assume "invar l'" "\<forall>c. fl \<noteq> Continue c" "rows l' = rows l"
    moreover from this have "nph = None" using nph by (cases fl) simp_all
    ultimately show ?thesis using system_ok_idle [OF ok, of nph w] by (simp add: row_move.unchanged)
  next
    assume il: "invar l'" and "\<exists>st rp a. replaced (rows l) (rows l') sn rp st \<and>
        (\<forall>c. fl = Continue c \<longrightarrow> c = st) \<and> job_state (sn_job st) = Submitting a \<and> wf_job (sn_job st) \<and>
        unat a = attempt_of (job_state (sn_job sn)) + 1 \<and>
        (job_state (sn_job sn) = Accepted \<or> (\<exists>b e. job_state (sn_job sn) = Retryable b e))"
    then obtain st rp a where st: "replaced (rows l) (rows l') sn rp st"
        "\<forall>c. fl = Continue c \<longrightarrow> c = st" "job_state (sn_job st) = Submitting a" "wf_job (sn_job st)"
        "unat a = attempt_of (job_state (sn_job sn)) + 1"
      and act: "job_state (sn_job sn) = Accepted \<or> (\<exists>b e. job_state (sn_job sn) = Retryable b e)"
      by blast
    have mv: "row_move (rows l) (rows l')"
      using replaced_move [OF st(1)] st(3,5) act by auto
    have ev: "evidence (rows l') es"
      using evidence_replaced [OF system_ok_evidence [OF ok] st(1)] spent_claim [OF st(5) act] st(3)
      by simp
    have row: "rows l (sn_id sn) = Some sn" "rows l' (sn_id sn) = Some st" "sn_id st = sn_id sn"
      using st(1) by (simp_all add: replaced_def)
    have new: "\<not> covered (rows l) (sn_id sn) a" using row(1) st(5) by (simp add: covered_def)
    have ca: "claimed_attempt st = a" using st(3) by (simp add: claimed_attempt_def)
    have "(sn_id sn, a) \<notin> egress_key ` set es"
      using ok new by (auto simp: system_ok_def egress_key_def)
    moreover have "covered (rows l') (sn_id sn) a" using row(2) st(3,5) by (auto simp: covered_def)
    ultimately have wk: "worker_ok (rows l') es (PClaimed st audio)"
      using replaced_fresh [OF st(1,4)] st(3) ca row(3) by (simp add: worker_ok_def)
    have "nph = None \<or> nph = Some (PClaimed st audio)" using nph st(2) by (cases fl) auto
    then have "system_ok (rows l') (ws(w := nph)) es"
      by (intro system_ok_quiet [OF ok mv ev]) (use wk new ca row(3) in auto)
    with il mv show ?thesis by blast
  qed
qed

lemma persist_step:
  assumes inv: "invar l" and ok: "system_ok (rows l) ws es" and w: "ws w = Some (PAnswered sn answer)"
    and per: "execute_persist jobs f validate l sn answer = (l', fl)"
    and nph: "nph = (case fl of Return _ \<Rightarrow> None | Continue c \<Rightarrow> Some (PCleanup c))"
  shows "invar l' \<and> row_move (rows l) (rows l') \<and> system_ok (rows l') (ws(w := nph)) es"
proof -
  have me: "worker_ok (rows l) es (PAnswered sn answer)" by (rule system_ok_worker [OF ok w])
  then obtain a where a: "job_state (sn_job sn) = Submitting a"
    by (cases "job_state (sn_job sn)") (auto simp: worker_ok_def)
  have fs: "fresh_or_stale (rows l) sn" and sent: "(sn_id sn, a, answer) \<in> set es"
    using me a by (auto simp: worker_ok_def claimed_attempt_def)
  have idle: "\<And>ph. nph = Some ph \<Longrightarrow> worker_ok R es ph \<and> claim_key ph = None" for R
    using nph by (cases fl) (auto simp: worker_ok_def)
  from persist_effect [OF inv fs a per] show ?thesis
  proof (elim conjE disjE exE)
    fix st rp
    assume il: "invar l'" and st: "replaced (rows l) (rows l') sn rp st"
        "job_state (sn_job st) = outcome_state sn a answer validate"
    have mv: "row_move (rows l) (rows l')"
      using replaced_move [OF st(1)] st(2) a outcome_edge outcome_state_status(3) by simp
    have "spent_attempt (Submitting a) b \<or> (\<exists>a ans. unat a = b \<and> (sn_id sn, a, ans) \<in> set es \<and> is_retryable_answer ans)"
      if "spent_attempt (outcome_state sn a answer validate) b" for b
      using that sent outcome_retryable [of sn a answer validate] outcome_state_status(3) [of sn a answer validate]
      by (auto simp: spent_attempt_def)
    then have "evidence (rows l') es"
      using evidence_replaced [OF system_ok_evidence [OF ok] st(1)] st(2) a by simp
    with il mv idle system_ok_quiet [OF ok mv, of nph w] show ?thesis by auto
  qed (use system_ok_idle [OF ok, of nph w] idle in \<open>auto intro: row_move.unchanged\<close>)
qed

lemma reconcile_step:
  assumes inv: "invar l" and ok: "system_ok (rows l) ws es"
    and w: "ws w = Some (PReconcile (sn # rest))" and sub: "job_state (sn_job sn) = Submitting a"
    and rec: "reconcile_swap jobs f l sn = (l', u)"
  shows "invar l' \<and> row_move (rows l) (rows l') \<and>
         system_ok (rows l') (ws(w := reconcile_next rest u)) es"
proof -
  have me: "worker_ok (rows l) es (PReconcile (sn # rest))" by (rule system_ok_worker [OF ok w])
  then have fs: "fresh_or_stale (rows l) sn" by (simp add: worker_ok_def)
  have nxt: "worker_ok R es ph \<and> claim_key ph = None"
    if "reconcile_next rest u = Some ph" "worker_ok R es (PReconcile (sn # rest))" for ph R
    using that by (auto simp: reconcile_next_def worker_ok_def split: result.splits BatchJobUpdateOutcome.splits)
  from reconcile_effect [OF inv fs sub rec] show ?thesis
  proof (elim conjE disjE exE)
    fix st rp
    assume il: "invar l'" and st: "replaced (rows l) (rows l') sn rp st"
        "job_state (sn_job st) = OutcomeUnknown a InterruptedSubmission"
    have mv: "row_move (rows l) (rows l')" using replaced_move [OF st(1)] st(2) sub by simp
    have "evidence (rows l') es"
      using evidence_replaced [OF system_ok_evidence [OF ok] st(1)] st(2) sub
      by (simp add: spent_attempt_def)
    with il mv nxt worker_ok_move [OF me mv] system_ok_quiet [OF ok mv, of "reconcile_next rest u" w]
    show ?thesis by auto
  qed (use system_ok_idle [OF ok, of "reconcile_next rest u" w] nxt me in \<open>auto intro: row_move.unchanged\<close>)
qed

lemma insert_step:
  assumes inv: "invar l" and ok: "system_ok (rows l) ws es" and w: "ws w = Some (PSpooled rq h owns)"
    and ins: "admit_insert jobs f l rq h = (l', fl)"
  shows "invar l' \<and> row_move (rows l) (rows l') \<and>
         system_ok (rows l') (ws(w := after_insert rq h owns fl)) es"
proof -
  let ?job = "accept (bar_profile rq) (bar_fingerprint rq)"
  let ?sn = "initial_snapshot (bar_id rq) ?job h (bar_authoritative_duration_millis rq) (bar_keyterms rq)"
  have rq: "wf_request rq" using system_ok_worker [OF ok w] by (simp add: worker_ok_def)
  then have wf: "wf_job ?job" by (simp add: wf_request_def wf_job_accept)
  obtain r where r: "js_insert jobs f l (bar_id rq) ?job h (bar_authoritative_duration_millis rq)
      (bar_keyterms rq) = (l', r)"
    using ins by (auto simp: admit_insert_def split: prod.splits result.splits BatchJobInsertOutcome.splits)
  have idle: "\<And>ph. after_insert rq h owns fl = Some ph \<Longrightarrow> worker_ok R es ph \<and> claim_key ph = None" for R
    using rq by (auto simp: after_insert_def worker_ok_def split: flow.splits insert_next.splits)
  from insert_rows [OF inv wf r] show ?thesis
  proof (elim disjE conjE)
    assume "rows l' = rows l"
    then show ?thesis
      using insert_invar [OF inv wf r] system_ok_idle [OF ok idle] row_move.unchanged by simp
  next
    assume none: "rows l (bar_id rq) = None" and new: "rows l' = (rows l)(bar_id rq \<mapsto> ?sn)"
    have mv: "row_move (rows l) (rows l')"
      unfolding new using none
      by (intro row_move.admitted) (simp_all add: initial_snapshot_def accept_def)
    have "evidence (rows l') es"
      using system_ok_evidence [OF ok] new
      by (auto simp: evidence_def initial_snapshot_def accept_def spent_attempt_def)
    then have "system_ok (rows l') (ws(w := after_insert rq h owns fl)) es"
      by (intro system_ok_quiet [OF ok mv]) (use idle in force)+
    then show ?thesis using insert_invar [OF inv wf r] mv by simp
  qed
qed

lemma execute_load_fresh:
  assumes "invar l" and "execute_load jobs f l i = Continue sn"
  shows "fresh_or_stale (rows l) sn"
proof -
  have "js_load jobs f l i = Ok (Some sn)"
    using assms(2) by (auto simp: execute_load_def split: result.splits option.splits if_splits)
  then have "rows l i = Some sn" using load_law [OF assms(1)] by force
  then show ?thesis using fresh_row [OF assms(1)] rows_law [OF assms(1)] by simp
qed

lemma bounded_subset: "set (fst (bounded_candidates sns)) \<subseteq> set sns"
  by (auto simp: bounded_candidates_def Let_def dest: in_set_takeD)

text \<open>Every step of every worker keeps the ledger invariant and the system invariant.\<close>

lemma worker_preserves:
  assumes inv: "invar l" and ok: "system_ok (rows l) ws es" and w: "ws w = Some ph"
    and st: "worker_step jobs spool validate env l s ph = (l', s', nph, sent)"
  shows "invar l' \<and> row_move (rows l) (rows l') \<and>
         system_ok (rows l') (ws(w := nph)) (es @ (case sent of None \<Rightarrow> [] | Some e \<Rightarrow> [e]))"
proof -
  have me: "worker_ok (rows l) es ph" by (rule system_ok_worker [OF ok w])
  have quiet: ?thesis if "l' = l" "sent = None"
      "\<And>p. nph = Some p \<Longrightarrow> worker_ok (rows l) es p \<and> claim_key p = None"
    using that inv system_ok_idle [OF ok that(3)] row_move.unchanged by simp
  show ?thesis
  proof (cases ph)
    case (PSpooled rq h owns)
    with st insert_step [OF inv ok, of w rq h owns "en_fault env"] w show ?thesis
      by (auto split: prod.splits)
  next
    case (PReady sn audio)
    obtain l1 fl where c: "execute_claim jobs (en_fault env) l sn = (l1, fl)" by fastforce
    with st PReady have "l1 = l'" "sent = None"
      "nph = (case fl of Return _ \<Rightarrow> None | Continue c \<Rightarrow> Some (PClaimed c audio))"
      by (cases fl; simp)+
    with claim_step [OF inv ok w [unfolded PReady] c] show ?thesis by simp
  next
    case (PClaimed sn audio)
    with st system_ok_send [OF ok w [unfolded PClaimed]] inv show ?thesis
      by (auto intro: row_move.unchanged)
  next
    case (PAnswered sn answer)
    obtain l1 fl where c: "execute_persist jobs (en_fault env) validate l sn answer = (l1, fl)"
      by fastforce
    with st PAnswered have "l1 = l'" "sent = None"
      "nph = (case fl of Return _ \<Rightarrow> None | Continue c \<Rightarrow> Some (PCleanup c))"
      by (cases fl; simp)+
    with persist_step [OF inv ok w [unfolded PAnswered] c] show ?thesis by simp
  next
    case (PReconcile sns)
    show ?thesis
    proof (cases "\<exists>sn rest a. sns = sn # rest \<and> job_state (sn_job sn) = Submitting a")
      case True
      then obtain sn rest a where sn: "sns = sn # rest" "job_state (sn_job sn) = Submitting a" by blast
      with st PReconcile reconcile_step [OF inv ok, of w sn rest a "en_fault env"] w show ?thesis
        by (auto split: prod.splits)
    next
      case False
      show ?thesis
      proof (rule quiet)
        show "l' = l" "sent = None"
          using False st PReconcile by (cases sns; auto split: BatchJobState.splits)+
        show "worker_ok (rows l) es p \<and> claim_key p = None" if "nph = Some p" for p
          using False st PReconcile me that
          by (cases sns) (auto simp: worker_ok_def split: BatchJobState.splits)
      qed
    qed
  next
    case (PExecute i)
    show ?thesis
      by (rule quiet) (use st PExecute execute_load_fresh [OF inv, of "en_fault env" i] in
        \<open>auto simp: worker_ok_def split: flow.splits\<close>)
  next
    case (PScan after through)
    have *: "\<forall>sn \<in> set (fst (bounded_candidates c)). fresh_or_stale (rows l) sn"
      if "(case through of None \<Rightarrow> js_list_recovery_candidates jobs (en_fault env) l after RECOVERY_BATCH_LIMIT
           | Some t \<Rightarrow> js_list_recovery_candidates_through jobs (en_fault env) l after t RECOVERY_BATCH_LIMIT)
            = Ok c" for c
      using that bounded_subset [of c] fresh_row [OF inv] list_law [OF inv] list_through_law [OF inv]
      by (cases through) (simp_all, blast+)
    show ?thesis
      by (rule quiet) (use st PScan * in \<open>auto simp: worker_ok_def split: result.splits\<close>)
  next
    case (PAbsent rq)
    show ?thesis
      by (rule quiet) (use st PAbsent me in \<open>auto simp: worker_ok_def split: flow.splits prod.splits\<close>)
  next
    case (PRemoveRecovered sn rest)
    show ?thesis
      by (rule quiet) (use st PRemoveRecovered me in \<open>auto simp: worker_ok_def split: result.splits prod.splits\<close>)
  qed (rule quiet; use st me in \<open>auto simp: worker_ok_def split: flow.splits\<close>)+
qed

lemma step_preserves:
  assumes "sys_step jobs spool validate g g'" and "invar (sy_ledger g)"
    and "system_ok (rows (sy_ledger g)) (sy_workers g) (sy_egress g)"
  shows "invar (sy_ledger g') \<and> row_move (rows (sy_ledger g)) (rows (sy_ledger g')) \<and>
         system_ok (rows (sy_ledger g')) (sy_workers g') (sy_egress g') \<and>
         set (sy_egress g) \<subseteq> set (sy_egress g')"
  using assms(1)
proof (cases rule: sys_step.cases)
  case (spawn w ph)
  have "worker_ok R es ph \<and> claim_key ph = None" for R es
    using spawn(3) by (cases ph) (auto simp: worker_ok_def wf_request_def)
  then have "system_ok (rows (sy_ledger g)) ((sy_workers g)(w := Some ph)) (sy_egress g)"
    by (intro system_ok_idle [OF assms(3)]) auto
  with spawn(1) assms(2) row_move.unchanged show ?thesis by simp
next
  case (work w ph env l' s' nph sent)
  from worker_preserves [OF assms(2,3) work(2,3)] work(1) show ?thesis by simp
next
  case (crash w)
  have "system_ok (rows (sy_ledger g)) ((sy_workers g)(w := None)) (sy_egress g)"
    by (intro system_ok_idle [OF assms(3)]) simp
  with crash assms(2) row_move.unchanged show ?thesis by simp
qed

lemma reachable_ok:
  assumes "reachable jobs spool validate l0 s0 g" and "invar l0" and "rows l0 = (\<lambda>_. None)"
  shows "invar (sy_ledger g) \<and> system_ok (rows (sy_ledger g)) (sy_workers g) (sy_egress g)"
  using assms(1)
proof (induction rule: reachable.induct)
  case start
  show ?case using assms(2,3) by (simp add: system_ok_def evidence_def)
next
  case (step g g')
  with step_preserves show ?case by blast
qed

text \<open>No submission is ever repeated.\<close>

lemma egress_once:
  assumes "reachable jobs spool validate l0 s0 g" and "invar l0" and "rows l0 = (\<lambda>_. None)"
  shows "distinct (map egress_key (sy_egress g))"
  using reachable_ok [OF assms] by (simp add: system_ok_def)

lemma covered_attempt_spent:
  "covered R i a \<Longrightarrow> covered R i b \<Longrightarrow> unat a < unat b \<Longrightarrow>
     \<exists>cur. R i = Some cur \<and> spent_attempt (job_state (sn_job cur)) (unat a)"
  by (auto simp: covered_def spent_attempt_def Suc_le_eq unat_gt_0)

text \<open>A later submission of the same job exists only after a retryable rejection of the earlier one.\<close>

lemma resubmission_evidence:
  assumes re: "reachable jobs spool validate l0 s0 g" and inv: "invar l0" "rows l0 = (\<lambda>_. None)"
    and e: "(i, a, answer) \<in> set (sy_egress g)" and e': "(i, b, answer') \<in> set (sy_egress g)"
    and ab: "unat a < unat b"
  shows "is_retryable_answer answer"
proof -
  have ok: "system_ok (rows (sy_ledger g)) (sy_workers g) (sy_egress g)"
    using reachable_ok [OF re inv] by blast
  then have "covered (rows (sy_ledger g)) i a" "covered (rows (sy_ledger g)) i b"
    using e e' unfolding system_ok_def by fastforce+
  then obtain cur where "rows (sy_ledger g) i = Some cur"
      "spent_attempt (job_state (sn_job cur)) (unat a)"
    using covered_attempt_spent [OF _ _ ab] by blast
  then obtain a' ans where a': "unat a' = unat a" "(i, a', ans) \<in> set (sy_egress g)" "is_retryable_answer ans"
    using system_ok_evidence [OF ok] unfolding evidence_def by blast
  then have "a' = a" by (simp add: word_unat_eq_iff)
  have "inj_on egress_key (set (sy_egress g))"
    using ok by (simp add: system_ok_def distinct_map)
  then have "(i, a', ans) = (i, a, answer)"
    by (rule inj_onD) (use a'(2) e \<open>a' = a\<close> in \<open>simp_all add: egress_key_def\<close>)
  with a'(3) show ?thesis by simp
qed

lemma terminal_row_final:
  assumes "sys_step jobs spool validate g g'" and "reachable jobs spool validate l0 s0 g"
    and "invar l0" and "rows l0 = (\<lambda>_. None)"
    and "rows (sy_ledger g) i = Some sn" and "is_terminal (job_state (sn_job sn))"
  shows "rows (sy_ledger g') i = Some sn"
proof -
  have "row_move (rows (sy_ledger g)) (rows (sy_ledger g'))"
    using step_preserves [OF assms(1)] reachable_ok [OF assms(2-4)] by blast
  then show ?thesis
  proof (cases rule: row_move.cases)
    case (advanced j old st)
    have "i \<noteq> j"
    proof
      assume "i = j"
      with advanced assms(5) have "lifecycle_edge (status (job_state (sn_job sn))) (status (job_state (sn_job st)))"
        by simp
      with assms(6) show False by (cases "job_state (sn_job sn)") simp_all
    qed
    with advanced assms(5) show ?thesis by simp
  qed (use assms(5) in auto)
qed

end

end
