(* ===== verification/Postgres_Store.thy ===== *)
theory Postgres_Store
  imports Records Batch_System
begin

text \<open>
  The PostgreSQL job ledger: \<^verbatim>\<open>crates/voicetext-gateway/src/storage/postgres.rs\<close>. The table is a list
  of rows with their primary keys; each SQL statement of the source is one function on it. A row
  written by another program may fail to decode, and that error is modelled. The store implements
  the contract \<open>job_ledger\<close>: this is the interpretation at the end. Statements are atomic, as the
  trait documents (linearizable); the re-read that follows an \<open>INSERT\<close> or a refused \<open>UPDATE\<close> is
  part of the call.
\<close>

section \<open>The table and its statements\<close>

record ('v, 't) db =
  db_codec :: "('v, 't) codec"
  db_table :: "(uuid \<times> ('v, 't) JobRecord) list"

definition invalid_snapshot :: "string \<Rightarrow> BatchJobStoreFailure" where
  "invalid_snapshot code = InvalidSnapshot (lit code)"

definition unavailable :: "string \<Rightarrow> BatchJobStoreFailure" where
  "unavailable code = StoreUnavailable (lit code)"

definition snapshot_failure :: "RecordError \<Rightarrow> BatchJobStoreFailure" where
  "snapshot_failure e = InvalidSnapshot e"

definition pg_canonical_uuid ::
  "('v, 't) codec \<Rightarrow> str \<Rightarrow> (uuid, BatchJobStoreFailure) result" where
  "pg_canonical_uuid cd value =
     (case cd_uuid_parse cd value of
        None \<Rightarrow> Err (invalid_snapshot ''INVALID_JOB_ID'')
      | Some u \<Rightarrow> if cd_uuid_text cd u \<noteq> value then Err (invalid_snapshot ''INVALID_JOB_ID'') else Ok u)"

text \<open>\<open>SELECT .. WHERE job_id = $1\<close>, decoded.\<close>

definition load_uuid ::
  "('v, 't) db \<Rightarrow> uuid \<Rightarrow> (BatchJobSnapshot option, BatchJobStoreFailure) result" where
  "load_uuid db u =
     map_err snapshot_failure
       (transpose_opt (map_option (snapshot_of_record (db_codec db)) (map_of (db_table db) u)))"

text \<open>\<open>INSERT .. ON CONFLICT (job_id) DO NOTHING\<close>: the table and \<open>rows_affected\<close>.\<close>

definition sql_insert ::
  "('v, 't) db \<Rightarrow> ('v, 't) JobRecord \<Rightarrow> ('v, 't) db \<times> nat" where
  "sql_insert db rec =
     (if map_of (db_table db) (jr_job_id rec) = None
      then (db\<lparr>db_table := db_table db @ [(jr_job_id rec, rec)]\<rparr>, 1) else (db, 0))"

definition insert_inner ::
  "fault \<Rightarrow> ('v, 't) db \<Rightarrow> BatchJobId \<Rightarrow> BatchJob \<Rightarrow> BatchAudioHandle \<Rightarrow> u64 \<Rightarrow> str list \<Rightarrow>
   ('v, 't) db \<times> (BatchJobInsertOutcome, BatchJobStoreFailure) result" where
  "insert_inner f db job_id job audio authoritative_duration_millis keyterms =
     (let snapshot =
        \<lparr>sn_id = job_id, sn_job = job, sn_audio = audio,
         sn_authoritative_duration_millis = authoritative_duration_millis,
         sn_keyterms = keyterms, sn_provider_reference = None, sn_retry_after_millis = None,
         sn_result = None, sn_revision = 0\<rparr> in
      case record_of_snapshot (db_codec db) snapshot of
        Err e \<Rightarrow> (db, Err (snapshot_failure e))
      | Ok rec \<Rightarrow>
          (case f of
             LostRequest e \<Rightarrow> (db, Err e)
           | LostReply e \<Rightarrow> (fst (sql_insert db rec), Err e)
           | Healthy \<Rightarrow>
               (case sql_insert db rec of
                  (db', rows_affected) \<Rightarrow>
                    (db', and_then (load_uuid db' (jr_job_id rec)) (\<lambda>loaded.
                          and_then (ok_or loaded (unavailable ''INSERTED_ROW_MISSING'')) (\<lambda>sn.
                          if rows_affected = 1 then Ok (Inserted sn) else Ok (Existing sn)))))))"

text \<open>The \<open>WHERE\<close> clause and the \<open>SET\<close> clause of the compare-and-swap.\<close>

definition cas_matches :: "int \<Rightarrow> ('v, 't) JobRecord \<Rightarrow> ('v, 't) JobRecord \<Rightarrow> bool" where
  "cas_matches expected rec row \<longleftrightarrow>
     jr_job_id row = jr_job_id rec \<and> jr_revision row = expected \<and>
     jr_contract_version row = jr_contract_version rec \<and> jr_provider row = jr_provider rec \<and>
     jr_model row = jr_model rec \<and> jr_language row = jr_language rec \<and>
     jr_fingerprint row = jr_fingerprint rec \<and> jr_audio_handle row = jr_audio_handle rec \<and>
     jr_authoritative_duration_millis row = jr_authoritative_duration_millis rec \<and>
     jr_keyterms row = jr_keyterms rec"

definition cas_set :: "('v, 't) JobRecord \<Rightarrow> ('v, 't) JobRecord \<Rightarrow> ('v, 't) JobRecord" where
  "cas_set rec row =
     row\<lparr>jr_state := jr_state rec, jr_attempt := jr_attempt rec,
         jr_failure_code := jr_failure_code rec, jr_unknown_reason := jr_unknown_reason rec,
         jr_provider_reference := jr_provider_reference rec,
         jr_retry_after_millis := jr_retry_after_millis rec, jr_result_json := jr_result_json rec,
         jr_result_text := jr_result_text rec, jr_revision := jr_revision row + 1\<rparr>"

text \<open>\<open>UPDATE .. RETURNING\<close>. A \<open>bigint\<close> revision that would overflow is a database error.\<close>

definition sql_update ::
  "('v, 't) db \<Rightarrow> int \<Rightarrow> ('v, 't) JobRecord \<Rightarrow>
   ('v, 't) db \<times> (('v, 't) JobRecord option, BatchJobStoreFailure) result" where
  "sql_update db expected rec =
     (case map_of (db_table db) (jr_job_id rec) of
        None \<Rightarrow> (db, Ok None)
      | Some row \<Rightarrow>
          if \<not> cas_matches expected rec row then (db, Ok None)
          else if jr_revision row + 1 \<ge> 2 ^ 63 then (db, Err (unavailable ''DATABASE_22003''))
          else (db\<lparr>db_table :=
                     map (\<lambda>(k, r). if k = jr_job_id rec then (k, cas_set rec row) else (k, r))
                       (db_table db)\<rparr>, Ok (Some (cas_set rec row))))"

definition compare_and_swap_inner ::
  "fault \<Rightarrow> ('v, 't) db \<Rightarrow> u64 \<Rightarrow> BatchJobSnapshot \<Rightarrow>
   ('v, 't) db \<times> (BatchJobUpdateOutcome, BatchJobStoreFailure) result" where
  "compare_and_swap_inner f db expected_revision replacement =
     (if sn_revision replacement \<noteq> expected_revision
      then (db, Err (invalid_snapshot ''REPLACEMENT_REVISION_MISMATCH''))
      else case record_of_snapshot (db_codec db) replacement of
        Err e \<Rightarrow> (db, Err (snapshot_failure e))
      | Ok rec \<Rightarrow>
          (case i64_of_u64 expected_revision of
             None \<Rightarrow> (db, Err (invalid_snapshot ''INVALID_EXPECTED_REVISION''))
           | Some expected \<Rightarrow>
               (case f of
                  LostRequest e \<Rightarrow> (db, Err e)
                | LostReply e \<Rightarrow> (fst (sql_update db expected rec), Err e)
                | Healthy \<Rightarrow>
                    (case sql_update db expected rec of
                       (db', Err e) \<Rightarrow> (db', Err e)
                     | (db', Ok (Some updated)) \<Rightarrow>
                         (db', map_ok Stored (map_err snapshot_failure
                                 (snapshot_of_record (db_codec db) updated)))
                     | (db', Ok None) \<Rightarrow>
                         (db', and_then (load_uuid db' (jr_job_id rec)) (\<lambda>loaded.
                            case loaded of
                              None \<Rightarrow> Ok MissingRow
                            | Some current \<Rightarrow>
                                if sn_revision current = expected_revision
                                   \<and> \<not> same_immutable current replacement
                                then Err (invalid_snapshot ''IMMUTABLE_IDENTITY_MISMATCH'')
                                else Ok (RevisionConflict current)))))))"

definition recoverable_state :: "str \<Rightarrow> bool" where
  "recoverable_state st \<longleftrightarrow> st \<in> {lit ''accepted'', lit ''retryable'', lit ''submitting''}"

text \<open>\<open>SELECT .. WHERE state IN .. ORDER BY job_id LIMIT n\<close>.\<close>

definition sql_recovery ::
  "('v, 't) db \<Rightarrow> uuid option \<Rightarrow> uuid option \<Rightarrow> nat \<Rightarrow> ('v, 't) JobRecord list" where
  "sql_recovery db after through limit =
     take limit (map snd (sort_key fst
       (filter (\<lambda>(k, r). recoverable_state (jr_state r)
                  \<and> (case after of None \<Rightarrow> True | Some u \<Rightarrow> k > u)
                  \<and> (case through of None \<Rightarrow> True | Some u \<Rightarrow> k \<le> u))
          (db_table db))))"

definition recovery_inner ::
  "fault \<Rightarrow> ('v, 't) db \<Rightarrow> BatchJobId option \<Rightarrow> BatchJobId option \<Rightarrow> usize \<Rightarrow>
   (BatchJobSnapshot list, BatchJobStoreFailure) result" where
  "recovery_inner f db after through maximum =
     (if maximum \<ge> 2 ^ 63 then Err (invalid_snapshot ''INVALID_RECOVERY_LIMIT'')
      else and_then (transpose_opt (map_option (pg_canonical_uuid (db_codec db)) after)) (\<lambda>after'.
           and_then (transpose_opt (map_option (pg_canonical_uuid (db_codec db)) through))
             (\<lambda>through'.
           case f of
             LostRequest e \<Rightarrow> Err e
           | LostReply e \<Rightarrow> Err e
           | Healthy \<Rightarrow>
               map_err snapshot_failure
                 (collect_results (map (snapshot_of_record (db_codec db))
                    (sql_recovery db after' through' maximum))))))"

definition recovery_head ::
  "fault \<Rightarrow> ('v, 't) db \<Rightarrow> (BatchJobId option, BatchJobStoreFailure) result" where
  "recovery_head f db =
     (case f of
        LostRequest e \<Rightarrow> Err e
      | LostReply e \<Rightarrow> Err e
      | Healthy \<Rightarrow>
          (let ids = sort (map fst (filter (\<lambda>(k, r). recoverable_state (jr_state r)) (db_table db))) in
           Ok (if ids = [] then None else Some (cd_uuid_text (db_codec db) (last ids)))))"

definition pg_load ::
  "fault \<Rightarrow> ('v, 't) db \<Rightarrow> BatchJobId \<Rightarrow> (BatchJobSnapshot option, BatchJobStoreFailure) result" where
  "pg_load f db job_id =
     and_then (pg_canonical_uuid (db_codec db) job_id) (\<lambda>u.
       case f of LostRequest e \<Rightarrow> Err e | LostReply e \<Rightarrow> Err e | Healthy \<Rightarrow> load_uuid db u)"

definition postgres_store :: "('v, 't) db job_store" where
  "postgres_store =
     \<lparr>js_load = pg_load, js_insert = insert_inner, js_compare_and_swap = compare_and_swap_inner,
      js_recovery_head = recovery_head,
      js_list_recovery_candidates = (\<lambda>f db after n. recovery_inner f db after None n),
      js_list_recovery_candidates_through = (\<lambda>f db after through n. recovery_inner f db after (Some through) n)\<rparr>"

section \<open>Invariant and abstraction\<close>

text \<open>Rows are images of well-formed snapshots under their key.\<close>

definition row_ok :: "('v, 't) codec \<Rightarrow> uuid \<Rightarrow> ('v, 't) JobRecord \<Rightarrow> bool" where
  "row_ok cd k rec \<longleftrightarrow>
     jr_job_id rec = k \<and> (\<exists>sn. wf_job (sn_job sn) \<and> record_of_snapshot cd sn = Ok rec)"

definition db_invar :: "('v, 't) db \<Rightarrow> bool" where
  "db_invar db \<longleftrightarrow>
     codec_laws (db_codec db) \<and> distinct (map fst (db_table db)) \<and>
     (\<forall>(k, rec) \<in> set (db_table db). row_ok (db_codec db) k rec)"

definition db_rows :: "('v, 't) db \<Rightarrow> rows" where
  "db_rows db job_id =
     (case canonical_uuid (db_codec db) job_id of
        Err _ \<Rightarrow> None
      | Ok u \<Rightarrow>
          (case map_of (db_table db) u of
             None \<Rightarrow> None
           | Some rec \<Rightarrow>
               (case snapshot_of_record (db_codec db) rec of Ok sn \<Rightarrow> Some sn | Err _ \<Rightarrow> None)))"

section \<open>Facts about rows\<close>

lemma pg_canonical_uuid_Ok: "pg_canonical_uuid cd v = Ok u \<longleftrightarrow> canonical_uuid cd v = Ok u"
  by (auto simp: pg_canonical_uuid_def canonical_uuid_def split: option.splits)

lemma canonical_of_text: "codec_laws cd \<Longrightarrow> canonical_uuid cd (cd_uuid_text cd u) = Ok u"
  by (simp add: codec_laws_def canonical_uuid_def)

lemma record_fields:
  assumes "record_of_snapshot cd sn = Ok rec"
  shows "canonical_uuid cd (sn_id sn) = Ok (jr_job_id rec)"
    and "i64_of_u64 (sn_revision sn) = Some (jr_revision rec)"
    and "i16_of_u16 (bp_contract_version (job_profile (sn_job sn))) = Some (jr_contract_version rec)"
    and "jr_provider rec = bp_provider (job_profile (sn_job sn))"
    and "jr_model rec = bp_model (job_profile (sn_job sn))"
    and "jr_language rec = bp_language (job_profile (sn_job sn))"
    and "jr_fingerprint rec = job_fingerprint (sn_job sn)"
    and "jr_audio_handle rec = sn_audio sn"
    and "i64_of_u64 (sn_authoritative_duration_millis sn) = Some (jr_authoritative_duration_millis rec)"
    and "jr_keyterms rec = cd_keyterms_value cd (sn_keyterms sn)"
proof -
  obtain st a c u where fl: "flatten_state (job_state (sn_job sn)) = (st, a, c, u)"
    by (cases "flatten_state (job_state (sn_job sn))")
  show "canonical_uuid cd (sn_id sn) = Ok (jr_job_id rec)"
    "i64_of_u64 (sn_revision sn) = Some (jr_revision rec)"
    "i16_of_u16 (bp_contract_version (job_profile (sn_job sn))) = Some (jr_contract_version rec)"
    "jr_provider rec = bp_provider (job_profile (sn_job sn))"
    "jr_model rec = bp_model (job_profile (sn_job sn))"
    "jr_language rec = bp_language (job_profile (sn_job sn))"
    "jr_fingerprint rec = job_fingerprint (sn_job sn)" "jr_audio_handle rec = sn_audio sn"
    "i64_of_u64 (sn_authoritative_duration_millis sn) = Some (jr_authoritative_duration_millis rec)"
    "jr_keyterms rec = cd_keyterms_value cd (sn_keyterms sn)"
    by (rule record_parts [OF assms fl]; simp)+
qed

lemma serialize_result_revision [simp]:
  "serialize_result cd (sn\<lparr>sn_revision := r\<rparr>) = serialize_result cd sn"
  by (simp add: serialize_result_def fun_eq_iff)

lemma record_revision:
  assumes enc: "record_of_snapshot cd sn = Ok rec" and "i64_of_u64 r = Some i"
  shows "record_of_snapshot cd (sn\<lparr>sn_revision := r\<rparr>) = Ok (rec\<lparr>jr_revision := i\<rparr>)"
proof -
  obtain st a c u where fl: "flatten_state (job_state (sn_job sn)) = (st, a, c, u)"
    by (cases "flatten_state (job_state (sn_job sn))")
  show ?thesis
    by (rule record_parts [OF enc fl])
      (simp add: record_of_snapshot_def Let_def fl assms(2) del: transpose_opt_Ok_iff lit_Cons)
qed

lemma i64_next:
  assumes "i64_of_u64 r = Some i" and "i + 1 < 2 ^ 63"
  shows "i64_of_u64 (r + 1) = Some (i + 1)" and "unat (r + 1) = unat r + 1"
proof -
  have i: "i = int (unat r)" using assms(1) by (simp add: i64_of_u64_def split: if_splits)
  have "int (unat r + 1) < int (2 ^ 63)" using assms(2) i by simp
  then have lt: "unat r + 1 < 2 ^ 63" by (simp only: of_nat_less_iff)
  then show "unat (r + 1) = unat r + 1" by (simp add: unat_word_ariths)
  with lt i show "i64_of_u64 (r + 1) = Some (i + 1)" by (simp add: i64_of_u64_def)
qed

text \<open>The updated row is the written record with the next revision.\<close>

lemma cas_set_eq:
  "cas_matches expected rec row \<Longrightarrow> cas_set rec row = rec\<lparr>jr_revision := jr_revision row + 1\<rparr>"
  by (simp add: cas_matches_def cas_set_def)

lemma lookup_row:
  assumes "db_invar db" and "map_of (db_table db) u = Some rec"
  obtains sn where "wf_job (sn_job sn)" and "record_of_snapshot (db_codec db) sn = Ok rec"
    and "snapshot_of_record (db_codec db) rec = Ok (untyped sn)" and "jr_job_id rec = u"
proof -
  have "row_ok (db_codec db) u rec"
    using assms map_of_SomeD [OF assms(2)] by (auto simp: db_invar_def)
  then obtain sn where "wf_job (sn_job sn)" "record_of_snapshot (db_codec db) sn = Ok rec"
      "jr_job_id rec = u" by (auto simp: row_ok_def)
  then show thesis using that record_roundtrip_untyped assms(1) by (auto simp: db_invar_def)
qed

lemma db_rows_eq:
  assumes "db_invar db" and "canonical_uuid (db_codec db) i = Ok u"
  shows "load_uuid db u = Ok (db_rows db i)"
proof (cases "map_of (db_table db) u")
  case None
  then show ?thesis using assms(2) by (simp add: load_uuid_def db_rows_def)
next
  case (Some rec)
  then obtain sn where "snapshot_of_record (db_codec db) rec = Ok (untyped sn)"
    using lookup_row [OF assms(1)] by blast
  with Some assms(2) show ?thesis by (simp add: load_uuid_def db_rows_def)
qed

lemma db_rows_row:
  assumes inv: "db_invar db" and row: "db_rows db i = Some sn"
  obtains rec sn0 where "map_of (db_table db) (jr_job_id rec) = Some rec"
    and "canonical_uuid (db_codec db) i = Ok (jr_job_id rec)"
    and "record_of_snapshot (db_codec db) sn0 = Ok rec" and "wf_job (sn_job sn0)"
    and "sn = untyped sn0" and "sn_id sn = i" and "wf_job (sn_job sn)"
proof -
  obtain u rec where u: "canonical_uuid (db_codec db) i = Ok u" "map_of (db_table db) u = Some rec"
      "snapshot_of_record (db_codec db) rec = Ok sn"
    using row by (auto simp: db_rows_def split: result.splits option.splits)
  obtain sn0 where sn0: "wf_job (sn_job sn0)" "record_of_snapshot (db_codec db) sn0 = Ok rec"
      "snapshot_of_record (db_codec db) rec = Ok (untyped sn0)" "jr_job_id rec = u"
    using lookup_row [OF inv u(2)] by blast
  have "sn_id sn = i"
    using snapshot_of_record_stored(2) [OF u(3)] sn0(4) canonical_uuid_Ok [OF u(1)] by simp
  then show thesis
    using that [of rec sn0] u sn0 snapshot_of_record_stored(1) [OF u(3)] by (simp add: stored_snapshot_def)
qed

lemma canonical_inject:
  "canonical_uuid cd i = Ok u \<Longrightarrow> canonical_uuid cd j = Ok u \<Longrightarrow> i = j"
  by (metis canonical_uuid_Ok)

text \<open>Changing the row of one key changes the abstract table at one identity.\<close>

lemma db_rows_update:
  assumes "canonical_uuid (db_codec db) i = Ok u"
    and "\<And>k. k \<noteq> u \<Longrightarrow> map_of tab k = map_of (db_table db) k"
    and "map_of tab u = Some rec" and "snapshot_of_record (db_codec db) rec = Ok sn"
  shows "db_rows (db\<lparr>db_table := tab\<rparr>) = (db_rows db)(i \<mapsto> sn)"
proof
  fix j
  show "db_rows (db\<lparr>db_table := tab\<rparr>) j = ((db_rows db)(i \<mapsto> sn)) j"
  proof (cases "canonical_uuid (db_codec db) j")
    case (Err e)
    with assms(1) have "j \<noteq> i" by auto
    with Err show ?thesis by (simp add: db_rows_def)
  next
    case (Ok k)
    show ?thesis
    proof (cases "k = u")
      case True
      with Ok assms(1) have "j = i" using canonical_inject by blast
      with assms Ok True show ?thesis by (simp add: db_rows_def)
    next
      case False
      with Ok assms(1) have "j \<noteq> i" by auto
      with Ok False assms(2) [of k] show ?thesis
        by (cases "map_of (db_table db) k") (simp_all add: db_rows_def)
    qed
  qed
qed

text \<open>Encoded immutable columns agree exactly when the snapshots' immutable parts do.\<close>

lemma i64_inject: "i64_of_u64 a = Some i \<Longrightarrow> i64_of_u64 b = Some i \<Longrightarrow> a = b"
  using u64_i64_roundtrip by (metis option.inject)

lemma i16_inject: "i16_of_u16 a = Some i \<Longrightarrow> i16_of_u16 b = Some i \<Longrightarrow> a = b"
  using u16_i16_roundtrip by (metis option.inject)

lemma matches_same_immutable:
  assumes laws: "codec_laws cd" and a: "record_of_snapshot cd sn0 = Ok row"
    and b: "record_of_snapshot cd sn = Ok rec" and m: "cas_matches expected rec row"
  shows "same_immutable sn0 sn"
proof -
  note fa = record_fields [OF a] and fb = record_fields [OF b]
  have "bp_contract_version (job_profile (sn_job sn0)) = bp_contract_version (job_profile (sn_job sn))"
    by (rule i16_inject [OF fa(3)]) (use fb(3) m in \<open>simp add: cas_matches_def\<close>)
  then have "job_profile (sn_job sn0) = job_profile (sn_job sn)"
    using fa(4-6) fb(4-6) m by (simp add: cas_matches_def)
  moreover have "sn_id sn0 = sn_id sn"
    by (rule canonical_inject [OF fa(1)]) (use fb(1) m in \<open>simp add: cas_matches_def\<close>)
  moreover have "sn_authoritative_duration_millis sn0 = sn_authoritative_duration_millis sn"
    by (rule i64_inject [OF fa(9)]) (use fb(9) m in \<open>simp add: cas_matches_def\<close>)
  moreover have "sn_keyterms sn0 = sn_keyterms sn"
    using fa(10) fb(10) m laws by (metis cas_matches_def codec_laws_def option.inject)
  ultimately show ?thesis
    using fa(7,8) fb(7,8) m by (simp add: cas_matches_def same_immutable_def)
qed

lemma same_immutable_matches:
  assumes "record_of_snapshot cd sn0 = Ok row" and "record_of_snapshot cd sn = Ok rec"
    and "same_immutable sn0 sn" and "sn_revision sn0 = sn_revision sn"
    and "i64_of_u64 (sn_revision sn) = Some expected"
  shows "cas_matches expected rec row"
  using record_fields [OF assms(1)] record_fields [OF assms(2)] assms(3-5)
  by (simp add: same_immutable_def cas_matches_def)

section \<open>Statements keep the invariant\<close>

lemma sql_insert_effect:
  assumes inv: "db_invar db" and wf: "wf_job (sn_job sn)"
    and enc: "record_of_snapshot (db_codec db) sn = Ok rec" and ins: "sql_insert db rec = (db', n)"
  shows "db_invar db' \<and> db_codec db' = db_codec db \<and>
    (n = 1 \<and> db_rows db (sn_id sn) = None \<and> db_rows db' = (db_rows db)(sn_id sn \<mapsto> untyped sn) \<or>
     n = 0 \<and> db' = db \<and> db_rows db (sn_id sn) \<noteq> None)"
proof (cases "map_of (db_table db) (jr_job_id rec)")
  case None
  note can = record_fields(1) [OF enc]
  have db': "db' = db\<lparr>db_table := db_table db @ [(jr_job_id rec, rec)]\<rparr>" "n = 1"
    using ins None by (simp_all add: sql_insert_def)
  have laws: "codec_laws (db_codec db)" using inv by (simp add: db_invar_def)
  have rows: "db_rows db' = (db_rows db)(sn_id sn \<mapsto> untyped sn)"
    unfolding db'
    by (rule db_rows_update [OF can _ _ record_roundtrip_untyped [OF laws wf enc]])
      (use None in \<open>auto simp: map_add_def split: option.splits\<close>)
  have "jr_job_id rec \<notin> fst ` set (db_table db)"
    using None by (metis domIff dom_map_of_conv_image_fst)
  then have "db_invar db'"
    using inv wf enc unfolding db' by (auto simp: db_invar_def row_ok_def)
  moreover have "db_rows db (sn_id sn) = None" using None can by (simp add: db_rows_def)
  ultimately show ?thesis using rows db' by simp
next
  case (Some row)
  then obtain sn0 where "snapshot_of_record (db_codec db) row = Ok (untyped sn0)"
    using lookup_row [OF inv] by blast
  with Some ins inv record_fields(1) [OF enc] show ?thesis
    by (simp add: sql_insert_def db_rows_def)
qed

lemma map_of_map_update:
  "map_of (map (\<lambda>(k, r). if k = u then (k, v) else (k, r)) xs) j =
     (if j = u then map_option (\<lambda>_. v) (map_of xs u) else map_of xs j)"
  by (induction xs) auto

lemma map_fst_map_update:
  "map fst (map (\<lambda>(k, r). if k = u then (k, v) else (k, r)) xs) = map fst xs"
  by (induction xs) auto

lemma sql_update_effect:
  assumes inv: "db_invar db" and wf: "wf_job (sn_job sn)"
    and enc: "record_of_snapshot (db_codec db) sn = Ok rec"
    and rev: "i64_of_u64 (sn_revision sn) = Some expected"
    and upd: "sql_update db expected rec = (db', out)"
  shows "db_invar db' \<and> db_codec db' = db_codec db \<and>
    (db' = db \<and> (\<forall>r. out \<noteq> Ok (Some r)) \<or>
     (\<exists>row st. out = Ok (Some row) \<and> snapshot_of_record (db_codec db) row = Ok st \<and>
        swapped (db_rows db) (db_rows db') (sn_revision sn) sn st))"
proof (cases "map_of (db_table db) (jr_job_id rec)")
  case None
  with upd inv show ?thesis by (auto simp: sql_update_def)
next
  case (Some row)
  show ?thesis
  proof (cases "cas_matches expected rec row \<and> jr_revision row + 1 < 2 ^ 63")
    case False
    with Some upd inv show ?thesis by (auto simp: sql_update_def split: if_splits)
  next
    case True
    let ?new = "cas_set rec row" and ?sn' = "sn\<lparr>sn_revision := sn_revision sn + 1\<rparr>"
    have laws: "codec_laws (db_codec db)" using inv by (simp add: db_invar_def)
    note can = record_fields(1) [OF enc]
    have db': "db' = db\<lparr>db_table := map (\<lambda>(k, r). if k = jr_job_id rec then (k, ?new) else (k, r))
        (db_table db)\<rparr>" "out = Ok (Some ?new)"
      using True Some upd by (auto simp: sql_update_def)
    have rrev: "jr_revision row = expected" using True by (simp add: cas_matches_def)
    note nx = i64_next [OF rev] and new = cas_set_eq [OF conjunct1 [OF True]]
    have enc': "record_of_snapshot (db_codec db) ?sn' = Ok ?new"
      using record_revision [OF enc nx(1)] True rrev new by simp
    have wf': "wf_job (sn_job ?sn')" using wf by simp
    have dec: "snapshot_of_record (db_codec db) ?new = Ok (untyped ?sn')"
      by (rule record_roundtrip_untyped [OF laws wf' enc'])
    have rows: "db_rows db' = (db_rows db)(sn_id sn \<mapsto> untyped ?sn')"
      unfolding db'
      by (rule db_rows_update [OF can _ _ dec]) (simp_all add: map_of_map_update Some)
    have "row_ok (db_codec db) (jr_job_id rec) ?new"
      unfolding row_ok_def using enc' wf' new by (intro conjI exI [of _ ?sn']) simp_all
    then have inv': "db_invar db'"
      using inv unfolding db'(1) db_invar_def
      by (simp add: map_fst_map_update del: map_map) (auto split: if_splits)
    obtain sn0 where sn0: "record_of_snapshot (db_codec db) sn0 = Ok row"
        "snapshot_of_record (db_codec db) row = Ok (untyped sn0)"
      using lookup_row [OF inv Some] by blast
    have old: "db_rows db (sn_id sn) = Some (untyped sn0)"
      using Some can sn0(2) by (simp add: db_rows_def)
    have "sn_revision sn0 = sn_revision sn"
      using record_fields(2) [OF sn0(1)] rev rrev u64_i64_roundtrip by (metis option.inject)
    moreover have "same_immutable sn0 sn"
      using matches_same_immutable [OF laws sn0(1) enc] True by blast
    ultimately have "swapped (db_rows db) (db_rows db') (sn_revision sn) sn (untyped ?sn')"
      using old rows nx(2) True rrev
      by (simp add: swapped_def untyped_def same_immutable_def)
    then show ?thesis using inv' dec db' by auto
  qed
qed

section \<open>The store implements the ledger contract\<close>

lemma pg_load_law:
  assumes "db_invar db" and "pg_load f db i = Ok found"
  shows "found = db_rows db i"
proof -
  obtain u where "canonical_uuid (db_codec db) i = Ok u" "load_uuid db u = Ok found"
    using assms(2) by (cases f) (auto simp: pg_load_def pg_canonical_uuid_Ok)
  with db_rows_eq [OF assms(1)] show ?thesis by simp
qed

lemma untyped_initial [simp]:
  "untyped (initial_snapshot i job a d k) = initial_snapshot i job a d k"
  by (simp add: untyped_def initial_snapshot_def untyped_reference_def)

lemma insert_inner_effect:
  assumes inv: "db_invar db" and wf: "wf_job job"
    and ins: "insert_inner f db i job a d k = (db', out)"
  shows "db_invar db' \<and>
    (db_rows db' = db_rows db \<and> (\<forall>sn. out \<noteq> Ok (Inserted sn)) \<and>
       (\<forall>sn. out = Ok (Existing sn) \<longrightarrow> db_rows db i = Some sn) \<or>
     db_rows db i = None \<and> db_rows db' = (db_rows db)(i \<mapsto> initial_snapshot i job a d k) \<and>
       (\<forall>sn. out \<noteq> Ok (Existing sn)) \<and>
       (\<forall>sn. out = Ok (Inserted sn) \<longrightarrow> sn = initial_snapshot i job a d k))"
proof -
  let ?sn = "initial_snapshot i job a d k"
  note insert_inner_eq = insert_inner_def [folded initial_snapshot_def]
  show ?thesis
  proof (cases "record_of_snapshot (db_codec db) ?sn")
    case (Err e)
    with ins inv show ?thesis by (auto simp: insert_inner_eq)
  next
    case (Ok rec)
    have wf': "wf_job (sn_job ?sn)" using wf by (simp add: initial_snapshot_def)
    have ids: "sn_id ?sn = i" by (simp add: initial_snapshot_def)
    obtain db1 n where q: "sql_insert db rec = (db1, n)" by fastforce
    note eff = sql_insert_effect [OF inv wf' Ok q, unfolded ids untyped_initial]
    have "canonical_uuid (db_codec db1) i = Ok (jr_job_id rec)"
      using record_fields(1) [OF Ok] ids eff by simp
    then have load: "load_uuid db1 (jr_job_id rec) = Ok (db_rows db1 i)" using db_rows_eq eff by blast
    show ?thesis
    proof (cases f)
      case Healthy
      with ins Ok q load eff show ?thesis
        by (cases "n = 1") (auto simp: insert_inner_eq)
    next
      case (LostRequest e)
      with ins Ok inv show ?thesis by (auto simp: insert_inner_eq)
    next
      case (LostReply e)
      with ins Ok q eff show ?thesis by (auto simp: insert_inner_eq)
    qed
  qed
qed

text \<open>An \<open>UPDATE\<close> that matched no row met another revision or another identity.\<close>

lemma refused_not_current:
  assumes inv: "db_invar db" and enc: "record_of_snapshot (db_codec db) rp = Ok rec"
    and rev: "sn_revision rp = revision" "i64_of_u64 revision = Some ex"
    and q: "snd (sql_update db ex rec) = Ok None" and cur: "db_rows db (sn_id rp) = Some cur"
  shows "\<not> (sn_revision cur = revision \<and> same_immutable cur rp)"
proof
  assume same: "sn_revision cur = revision \<and> same_immutable cur rp"
  obtain row sn0 where row: "map_of (db_table db) (jr_job_id row) = Some row"
      "canonical_uuid (db_codec db) (sn_id rp) = Ok (jr_job_id row)"
      "record_of_snapshot (db_codec db) sn0 = Ok row" "cur = untyped sn0"
    using db_rows_row [OF inv cur] by blast
  have id: "jr_job_id row = jr_job_id rec" using row(2) record_fields(1) [OF enc] by simp
  have "cas_matches ex rec row"
    by (rule same_immutable_matches [OF row(3) enc])
      (use same rev row(4) in \<open>simp_all add: untyped_def same_immutable_def\<close>)
  with row(1) id q show False by (simp add: sql_update_def split: if_splits)
qed

lemma cas_inner_effect:
  assumes inv: "db_invar db" and wf: "wf_job (sn_job rp)"
    and cas: "compare_and_swap_inner f db revision rp = (db', out)"
  shows "db_invar db' \<and>
    ((\<exists>st. swapped (db_rows db) (db_rows db') revision rp st \<and> (out = Ok (Stored st) \<or> (\<exists>e. out = Err e))) \<or>
     db' = db \<and>
       (case out of Err _ \<Rightarrow> True
        | Ok (Stored _) \<Rightarrow> False
        | Ok (RevisionConflict cur) \<Rightarrow> db_rows db (sn_id rp) = Some cur \<and> sn_revision cur \<noteq> revision
        | Ok MissingRow \<Rightarrow> db_rows db (sn_id rp) = None))"
proof (cases "sn_revision rp = revision \<and> (\<exists>rec. record_of_snapshot (db_codec db) rp = Ok rec)")
  case False
  with cas inv show ?thesis
    by (cases "record_of_snapshot (db_codec db) rp")
      (auto simp: compare_and_swap_inner_def split: if_splits)
next
  case True
  then obtain rec where rev: "sn_revision rp = revision"
    and enc: "record_of_snapshot (db_codec db) rp = Ok rec" by blast
  obtain ex where ex: "i64_of_u64 revision = Some ex" using record_fields(2) [OF enc] rev by blast
  obtain db1 q where q: "sql_update db ex rec = (db1, q)" by fastforce
  note eff = sql_update_effect [OF inv wf enc ex [folded rev] q, unfolded rev]
  show ?thesis
  proof (cases f)
    case Healthy
    show ?thesis
    proof (cases "\<exists>r. q = Ok (Some r)")
      case True
      then obtain row where row: "q = Ok (Some row)" by blast
      with eff obtain st where st: "snapshot_of_record (db_codec db) row = Ok st"
          "swapped (db_rows db) (db_rows db1) revision rp st" "db_invar db1" by auto
      with cas Healthy rev enc ex q row show ?thesis by (auto simp: compare_and_swap_inner_def)
    next
      case False
      with eff have db1: "db1 = db" by auto
      have can: "canonical_uuid (db_codec db) (sn_id rp) = Ok (jr_job_id rec)"
        by (rule record_fields(1) [OF enc])
      note load = db_rows_eq [OF inv can]
      show ?thesis
      proof (cases q)
        case (Err e)
        with cas Healthy rev enc ex q db1 inv show ?thesis by (auto simp: compare_and_swap_inner_def)
      next
        case (Ok r)
        with False have r: "r = None" by (cases r) auto
        show ?thesis
        proof (cases "db_rows db (sn_id rp)")
          case None
          with cas Healthy rev enc ex q db1 inv Ok r load show ?thesis
            by (auto simp: compare_and_swap_inner_def)
        next
          case (Some cur)
          have "\<not> (sn_revision cur = revision \<and> same_immutable cur rp)"
            by (rule refused_not_current [OF inv enc rev ex _ Some]) (use q Ok r in simp)
          with Some cas Healthy rev enc ex q db1 inv Ok r load show ?thesis
            by (auto simp: compare_and_swap_inner_def split: if_splits)
        qed
      qed
    qed
  next
    case (LostRequest e)
    with cas rev enc ex inv show ?thesis by (auto simp: compare_and_swap_inner_def)
  next
    case (LostReply e)
    with cas rev enc ex q eff show ?thesis by (auto simp: compare_and_swap_inner_def)
  qed
qed

lemma sql_recovery_subset:
  assumes "rec \<in> set (sql_recovery db a t n)"
  shows "\<exists>k. (k, rec) \<in> set (db_table db)"
proof -
  have "rec \<in> snd ` set (sort_key fst (filter (\<lambda>(k, r). recoverable_state (jr_state r)
      \<and> (case a of None \<Rightarrow> True | Some u \<Rightarrow> k > u) \<and> (case t of None \<Rightarrow> True | Some u \<Rightarrow> k \<le> u)) (db_table db)))"
    using assms unfolding sql_recovery_def by (auto dest: in_set_takeD)
  then show ?thesis by auto
qed

lemma recovery_law:
  assumes inv: "db_invar db" and listed: "recovery_inner f db a t n = Ok sns" and sn: "sn \<in> set sns"
  shows "db_rows db (sn_id sn) = Some sn"
proof -
  obtain a' t' where "collect_results (map (snapshot_of_record (db_codec db)) (sql_recovery db a' t' n)) = Ok sns"
    using listed by (cases f) (auto simp: recovery_inner_def split: if_splits)
  then have m: "map (snapshot_of_record (db_codec db)) (sql_recovery db a' t' n) = map Ok sns"
    by (simp add: collect_results_Ok_iff)
  have "Ok sn \<in> set (map (snapshot_of_record (db_codec db)) (sql_recovery db a' t' n))"
    unfolding m using sn by simp
  then obtain rec where rec: "rec \<in> set (sql_recovery db a' t' n)"
      "snapshot_of_record (db_codec db) rec = Ok sn" by auto
  then obtain k where k: "(k, rec) \<in> set (db_table db)" using sql_recovery_subset by blast
  then have look: "map_of (db_table db) k = Some rec" "jr_job_id rec = k" and laws: "codec_laws (db_codec db)"
    using inv by (auto simp: db_invar_def row_ok_def)
  have "sn_id sn = cd_uuid_text (db_codec db) k"
    using snapshot_of_record_stored(2) [OF rec(2)] look(2) by simp
  then have "canonical_uuid (db_codec db) (sn_id sn) = Ok k" using canonical_of_text [OF laws] by simp
  with look(1) rec(2) show ?thesis by (simp add: db_rows_def)
qed

interpretation pg: job_ledger postgres_store db_invar db_rows
proof
  fix l :: "('v, 't) db" and f i found sn
  assume inv: "db_invar l"
  show "js_load postgres_store f l i = Ok found \<Longrightarrow> found = db_rows l i"
    using pg_load_law [OF inv] by (simp add: postgres_store_def)
  show "db_rows l i = Some sn \<Longrightarrow> sn_id sn = i \<and> wf_job (sn_job sn)"
    using db_rows_row [OF inv] by metis
next
  fix l l' :: "('v, 't) db" and f i job a d k inserted
  assume inv: "db_invar l" and wf: "wf_job job"
    and ins: "js_insert postgres_store f l i job a d k = (l', inserted)"
  note eff = insert_inner_effect [OF inv wf, of f i a d k l' inserted]
  have i: "insert_inner f l i job a d k = (l', inserted)" using ins by (simp add: postgres_store_def)
  show "db_invar l'" using eff [OF i] by blast
  show "db_rows l' = db_rows l \<or> db_rows l i = None \<and>
      db_rows l' = (db_rows l)(i \<mapsto> initial_snapshot i job a d k)"
    using eff [OF i] by blast
  show "(\<forall>sn. inserted = Ok (Inserted sn) \<longrightarrow> db_rows l i = None \<and> db_rows l' i = Some sn) \<and>
      (\<forall>sn. inserted = Ok (Existing sn) \<longrightarrow> db_rows l' = db_rows l \<and> db_rows l i = Some sn)"
    using eff [OF i] by auto
next
  fix l l' :: "('v, 't) db" and rp f revision updated
  assume inv: "db_invar l" and wf: "wf_job (sn_job rp)"
    and cas: "js_compare_and_swap postgres_store f l revision rp = (l', updated)"
  have c: "compare_and_swap_inner f l revision rp = (l', updated)"
    using cas by (simp add: postgres_store_def)
  show "db_invar l'" using cas_inner_effect [OF inv wf c] by blast
  show "db_rows l' = db_rows l \<or> (\<exists>st. swapped (db_rows l) (db_rows l') revision rp st)"
    using cas_inner_effect [OF inv wf c] by blast
next
  fix l l' :: "('v, 't) db" and rp f revision st
  assume inv: "db_invar l" and wf: "wf_job (sn_job rp)"
    and cas: "js_compare_and_swap postgres_store f l revision rp = (l', Ok (Stored st))"
  have c: "compare_and_swap_inner f l revision rp = (l', Ok (Stored st))"
    using cas by (simp add: postgres_store_def)
  show "swapped (db_rows l) (db_rows l') revision rp st"
    using cas_inner_effect [OF inv wf c] by auto
next
  fix l l' :: "('v, 't) db" and rp f revision out
  assume inv: "db_invar l" and wf: "wf_job (sn_job rp)"
    and cas: "js_compare_and_swap postgres_store f l revision rp = (l', Ok out)"
    and ns: "\<forall>st. out \<noteq> Stored st"
  have c: "compare_and_swap_inner f l revision rp = (l', Ok out)"
    using cas by (simp add: postgres_store_def)
  show "db_rows l' = db_rows l \<and>
      (case out of RevisionConflict cur \<Rightarrow> db_rows l (sn_id rp) = Some cur \<and> sn_revision cur \<noteq> revision
       | MissingRow \<Rightarrow> db_rows l (sn_id rp) = None | Stored _ \<Rightarrow> False)"
    using cas_inner_effect [OF inv wf c] ns by (cases out) auto
next
  fix l :: "('v, 't) db" and f after n sns sn
  assume "db_invar l" "js_list_recovery_candidates postgres_store f l after n = Ok sns" "sn \<in> set sns"
  then show "db_rows l (sn_id sn) = Some sn" using recovery_law by (simp add: postgres_store_def)
next
  fix l :: "('v, 't) db" and f after through n sns sn
  assume "db_invar l"
    "js_list_recovery_candidates_through postgres_store f l after through n = Ok sns" "sn \<in> set sns"
  then show "db_rows l (sn_id sn) = Some sn" using recovery_law by (simp add: postgres_store_def)
qed

section \<open>A current writer succeeds\<close>

lemma cas_succeeds:
  assumes inv: "db_invar db" and wf: "wf_job (sn_job rp)"
    and enc: "record_of_snapshot (db_codec db) rp = Ok rec"
    and cur: "db_rows db (sn_id rp) = Some cur" "sn_revision cur = sn_revision rp" "same_immutable cur rp"
    and room: "unat (sn_revision rp) + 1 < 2 ^ 63"
  shows "\<exists>db' st. compare_and_swap_inner Healthy db (sn_revision rp) rp = (db', Ok (Stored st)) \<and>
    db_invar db' \<and> db_codec db' = db_codec db \<and>
    swapped (db_rows db) (db_rows db') (sn_revision rp) rp st"
proof -
  obtain ex where ex: "i64_of_u64 (sn_revision rp) = Some ex" using record_fields(2) [OF enc] by blast
  obtain db' out where q: "sql_update db ex rec = (db', out)" by fastforce
  have "out \<noteq> Ok None"
    using refused_not_current [OF inv enc refl ex _ cur(1)] q cur(2,3) by auto
  moreover have "out \<noteq> Err e" for e
  proof -
    have "int (unat (sn_revision rp) + 1) < int (2 ^ 63)" using room by (simp only: of_nat_less_iff)
    moreover have "ex = int (unat (sn_revision rp))"
      using ex by (simp add: i64_of_u64_def split: if_splits)
    ultimately have "ex + 1 < 2 ^ 63" by simp
    with q show ?thesis by (auto simp: sql_update_def cas_matches_def split: option.splits if_splits)
  qed
  ultimately obtain r where out: "out = Ok (Some r)" by (metis option.exhaust result.exhaust)
  with sql_update_effect [OF inv wf enc ex q] obtain st where
    st: "snapshot_of_record (db_codec db) r = Ok st" "db_invar db'" "db_codec db' = db_codec db"
      "swapped (db_rows db) (db_rows db') (sn_revision rp) rp st"
    by auto
  then show ?thesis using q out enc ex by (auto simp: compare_and_swap_inner_def)
qed

section \<open>A sample run\<close>

text \<open>
  One admission and two executions on an empty table: the first submission is answered
  \<open>known not accepted, retryable\<close>, the second one is sent.
\<close>

definition sample_job_in :: "BatchJobState \<Rightarrow> u64 \<Rightarrow> BatchJobSnapshot" where
  "sample_job_in st rv =
     \<lparr>sn_id = [7],
      sn_job = \<lparr>job_profile = job_profile (sn_job sample_snapshot), job_fingerprint = replicate 32 0,
               job_state = st\<rparr>,
      sn_audio = sn_audio stored_sample, sn_authoritative_duration_millis = 1000, sn_keyterms = [],
      sn_provider_reference = None, sn_retry_after_millis = None, sn_result = None, sn_revision = rv\<rparr>"

definition sample_admission :: BatchAdmissionRequest where
  "sample_admission =
     \<lparr>bar_id = [7], bar_profile = job_profile (sn_job sample_snapshot),
      bar_fingerprint = replicate 32 0, bar_audio = [1],
      bar_authoritative_duration_millis = 1000, bar_keyterms = []\<rparr>"

definition sample_spool :: "unit audio_spool" where
  "sample_spool =
     \<lparr>as_store = (\<lambda>_ s _ _. (s, Ok (AudioStored (sn_audio stored_sample)))),
      as_read = (\<lambda>_ _ _. Ok [1]), as_remove = (\<lambda>_ s _. (s, Ok Removed))\<rparr>"

definition empty_db :: "(str list + ResultRecord, ResultRecord) db" where
  "empty_db = \<lparr>db_codec = sample_codec, db_table = []\<rparr>"

definition retryable_answer :: "(BatchRecognitionResult, RecognitionFailure) result" where
  "retryable_answer = Err (KnownNotAccepted True [120] None None)"

definition sample_env :: step_env where
  "sample_env = \<lparr>en_fault = Healthy, en_io = None, en_answer = retryable_answer\<rparr>"

lemma empty_db_invar: "db_invar empty_db" and empty_db_rows: "db_rows empty_db = (\<lambda>_. None)"
  by (auto simp: db_invar_def empty_db_def sample_codec_laws db_rows_def fun_eq_iff split: result.splits)

lemma sample_handle: "validate_handle (sn_audio stored_sample) [7] = Ok ()"
  using stored_sample_handle by (simp add: stored_sample_def sample_snapshot_def)

lemma sample_encodes:
  assumes "\<not> is_completed st" and "unat rv < 2 ^ 63"
  shows "\<exists>rec. record_of_snapshot sample_codec (sample_job_in st rv) = Ok rec"
proof -
  obtain t a c u where fl: "flatten_state st = (t, a, c, u)" by (cases "flatten_state st")
  show ?thesis
    using assms unfolding record_of_snapshot_def Let_def
    by (simp add: sample_job_in_def fl sample_snapshot_def sample_handle sample_codec_def
        canonical_uuid_def validate_profile_def MAX_PROFILE_FIELD_BYTES_def utf8_char_def
        record_validate_keyterms_def MAX_KEYTERMS_def MAX_KEYTERMS_BYTES_def validate_reference_def
        validate_retry_after_def validate_result_presence_def i16_of_u16_def i64_of_u64_def)
qed

lemma sample_job_wf: "wf_job_state st \<Longrightarrow> wf_job (sn_job (sample_job_in st rv))"
  using stored_sample_wf
  by (simp add: sample_job_in_def wf_job_def stored_sample_def sample_snapshot_def wf_fingerprint_def)

lemma sample_job_untyped: "untyped (sample_job_in st rv) = sample_job_in st rv"
  by (simp add: untyped_def sample_job_in_def untyped_reference_def)

text \<open>The database after the admission, and after a compare-and-swap by the current writer.\<close>

definition sample_db :: "BatchJobState \<Rightarrow> u64 \<Rightarrow> (str list + ResultRecord, ResultRecord) db \<Rightarrow> bool" where
  "sample_db st rv db \<longleftrightarrow>
     db_invar db \<and> db_codec db = sample_codec \<and> db_rows db = [[7] \<mapsto> sample_job_in st rv]"

lemma sample_insert:
  "\<exists>db. admit_insert postgres_store Healthy empty_db sample_admission (sn_audio stored_sample)
      = (db, Return (Ok (AdmAccepted (sample_job_in Accepted 0)))) \<and> sample_db Accepted 0 db"
proof -
  let ?sn = "sample_job_in Accepted 0"
  obtain rec where rec: "record_of_snapshot (db_codec empty_db) ?sn = Ok rec"
    using sample_encodes [of Accepted 0] by (auto simp: empty_db_def is_completed_def)
  obtain db n where q: "sql_insert empty_db rec = (db, n)" by fastforce
  have ids: "sn_id ?sn = [7]" by (simp add: sample_job_in_def)
  have eff: "db_invar db" "db_codec db = sample_codec" "n = 1" "db_rows db = [[7] \<mapsto> ?sn]"
    using sql_insert_effect [OF empty_db_invar sample_job_wf rec q] empty_db_rows ids sample_job_untyped
    by (simp_all add: empty_db_def)
  have "canonical_uuid (db_codec db) [7] = Ok (jr_job_id rec)"
    using record_fields(1) [OF rec] ids eff(2) by (simp add: empty_db_def)
  from db_rows_eq [OF eff(1) this] have load: "load_uuid db (jr_job_id rec) = Ok (Some ?sn)"
    using eff(4) by simp
  have "admit_insert postgres_store Healthy empty_db sample_admission (sn_audio stored_sample)
      = (db, Return (Ok (AdmAccepted ?sn)))"
    unfolding admit_insert_def postgres_store_def insert_inner_def Let_def sample_admission_def accept_def
    using q load eff(3) rec by (simp add: sample_job_in_def)
  with eff show ?thesis by (auto simp: sample_db_def)
qed

lemma sample_swap:
  assumes "sample_db st rv db" and "\<not> is_completed st'" and "wf_job_state st'"
    and "unat rv + 1 < 2 ^ 63"
  shows "\<exists>db'. js_compare_and_swap postgres_store Healthy db rv (sample_job_in st' rv)
      = (db', Ok (Stored (sample_job_in st' (rv + 1)))) \<and> sample_db st' (rv + 1) db'"
proof -
  let ?rp = "sample_job_in st' rv"
  have db: "db_invar db" "db_codec db = sample_codec" "db_rows db = [[7] \<mapsto> sample_job_in st rv]"
    using assms(1) by (simp_all add: sample_db_def)
  obtain rec where rec: "record_of_snapshot (db_codec db) ?rp = Ok rec"
    using sample_encodes [OF assms(2), of rv] assms(4) db(2) by auto
  have sel: "sn_revision ?rp = rv" "sn_id ?rp = [7]" "sn_revision (sample_job_in st rv) = rv"
    "same_immutable (sample_job_in st rv) ?rp"
    by (simp_all add: sample_job_in_def same_immutable_def)
  obtain db' sn where c: "compare_and_swap_inner Healthy db rv ?rp = (db', Ok (Stored sn))"
      "db_invar db'" "db_codec db' = sample_codec" and sw: "swapped (db_rows db) (db_rows db') rv ?rp sn"
    using cas_succeeds [OF db(1) sample_job_wf [OF assms(3)] rec, of "sample_job_in st rv"] sel db assms(4)
    by auto
  have "unat (sn_revision sn) = unat (rv + 1)"
    using sw assms(4) by (simp add: swapped_def unat_word_ariths)
  then have "sn_revision sn = rv + 1" by (simp add: word_unat_eq_iff)
  moreover have "sn = ?rp\<lparr>sn_revision := sn_revision sn\<rparr>"
    using sw unfolding swapped_def sample_job_untyped by blast
  ultimately have sn: "sn = sample_job_in st' (rv + 1)" by (simp add: sample_job_in_def)
  then have "db_rows db' = [[7] \<mapsto> sample_job_in st' (rv + 1)]"
    using sw db(3) sel(2) unfolding swapped_def by auto
  with c sn show ?thesis by (auto simp: sample_db_def postgres_store_def)
qed

abbreviation sample_sys ::
  "(str list + ResultRecord, ResultRecord) db \<Rightarrow> phase option \<Rightarrow> egress list \<Rightarrow>
   ((str list + ResultRecord, ResultRecord) db, unit) sys" where
  "sample_sys l ph es \<equiv>
     \<lparr>sy_ledger = l, sy_spool = (), sy_workers = (\<lambda>_. None)(0 := ph), sy_egress = es\<rparr>"

abbreviation sample_reachable ::
  "((str list + ResultRecord, ResultRecord) db, unit) sys \<Rightarrow> bool" where
  "sample_reachable \<equiv> reachable postgres_store sample_spool (\<lambda>_ _. Ok ()) empty_db ()"

lemma sample_work:
  assumes "sample_reachable (sample_sys l (Some ph) es)"
    and "worker_step postgres_store sample_spool (\<lambda>_ _. Ok ()) sample_env l () ph = (l', (), nph, sent)"
    and "es' = es @ (case sent of None \<Rightarrow> [] | Some e \<Rightarrow> [e])"
  shows "sample_reachable (sample_sys l' nph es')"
  using reachable.step [OF assms(1) sys_step.work [of _ 0 ph _ _ _ sample_env]] assms(2,3) by simp

lemma sample_spawn:
  assumes "sample_reachable (sample_sys l None es)" and "wf_start ph"
  shows "sample_reachable (sample_sys l (Some ph) es)"
  using reachable.step [OF assms(1) sys_step.spawn [of _ 0 ph]] assms(2) by simp

lemma sample_load:
  assumes "sample_db st rv db"
  shows "js_load postgres_store Healthy db [7] = Ok (Some (sample_job_in st rv))"
proof -
  have "canonical_uuid (db_codec db) [7] = Ok 7"
    using assms by (simp add: sample_db_def canonical_uuid_def sample_codec_def)
  with db_rows_eq [of db "[7]" 7] assms show ?thesis
    by (simp add: postgres_store_def pg_load_def pg_canonical_uuid_Ok sample_db_def)
qed

text \<open>An execution of the sample job up to its submission.\<close>

lemma sample_execution:
  assumes r: "sample_reachable (sample_sys db None es)" and db: "sample_db st rv db"
    and act: "is_actionable st"
    and bs: "begin_submission (sn_job (sample_job_in st rv)) =
      ((sn_job (sample_job_in st rv))\<lparr>job_state := Submitting a\<rparr>, Ok a)"
    and a: "a \<noteq> 0" and room: "unat rv + 1 < 2 ^ 63"
  shows "\<exists>db'. sample_db (Submitting a) (rv + 1) db' \<and>
    sample_reachable (sample_sys db' (Some (PAnswered (sample_job_in (Submitting a) (rv + 1)) retryable_answer))
      (es @ [([7], a, retryable_answer)]))"
proof -
  let ?sn = "sample_job_in st rv" and ?cl = "sample_job_in (Submitting a) (rv + 1)"
  obtain db' where db': "js_compare_and_swap postgres_store Healthy db rv (sample_job_in (Submitting a) rv)
      = (db', Ok (Stored ?cl))" "sample_db (Submitting a) (rv + 1) db'"
    using sample_swap [OF db _ _ room, of "Submitting a"] a by (auto simp: is_completed_def)
  have "sample_reachable (sample_sys db (Some (PExecute [7])) es)" by (rule sample_spawn [OF r]) simp
  then have "sample_reachable (sample_sys db (Some (PLoaded ?sn)) es)"
    by (rule sample_work [where sent = None])
      (use act sample_load [OF db] in \<open>simp_all add: execute_load_def sample_env_def sample_job_in_def\<close>)
  then have "sample_reachable (sample_sys db (Some (PReady ?sn [1])) es)"
    by (rule sample_work [where sent = None])
      (simp_all add: execute_read_def sample_env_def sample_spool_def)
  note ready = this
  have claim: "execute_claim postgres_store Healthy db ?sn = (db', Continue ?cl)"
    unfolding execute_claim_def bs prod.case result.case Let_def
    using db'(1) by (simp add: sample_job_in_def)
  have "sample_reachable (sample_sys db' (Some (PClaimed ?cl [1])) es)"
    by (rule sample_work [OF ready, where sent = None]) (simp_all add: sample_env_def claim)
  then have "sample_reachable (sample_sys db' (Some (PAnswered ?cl retryable_answer))
      (es @ [([7], a, retryable_answer)]))"
    by (rule sample_work [where sent = "Some ([7], a, retryable_answer)"])
      (simp_all add: sample_env_def claimed_attempt_def sample_job_in_def)
  with db'(2) show ?thesis by blast
qed

lemma sample_run:
  "\<exists>g. sample_reachable g \<and>
     sy_egress g = [([7], 1, retryable_answer), ([7], 2, retryable_answer)]"
proof -
  obtain db1 where db1: "admit_insert postgres_store Healthy empty_db sample_admission (sn_audio stored_sample)
      = (db1, Return (Ok (AdmAccepted (sample_job_in Accepted 0))))" "sample_db Accepted 0 db1"
    using sample_insert by blast
  have load0: "js_load postgres_store Healthy empty_db [7] = Ok None"
    by (simp add: postgres_store_def pg_load_def pg_canonical_uuid_Ok empty_db_def load_uuid_def
        pg_canonical_uuid_def sample_codec_def)
  have wfr: "wf_start (PAdmit sample_admission)"
    using sample_job_wf [of Accepted 0] by (simp add: sample_admission_def sample_job_in_def wf_job_def)
  have "sample_reachable (sample_sys empty_db None [])"
    using reachable.start [of postgres_store sample_spool "\<lambda>_ _. Ok ()" empty_db "()"] by simp
  then have "sample_reachable (sample_sys empty_db (Some (PAdmit sample_admission)) [])"
    using wfr by (rule sample_spawn)
  then have "sample_reachable (sample_sys empty_db (Some (PAbsent sample_admission)) [])"
    by (rule sample_work [where sent = None])
      (use load0 in \<open>simp_all add: admit_load_def sample_env_def sample_admission_def\<close>)
  then have "sample_reachable (sample_sys empty_db
      (Some (PSpooled sample_admission (sn_audio stored_sample) True)) [])"
    by (rule sample_work [where sent = None])
      (simp_all add: admit_spool_def sample_env_def sample_admission_def sample_spool_def)
  then have "sample_reachable (sample_sys db1 None [])"
    by (rule sample_work [where sent = None]) (use db1(1) in \<open>simp_all add: after_insert_def sample_env_def\<close>)
  then obtain db2 where db2: "sample_db (Submitting 1) 1 db2"
    and r2: "sample_reachable (sample_sys db2 (Some (PAnswered (sample_job_in (Submitting 1) 1) retryable_answer))
        [([7], 1, retryable_answer)])"
    using sample_execution [OF _ db1(2), of "[]" 1]
    by (auto simp: is_actionable_def begin_submission_def sample_job_in_def)
  let ?retry = "Retryable 1 (batch_failure [120])"
  obtain db3 where db3: "js_compare_and_swap postgres_store Healthy db2 1 (sample_job_in ?retry 1)
      = (db3, Ok (Stored (sample_job_in ?retry 2)))" "sample_db ?retry 2 db3"
    using sample_swap [OF db2, of ?retry] wf_batch_failure by (auto simp: is_completed_def)
  have "apply_recognition_outcome (sample_job_in (Submitting 1) 1) retryable_answer (\<lambda>_ _. Ok ())
      = Ok (sample_job_in ?retry 1)"
    by (subst apply_outcome_submitting [of _ 1])
      (simp_all add: sample_job_in_def retryable_answer_def outcome_defs)
  then have per: "execute_persist postgres_store Healthy (\<lambda>_ _. Ok ()) db2 (sample_job_in (Submitting 1) 1)
      retryable_answer = (db3, Continue (sample_job_in ?retry 2))"
    using db3(1) by (simp add: execute_persist_def) (simp add: sample_job_in_def)
  have "sample_reachable (sample_sys db3 (Some (PCleanup (sample_job_in ?retry 2)))
      [([7], 1, retryable_answer)])"
    by (rule sample_work [OF r2, where sent = None]) (simp_all add: sample_env_def per)
  then have "sample_reachable (sample_sys db3 None [([7], 1, retryable_answer)])"
    by (rule sample_work [where sent = None])
      (simp_all add: execute_cleanup_def sample_job_in_def)
  then have "\<exists>db'. sample_db (Submitting 2) (2 + 1) db' \<and> sample_reachable (sample_sys db'
      (Some (PAnswered (sample_job_in (Submitting 2) (2 + 1)) retryable_answer))
      ([([7], 1, retryable_answer)] @ [([7], 2, retryable_answer)]))"
    by (rule sample_execution [OF _ db3(2)])
      (simp_all add: is_actionable_def begin_submission_def sample_job_in_def checked_add_def)
  then obtain db4 where "sample_reachable (sample_sys db4
      (Some (PAnswered (sample_job_in (Submitting 2) (2 + 1)) retryable_answer))
      ([([7], 1, retryable_answer)] @ [([7], 2, retryable_answer)]))" by blast
  then show ?thesis by (rule_tac exI) (rule conjI, assumption, simp)
qed

section \<open>Properties\<close>

text \<open>C1: No paid submission is ever repeated. Whatever admissions, executions, startup recoveries,
  crashes, lost requests and lost replies are interleaved over the PostgreSQL ledger, and whatever
  the provider answers, each pair of job and attempt is submitted to the provider at most once.\<close>

theorem no_duplicate_submission:
  assumes "db_invar db" and "db_table db = []"
    and "reachable postgres_store spool validate db s g"
  shows "distinct (map egress_key (sy_egress g))"
proof -
  have "db_rows db = (\<lambda>_. None)"
    using assms(2) by (auto simp: db_rows_def fun_eq_iff split: result.splits)
  with pg.egress_once [OF assms(3,1)] show ?thesis by blast
qed

theorem no_duplicate_submission_witness:
  "\<exists>g. sample_reachable g \<and> sy_egress g \<noteq> [] \<and> distinct (map egress_key (sy_egress g))"
proof -
  obtain g where g: "sample_reachable g" "sy_egress g \<noteq> []" using sample_run by force
  have "db_table empty_db = []" by (simp add: empty_db_def)
  from no_duplicate_submission [OF empty_db_invar this g(1)] g show ?thesis by blast
qed



text \<open>C3: The ledger only moves along the documented lifecycle: a step of the whole system leaves the
  table as it is, admits one new job in state \<open>Accepted\<close> at revision 0, or advances one job
  along one lifecycle edge with its identity unchanged, its attempt not decreased and its revision
  increased by one. So a terminal row never changes.\<close>

theorem ledger_refines_lifecycle:
  assumes "db_invar db" and "db_table db = []"
    and "reachable postgres_store spool validate db s g"
    and "sys_step postgres_store spool validate g g'"
  shows "row_move (db_rows (sy_ledger g)) (db_rows (sy_ledger g')) \<and>
         (\<forall>i sn. db_rows (sy_ledger g) i = Some sn \<longrightarrow> is_terminal (job_state (sn_job sn)) \<longrightarrow>
            db_rows (sy_ledger g') i = Some sn)"
proof -
  have e: "db_rows db = (\<lambda>_. None)"
    using assms(2) by (auto simp: db_rows_def fun_eq_iff split: result.splits)
  show ?thesis
    using pg.step_preserves [OF assms(4)] pg.reachable_ok [OF assms(3,1) e]
      pg.terminal_row_final [OF assms(4,3,1) e] by blast
qed

theorem ledger_refines_lifecycle_witness:
  "\<exists>g g'. sample_reachable g \<and>
     sys_step postgres_store sample_spool (\<lambda>_ _. Ok ()) g g' \<and>
     row_move (db_rows (sy_ledger g)) (db_rows (sy_ledger g'))"
proof -
  obtain g where g: "sample_reachable g" using sample_run by blast
  have s: "sys_step postgres_store sample_spool (\<lambda>_ _. Ok ()) g (g\<lparr>sy_workers := (sy_workers g)(0 := None)\<rparr>)"
    by (rule sys_step.crash)
  have "db_table empty_db = []" by (simp add: empty_db_def)
  from ledger_refines_lifecycle [OF empty_db_invar this g s] g s show ?thesis by blast
qed

end
