(* ===== verification/Live_Timeline.thy ===== *)
theory Live_Timeline
  imports Ports
begin

text \<open>
  The timing policy of one live session:
  \<^verbatim>\<open>crates/voicetext-speech/src/application/live_timeline.rs\<close>. \<open>timeline_inv\<close> says that the horizon
  is the duration of the accepted sample frames; it is what makes the two \<open>debug_assert!\<close>s of
  \<open>commit_audio_write\<close> true.
\<close>

section \<open>Data\<close>

definition PROVIDER_LEAD_TOLERANCE_MILLIS :: u64 where
  "PROVIDER_LEAD_TOLERANCE_MILLIS = 250"

definition PCM_S16LE_BYTES_PER_SAMPLE :: u64 where
  "PCM_S16LE_BYTES_PER_SAMPLE = 2"

datatype AcceptedAudioError =
  InvalidConfiguration | EmptyFrame | MisalignedFrame | AudioArithmeticOverflow

datatype LiveTimelineError = TimingOverflow | BeyondAcceptedAudio | FinalRegressionOrOverlap

record PendingAudioAcceptance =
  paa_total_sample_frames :: u64
  paa_horizon_millis :: u64

record LiveTimeline =
  tl_sample_rate_hz :: u64
  tl_bytes_per_sample_frame :: u64
  tl_accepted_sample_frames :: u64
  tl_accepted_horizon_millis :: u64
  tl_last_final_end_millis :: "u64 option"

section \<open>Operations\<close>

definition timeline_new :: "u32 \<Rightarrow> u8 \<Rightarrow> (LiveTimeline, AcceptedAudioError) result" where
  "timeline_new sample_rate channels =
     (let sample_rate_hz = ucast sample_rate :: u64; channels' = ucast channels :: u64 in
      if sample_rate_hz = 0 \<or> channels' = 0 then Err InvalidConfiguration
      else and_then (ok_or (checked_mul channels' PCM_S16LE_BYTES_PER_SAMPLE) AudioArithmeticOverflow)
        (\<lambda>bytes_per_sample_frame.
           Ok \<lparr>tl_sample_rate_hz = sample_rate_hz,
               tl_bytes_per_sample_frame = bytes_per_sample_frame,
               tl_accepted_sample_frames = 0, tl_accepted_horizon_millis = 0,
               tl_last_final_end_millis = None\<rparr>))"

definition checked_horizon_millis :: "u64 \<Rightarrow> u64 \<Rightarrow> (u64, AcceptedAudioError) result" where
  "checked_horizon_millis total_sample_frames sample_rate_hz =
     and_then (ok_or (checked_mul total_sample_frames 1000) AudioArithmeticOverflow)
       (\<lambda>scaled. ok_or (checked_div scaled sample_rate_hz) InvalidConfiguration)"

definition prepare_audio_write ::
  "LiveTimeline \<Rightarrow> usize \<Rightarrow> (PendingAudioAcceptance, AcceptedAudioError) result" where
  "prepare_audio_write self byte_len =
     (if byte_len = 0 then Err EmptyFrame
      else if usize_limit \<le> byte_len then Err AudioArithmeticOverflow
      else
        let len = of_nat byte_len :: u64 in
        if len mod tl_bytes_per_sample_frame self \<noteq> 0 then Err MisalignedFrame
        else
          let added_sample_frames = len div tl_bytes_per_sample_frame self in
          and_then (ok_or (checked_add (tl_accepted_sample_frames self) added_sample_frames)
                      AudioArithmeticOverflow)
            (\<lambda>total_sample_frames.
               and_then (checked_horizon_millis total_sample_frames (tl_sample_rate_hz self))
                 (\<lambda>horizon_millis.
                    Ok \<lparr>paa_total_sample_frames = total_sample_frames,
                        paa_horizon_millis = horizon_millis\<rparr>)))"

definition commit_audio_write :: "LiveTimeline \<Rightarrow> PendingAudioAcceptance \<Rightarrow> LiveTimeline" where
  "commit_audio_write self acceptance =
     self\<lparr>tl_accepted_sample_frames := paa_total_sample_frames acceptance,
          tl_accepted_horizon_millis := paa_horizon_millis acceptance\<rparr>"

definition validate_horizon :: "LiveTimeline \<Rightarrow> u64 \<Rightarrow> (unit, LiveTimelineError) result" where
  "validate_horizon self end_millis =
     (if saturating_sub end_millis (tl_accepted_horizon_millis self)
           > PROVIDER_LEAD_TOLERANCE_MILLIS
      then Err BeyondAcceptedAudio else Ok ())"

definition timeline_validate_transcript ::
  "LiveTimeline \<Rightarrow> LiveTranscript \<Rightarrow> LiveTimeline \<times> (unit, LiveTimelineError) result" where
  "timeline_validate_transcript self transcript =
     (case checked_add (lt_start_millis transcript) (lt_duration_millis transcript) of
        None \<Rightarrow> (self, Err TimingOverflow)
      | Some end_millis \<Rightarrow>
          (case validate_horizon self end_millis of
             Err e \<Rightarrow> (self, Err e)
           | Ok _ \<Rightarrow>
               if lt_stability transcript \<noteq> Partial
               then (case tl_last_final_end_millis self of
                       Some previous_end \<Rightarrow>
                         if lt_start_millis transcript < previous_end
                         then (self, Err FinalRegressionOrOverlap)
                         else (self\<lparr>tl_last_final_end_millis := Some end_millis\<rparr>, Ok ())
                     | None \<Rightarrow> (self\<lparr>tl_last_final_end_millis := Some end_millis\<rparr>, Ok ()))
               else (self, Ok ())))"

definition validate_utterance_end ::
  "LiveTimeline \<Rightarrow> u64 \<Rightarrow> (unit, LiveTimelineError) result" where
  "validate_utterance_end self last_word_end_millis = validate_horizon self last_word_end_millis"

section \<open>Invariant\<close>

definition timeline_inv :: "LiveTimeline \<Rightarrow> bool" where
  "timeline_inv t \<longleftrightarrow>
     0 < tl_sample_rate_hz t \<and> 0 < tl_bytes_per_sample_frame t \<and>
     unat (tl_accepted_horizon_millis t) =
       unat (tl_accepted_sample_frames t) * 1000 div unat (tl_sample_rate_hz t)"

definition transcript_end :: "LiveTranscript \<Rightarrow> nat" where
  "transcript_end t = unat (lt_start_millis t) + unat (lt_duration_millis t)"

text \<open>
  The specification of the policy on plain numbers: the finals so far and the next event.
\<close>

definition within_horizon :: "LiveTimeline \<Rightarrow> nat \<Rightarrow> bool" where
  "within_horizon t e \<longleftrightarrow> e \<le> unat (tl_accepted_horizon_millis t) + 250"

lemma checked_horizon_millis_Ok:
  assumes "checked_horizon_millis frames rate = Ok h"
  shows "0 < rate" and "unat h = unat frames * 1000 div unat rate"
proof -
  obtain scaled where m: "checked_mul frames 1000 = Some scaled"
    and d: "rate \<noteq> 0" "h = scaled div rate"
    using assms by (auto simp: checked_horizon_millis_def checked_div_def split: if_splits)
  from m have "unat scaled = unat frames * 1000" by (simp add: checked_mul_SomeD)
  with d show "unat h = unat frames * 1000 div unat rate" by (simp add: unat_div)
  from d(1) show "0 < rate" by (simp add: word_gt_0)
qed

lemma timeline_new_inv:
  assumes "timeline_new rate channels = Ok t"
  shows "timeline_inv t" and "unat (tl_sample_rate_hz t) = unat rate"
    and "unat (tl_bytes_per_sample_frame t) = 2 * unat channels"
    and "tl_accepted_sample_frames t = 0" and "tl_last_final_end_millis t = None"
proof -
  obtain b where b: "checked_mul (ucast channels :: u64) PCM_S16LE_BYTES_PER_SAMPLE = Some b"
    and nz: "(ucast rate :: u64) \<noteq> 0" "(ucast channels :: u64) \<noteq> 0"
    and t: "t = \<lparr>tl_sample_rate_hz = ucast rate, tl_bytes_per_sample_frame = b,
               tl_accepted_sample_frames = 0, tl_accepted_horizon_millis = 0,
               tl_last_final_end_millis = None\<rparr>"
    using assms by (auto simp: timeline_new_def Let_def split: if_splits)
  have uc: "unat (ucast channels :: u64) = unat channels"
    and ur: "unat (ucast rate :: u64) = unat rate"
    by (simp_all add: unat_ucast_widen)
  show "unat (tl_sample_rate_hz t) = unat rate" using t ur by simp
  have ub: "unat b = 2 * unat channels"
    using checked_mul_SomeD [OF b] uc by (simp add: PCM_S16LE_BYTES_PER_SAMPLE_def)
  then show "unat (tl_bytes_per_sample_frame t) = 2 * unat channels" using t by simp
  have "unat channels \<noteq> 0" using nz(2) uc by (metis unsigned_0 word_unat_eq_iff)
  then have "0 < b" using ub by (simp add: word_less_nat_alt)
  then show "timeline_inv t" using t nz(1) by (simp add: timeline_inv_def word_gt_0)
qed (use assms in \<open>auto simp: timeline_new_def Let_def split: if_splits\<close>)

lemma prepare_audio_write_Ok:
  assumes "prepare_audio_write t n = Ok p" and "timeline_inv t"
  shows "0 < n" and "unat (tl_bytes_per_sample_frame t) dvd n"
    and "unat (paa_total_sample_frames p) =
           unat (tl_accepted_sample_frames t) + n div unat (tl_bytes_per_sample_frame t)"
    and "unat (paa_horizon_millis p) =
           unat (paa_total_sample_frames p) * 1000 div unat (tl_sample_rate_hz t)"
proof -
  let ?b = "tl_bytes_per_sample_frame t" and ?len = "of_nat n :: u64"
  obtain frames h where n: "n \<noteq> 0" "n < usize_limit" "?len mod ?b = 0"
    and frames: "checked_add (tl_accepted_sample_frames t) (?len div ?b) = Some frames"
    and h: "checked_horizon_millis frames (tl_sample_rate_hz t) = Ok h"
    and p: "p = \<lparr>paa_total_sample_frames = frames, paa_horizon_millis = h\<rparr>"
    using assms(1) by (auto simp: prepare_audio_write_def Let_def split: if_splits)
  have len: "unat ?len = n" using n(2) by (simp add: usize_limit_def unat_of_nat)
  have "unat ?len mod unat ?b = 0" using n(3) by (metis unat_mod unsigned_0)
  then show "unat ?b dvd n" using len by (simp add: mod_eq_0_iff_dvd)
  show "0 < n" using n(1) by simp
  show "unat (paa_total_sample_frames p) = unat (tl_accepted_sample_frames t) + n div unat ?b"
    using checked_add_SomeD(2) [OF frames] p len by (simp add: unat_div)
  show "unat (paa_horizon_millis p) =
          unat (paa_total_sample_frames p) * 1000 div unat (tl_sample_rate_hz t)"
    using checked_horizon_millis_Ok(2) [OF h] p by simp
qed

lemma commit_inv:
  assumes "prepare_audio_write t n = Ok p" and "timeline_inv t"
  shows "timeline_inv (commit_audio_write t p)"
    and "tl_accepted_sample_frames t \<le> paa_total_sample_frames p"
    and "tl_accepted_horizon_millis t \<le> paa_horizon_millis p"
  using prepare_audio_write_Ok(3,4) [OF assms] assms(2)
  by (auto simp: timeline_inv_def commit_audio_write_def word_le_nat_alt intro!: div_le_mono)

lemma validate_horizon_iff:
  "validate_horizon t e = Ok () \<longleftrightarrow> within_horizon t (unat e)"
  by (auto simp: validate_horizon_def within_horizon_def PROVIDER_LEAD_TOLERANCE_MILLIS_def
      word_less_nat_alt unat_saturating_sub)

lemma validate_horizon_Err: "validate_horizon t e = Err x \<Longrightarrow> \<not> within_horizon t (unat e)"
  using validate_horizon_iff [of t e] by auto

lemma timeline_validate_transcript_Ok:
  assumes "timeline_validate_transcript t tr = (t', Ok u)"
  shows "within_horizon t (transcript_end tr)" and "transcript_end tr < 2 ^ 64"
    and "lt_stability tr = Partial \<Longrightarrow> t' = t"
    and "lt_stability tr \<noteq> Partial \<Longrightarrow>
         t' = t\<lparr>tl_last_final_end_millis := Some (lt_start_millis tr + lt_duration_millis tr)\<rparr>"
    and "lt_stability tr \<noteq> Partial \<Longrightarrow> tl_last_final_end_millis t = Some e \<Longrightarrow>
         e \<le> lt_start_millis tr"
proof -
  obtain en where en: "checked_add (lt_start_millis tr) (lt_duration_millis tr) = Some en"
    using assms by (cases "checked_add (lt_start_millis tr) (lt_duration_millis tr)")
      (auto simp: timeline_validate_transcript_def)
  have h: "validate_horizon t en = Ok ()"
    using assms en by (cases "validate_horizon t en") (auto simp: timeline_validate_transcript_def)
  note r = assms [unfolded timeline_validate_transcript_def, simplified en option.case h result.case]
  have u: "unat en = transcript_end tr"
    using checked_add_SomeD(2) [OF en] by (simp add: transcript_end_def)
  show "within_horizon t (transcript_end tr)" using h u by (simp add: validate_horizon_iff)
  show "transcript_end tr < 2 ^ 64" using u unat_u64_less [of en] by simp
  show "lt_stability tr = Partial \<Longrightarrow> t' = t" using r by simp
  show "lt_stability tr \<noteq> Partial \<Longrightarrow>
        t' = t\<lparr>tl_last_final_end_millis := Some (lt_start_millis tr + lt_duration_millis tr)\<rparr>"
    using r checked_add_SomeD(1) [OF en] by (auto split: option.splits if_splits)
  show "lt_stability tr \<noteq> Partial \<Longrightarrow> tl_last_final_end_millis t = Some e \<Longrightarrow>
        e \<le> lt_start_millis tr"
    using r by (auto split: if_splits)
qed

lemma timeline_validate_transcript_Err:
  "timeline_validate_transcript t tr = (t', Err e) \<Longrightarrow> t' = t"
  by (auto simp: timeline_validate_transcript_def split: option.splits result.splits if_splits)

text \<open>Exactly when a transcript is accepted.\<close>

lemma timeline_accepts_iff:
  "is_ok (snd (timeline_validate_transcript t tr)) \<longleftrightarrow>
     transcript_end tr < 2 ^ 64 \<and> within_horizon t (transcript_end tr) \<and>
     (lt_stability tr \<noteq> Partial \<longrightarrow>
        (case tl_last_final_end_millis t of None \<Rightarrow> True | Some e \<Rightarrow> e \<le> lt_start_millis tr))"
proof (cases "checked_add (lt_start_millis tr) (lt_duration_millis tr)")
  case None
  then have "2 ^ 64 \<le> transcript_end tr" by (simp add: checked_add_None_iff transcript_end_def)
  with None show ?thesis by (simp add: timeline_validate_transcript_def)
next
  case (Some en)
  then have u: "unat en = transcript_end tr"
    using checked_add_SomeD(2) by (fastforce simp: transcript_end_def)
  with unat_u64_less [of en] have "transcript_end tr < 2 ^ 64" by simp
  with Some u show ?thesis
    using validate_horizon_iff [of t en]
    by (cases "validate_horizon t en")
      (auto simp: timeline_validate_transcript_def split: option.splits)
qed

end
