(* ===== verification/Live_Coordinator.thy ===== *)
theory Live_Coordinator
  imports Live_Timeline
begin

text \<open>
  Orchestration of one provider-bound live session:
  \<^verbatim>\<open>crates/voicetext-speech/src/application/live.rs\<close>. The provider is an external service: what it
  answers to \<open>open\<close>, \<open>write_audio\<close>, \<open>next_event\<close>, \<open>finalize\<close> and \<open>close\<close> is an argument. An
  \<open>async\<close> method may be dropped at its \<open>await\<close>; the write is therefore split at that point and a
  history may contain writes that were begun and never finished.
\<close>

section \<open>Data\<close>

definition MAX_PCM_FRAME_BYTES :: usize where
  "MAX_PCM_FRAME_BYTES = 64 * 1024"

definition MAX_TRANSCRIPT_CHARS :: usize where
  "MAX_TRANSCRIPT_CHARS = 65536"

datatype InvalidProviderEvent =
    TranscriptTooLong
  | TranscriptTimingOverflow
  | TimestampBeyondAcceptedAudio
  | FinalTimestampRegressionOrOverlap
  | InvalidConfidence

datatype LiveCoordinatorError =
    CoordDomain LiveSessionError
  | CoordRecognition RecognitionFailure
  | CoordInvalidAudioFrame
  | CoordInvalidProviderEvent InvalidProviderEvent

datatype LiveCoordinatorEvent = CoordTranscript LiveTranscript | CoordUtteranceEnd u64

record LiveCoordinator =
  lc_domain :: LiveSession
  lc_timeline :: LiveTimeline

section \<open>Validation helpers\<close>

definition validate_transcript :: "LiveTranscript \<Rightarrow> (unit, InvalidProviderEvent) result" where
  "validate_transcript transcript =
     (if length (lt_text transcript) > MAX_TRANSCRIPT_CHARS then Err TranscriptTooLong
      else if checked_add (lt_start_millis transcript) (lt_duration_millis transcript) = None
      then Err TranscriptTimingOverflow
      else if \<not> valid_confidence (lt_confidence transcript) then Err InvalidConfidence
      else Ok ())"

definition map_audio_error :: "AcceptedAudioError \<Rightarrow> LiveCoordinatorError" where
  "map_audio_error _ = CoordInvalidAudioFrame"

fun map_timeline_error :: "LiveTimelineError \<Rightarrow> InvalidProviderEvent" where
  "map_timeline_error TimingOverflow = TranscriptTimingOverflow"
| "map_timeline_error BeyondAcceptedAudio = TimestampBeyondAcceptedAudio"
| "map_timeline_error FinalRegressionOrOverlap = FinalTimestampRegressionOrOverlap"

definition fail_after_provider_error :: "LiveCoordinator \<Rightarrow> LiveCoordinator" where
  "fail_after_provider_error self = self\<lparr>lc_domain := fst (session_fail (lc_domain self))\<rparr>"

section \<open>Operations\<close>

text \<open>\<open>open\<close>, given what the factory answers.\<close>

definition coordinator_open ::
  "LiveRecognitionRequest \<Rightarrow> (unit, RecognitionFailure) result \<Rightarrow>
   (LiveCoordinator, LiveCoordinatorError) result" where
  "coordinator_open request opened =
     and_then (map_err (\<lambda>_. CoordInvalidAudioFrame)
                 (timeline_new (lrq_sample_rate_hz request) (lrq_channels request)))
       (\<lambda>timeline. and_then (map_err CoordRecognition opened)
          (\<lambda>_. case mark_ready session_new of
                 (domain, Err e) \<Rightarrow> Err (CoordDomain e)
               | (domain, Ok _) \<Rightarrow> Ok \<lparr>lc_domain = domain, lc_timeline = timeline\<rparr>))"

text \<open>\<open>provider_write\<close> up to the \<open>await\<close> and after it.\<close>

definition provider_write_begin ::
  "LiveCoordinator \<Rightarrow> u8 list \<Rightarrow>
   LiveCoordinator \<times> (PendingAudioAcceptance \<times> LiveAudioFrame, LiveCoordinatorError) result" where
  "provider_write_begin self pcm =
     (if length pcm > MAX_PCM_FRAME_BYTES then (self, Err CoordInvalidAudioFrame)
      else (case prepare_audio_write (lc_timeline self) (length pcm) of
              Err e \<Rightarrow> (self, Err (map_audio_error e))
            | Ok pending_timeline \<Rightarrow>
                (case accept_audio (lc_domain self) of
                   (domain, Err e) \<Rightarrow> (self\<lparr>lc_domain := domain\<rparr>, Err (CoordDomain e))
                 | (domain, Ok sequence) \<Rightarrow>
                     (self\<lparr>lc_domain := domain\<rparr>,
                      Ok (pending_timeline, \<lparr>laf_sequence = sequence, laf_pcm_s16le = pcm\<rparr>)))))"

definition provider_write_end ::
  "LiveCoordinator \<Rightarrow> PendingAudioAcceptance \<Rightarrow> RawAudioSequence \<Rightarrow>
   (unit, RecognitionFailure) result \<Rightarrow>
   LiveCoordinator \<times> (RawAudioSequence, LiveCoordinatorError) result" where
  "provider_write_end self pending_timeline sequence written =
     (case written of
        Err e \<Rightarrow> (fail_after_provider_error self, Err (CoordRecognition e))
      | Ok _ \<Rightarrow>
          let self' = self\<lparr>lc_timeline := commit_audio_write (lc_timeline self) pending_timeline\<rparr> in
          (case mark_provider_write_succeeded (lc_domain self') sequence of
             (domain, Err e) \<Rightarrow> (self'\<lparr>lc_domain := domain\<rparr>, Err (CoordDomain e))
           | (domain, Ok _) \<Rightarrow> (self'\<lparr>lc_domain := domain\<rparr>, Ok sequence)))"

definition provider_write ::
  "LiveCoordinator \<Rightarrow> u8 list \<Rightarrow> (unit, RecognitionFailure) result \<Rightarrow>
   LiveCoordinator \<times> (RawAudioSequence, LiveCoordinatorError) result" where
  "provider_write self pcm written =
     (case provider_write_begin self pcm of
        (self', Err e) \<Rightarrow> (self', Err e)
      | (self', Ok (pending, frame)) \<Rightarrow>
          provider_write_end self' pending (laf_sequence frame) written)"

definition ack_sent ::
  "LiveCoordinator \<Rightarrow> RawAudioSequence \<Rightarrow> LiveCoordinator \<times> (unit, LiveCoordinatorError) result" where
  "ack_sent self sequence =
     (case mark_ack_sent (lc_domain self) sequence of
        (domain, r) \<Rightarrow> (self\<lparr>lc_domain := domain\<rparr>, map_err CoordDomain r))"

definition apply_transcript ::
  "LiveCoordinator \<Rightarrow> LiveTranscript \<Rightarrow>
   LiveCoordinator \<times> (LiveCoordinatorEvent option, LiveCoordinatorError) result" where
  "apply_transcript self transcript =
     (case validate_transcript transcript of
        Err e \<Rightarrow> (fail_after_provider_error self, Err (CoordInvalidProviderEvent e))
      | Ok _ \<Rightarrow>
          (case timeline_validate_transcript (lc_timeline self) transcript of
             (timeline, Err e) \<Rightarrow>
               (fail_after_provider_error (self\<lparr>lc_timeline := timeline\<rparr>),
                Err (CoordInvalidProviderEvent (map_timeline_error e)))
           | (timeline, Ok _) \<Rightarrow>
               (self\<lparr>lc_timeline := timeline\<rparr>, Ok (Some (CoordTranscript transcript)))))"

definition apply_provider_event ::
  "LiveCoordinator \<Rightarrow> (LiveRecognitionEvent option, RecognitionFailure) result \<Rightarrow>
   LiveCoordinator \<times> (LiveCoordinatorEvent option, LiveCoordinatorError) result" where
  "apply_provider_event self received =
     (case received of
        Err e \<Rightarrow> (fail_after_provider_error self, Err (CoordRecognition e))
      | Ok None \<Rightarrow> (self, Ok None)
      | Ok (Some (RecTranscript transcript)) \<Rightarrow> apply_transcript self transcript
      | Ok (Some (RecUtteranceEnd last_word_end_millis)) \<Rightarrow>
          (case validate_utterance_end (lc_timeline self) last_word_end_millis of
             Err e \<Rightarrow> (fail_after_provider_error self,
                       Err (CoordInvalidProviderEvent (map_timeline_error e)))
           | Ok _ \<Rightarrow> (self, Ok (Some (CoordUtteranceEnd last_word_end_millis))))
      | Ok (Some RecFinalizeResultObserved) \<Rightarrow>
          (case mark_finalize_result_observed (lc_domain self) of
             (domain, Err e) \<Rightarrow>
               (fail_after_provider_error (self\<lparr>lc_domain := domain\<rparr>), Err (CoordDomain e))
           | (domain, Ok _) \<Rightarrow> (self\<lparr>lc_domain := domain\<rparr>, Ok None)))"

text \<open>
  \<open>next_event\<close> loops over what the provider answers; \<open>None\<close> when it has not answered yet.
\<close>

fun next_event ::
  "LiveCoordinator \<Rightarrow> (LiveRecognitionEvent option, RecognitionFailure) result list \<Rightarrow>
   LiveCoordinator \<times> (LiveCoordinatorEvent option, LiveCoordinatorError) result option" where
  "next_event self [] = (self, None)"
| "next_event self (received # later) =
     (case apply_provider_event self received of
        (self', Err e) \<Rightarrow> (self', Some (Err e))
      | (self', Ok (Some event)) \<Rightarrow> (self', Some (Ok (Some event)))
      | (self', Ok None) \<Rightarrow>
          if received = Ok None then (self', Some (Ok None)) else next_event self' later)"

definition coordinator_begin_finalize ::
  "LiveCoordinator \<Rightarrow> (unit, RecognitionFailure) result \<Rightarrow>
   LiveCoordinator \<times> (unit, LiveCoordinatorError) result" where
  "coordinator_begin_finalize self finalized =
     (case begin_finalize (lc_domain self) of
        (domain, Err e) \<Rightarrow> (self\<lparr>lc_domain := domain\<rparr>, Err (CoordDomain e))
      | (domain, Ok _) \<Rightarrow>
          let self' = self\<lparr>lc_domain := domain\<rparr> in
          (case finalized of
             Err e \<Rightarrow> (fail_after_provider_error self', Err (CoordRecognition e))
           | Ok _ \<Rightarrow> (self', Ok ())))"

definition coordinator_complete_finalize ::
  "LiveCoordinator \<Rightarrow> FinalizeStatus \<Rightarrow>
   LiveCoordinator \<times> (FinalizeOutcome, LiveCoordinatorError) result" where
  "coordinator_complete_finalize self requested =
     (case complete_finalize (lc_domain self) requested of
        (domain, r) \<Rightarrow> (self\<lparr>lc_domain := domain\<rparr>, map_err CoordDomain r))"

definition coordinator_close ::
  "LiveCoordinator \<Rightarrow> (unit, RecognitionFailure) result \<Rightarrow>
   LiveCoordinator \<times> (unit, LiveCoordinatorError) result" where
  "coordinator_close self provider_result =
     (case session_close (lc_domain self) of
        (domain, domain_result) \<Rightarrow>
          (self\<lparr>lc_domain := domain\<rparr>,
           (case provider_result of
              Err e \<Rightarrow> Err (CoordRecognition e)
            | Ok _ \<Rightarrow> map_err CoordDomain domain_result)))"

section \<open>Histories of calls\<close>

text \<open>
  The transport calls the coordinator in any order, with any answers of the provider.
  \<open>WriteDropped\<close> is a write whose future was dropped while the provider had not answered.
  A call is observed through the audio the provider confirmed and the events handed to the client.
\<close>

datatype coord_call =
    Write "u8 list" "(unit, RecognitionFailure) result"
  | WriteDropped "u8 list"
  | Ack RawAudioSequence
  | Receive "(LiveRecognitionEvent option, RecognitionFailure) result"
  | BeginFin "(unit, RecognitionFailure) result"
  | CompleteFin FinalizeStatus
  | CloseCall "(unit, RecognitionFailure) result"

datatype coord_obs = ObsWritten usize | ObsEmitted LiveCoordinatorEvent

fun call_coord :: "LiveCoordinator \<Rightarrow> coord_call \<Rightarrow> LiveCoordinator \<times> coord_obs list" where
  "call_coord c (Write pcm written) =
     (case provider_write c pcm written of
        (c', r) \<Rightarrow> (c', if is_ok r then [ObsWritten (length pcm)] else []))"
| "call_coord c (WriteDropped pcm) = (fst (provider_write_begin c pcm), [])"
| "call_coord c (Ack q) = (fst (ack_sent c q), [])"
| "call_coord c (Receive received) =
     (case apply_provider_event c received of
        (c', r) \<Rightarrow> (c', case r of Ok (Some e) \<Rightarrow> [ObsEmitted e] | _ \<Rightarrow> []))"
| "call_coord c (BeginFin r) = (fst (coordinator_begin_finalize c r), [])"
| "call_coord c (CompleteFin st) = (fst (coordinator_complete_finalize c st), [])"
| "call_coord c (CloseCall r) = (fst (coordinator_close c r), [])"

fun run_coord :: "LiveCoordinator \<Rightarrow> coord_call list \<Rightarrow> LiveCoordinator \<times> coord_obs list" where
  "run_coord c [] = (c, [])"
| "run_coord c (k # ks) =
     (case call_coord c k of (c', os) \<Rightarrow> case run_coord c' ks of (c'', os') \<Rightarrow> (c'', os @ os'))"

definition emitted :: "coord_obs list \<Rightarrow> LiveTranscript list" where
  "emitted os =
     List.map_filter (\<lambda>ob. case ob of ObsEmitted (CoordTranscript t) \<Rightarrow> Some t | _ \<Rightarrow> None) os"

definition emitted_finals :: "coord_obs list \<Rightarrow> LiveTranscript list" where
  "emitted_finals os = filter (\<lambda>t. lt_stability t \<noteq> Partial) (emitted os)"

definition written_bytes :: "coord_obs list \<Rightarrow> nat" where
  "written_bytes os = sum_list (map (\<lambda>ob. case ob of ObsWritten n \<Rightarrow> n | _ \<Rightarrow> 0) os)"

lemma obs_append [simp]:
  "emitted (os @ os') = emitted os @ emitted os'"
  "emitted_finals (os @ os') = emitted_finals os @ emitted_finals os'"
  "written_bytes (os @ os') = written_bytes os + written_bytes os'"
  by (simp_all add: emitted_def emitted_finals_def written_bytes_def List.map_filter_def)

lemma obs_single [simp]:
  "emitted [] = []" "emitted_finals [] = []" "written_bytes [] = 0"
  "emitted [ObsWritten n] = []" "emitted_finals [ObsWritten n] = []" "written_bytes [ObsWritten n] = n"
  "emitted [ObsEmitted (CoordTranscript t)] = [t]"
  "emitted_finals [ObsEmitted (CoordTranscript t)] = (if lt_stability t \<noteq> Partial then [t] else [])"
  "written_bytes [ObsEmitted e] = 0"
  "emitted [ObsEmitted (CoordUtteranceEnd u)] = []"
  "emitted_finals [ObsEmitted (CoordUtteranceEnd u)] = []"
  by (simp_all add: emitted_def emitted_finals_def written_bytes_def List.map_filter_def)

lemma run_coord_snoc:
  "run_coord c (ks @ [k]) =
     (case run_coord c ks of (c', os) \<Rightarrow> case call_coord c' k of (c'', os') \<Rightarrow> (c'', os @ os'))"
  by (induction ks arbitrary: c) (auto split: prod.splits)

subsection \<open>The session protocol\<close>

text \<open>Every call advances the session only by steps of the live-session protocol.\<close>

inductive live_steps :: "LiveSession \<Rightarrow> live_event list \<Rightarrow> LiveSession \<Rightarrow> bool" where
  none: "live_steps s [] s"
| more: "live_step s e s' \<Longrightarrow> live_steps s' es s'' \<Longrightarrow> live_steps s (e # es) s''"

lemma live_steps_one [intro]: "live_step s e s' \<Longrightarrow> \<exists>es. live_steps s es s'"
  by (auto intro: live_steps.intros)

lemma live_steps_refl [intro]: "\<exists>es. live_steps s es s"
  by (auto intro: live_steps.intros)

lemma live_steps_two:
  "live_step s e s' \<Longrightarrow> live_step s' e' s'' \<Longrightarrow> \<exists>es. live_steps s es s''"
  by (blast intro: live_steps.intros)

lemma live_steps_trace: "live_steps s es s' \<Longrightarrow> live_trace hs s \<Longrightarrow> live_trace (hs @ es) s'"
proof (induction arbitrary: hs rule: live_steps.induct)
  case (more s e s' es s'')
  then have "live_trace ((hs @ [e]) @ es) s''" by (blast intro: live_trace.step)
  then show ?case by simp
qed simp

lemma session_fail_step: "\<exists>e. live_step s e (fst (session_fail s))"
  by (cases "session_fail s"; cases "snd (session_fail s)")
    (auto intro: live_step.fail live_step.fail_err)

lemma accept_audio_step:
  "accept_audio s = (s', r) \<Longrightarrow> \<exists>e. live_step s e s'"
  by (cases r) (auto intro: live_step.accept live_step.accept_err)

lemma mark_written_step:
  "mark_provider_write_succeeded s q = (s', r) \<Longrightarrow> \<exists>e. live_step s e s'"
  by (cases r) (auto intro: live_step.written live_step.written_err)

lemma begin_finalize_step: "begin_finalize s = (s', r) \<Longrightarrow> \<exists>e. live_step s e s'"
  by (cases r) (auto intro: live_step.begin_fin live_step.begin_fin_err)

lemma observed_step: "mark_finalize_result_observed s = (s', r) \<Longrightarrow> \<exists>e. live_step s e s'"
  by (cases r) (auto intro: live_step.observed live_step.observed_err)

lemma acked_step: "mark_ack_sent s q = (s', r) \<Longrightarrow> \<exists>e. live_step s e s'"
  by (cases r) (auto intro: live_step.acked live_step.acked_err)

lemma complete_finalize_step: "complete_finalize s st = (s', r) \<Longrightarrow> \<exists>e. live_step s e s'"
  by (cases r) (auto intro: live_step.finalized live_step.finalized_err)

lemma session_close_step: "session_close s = (s', r) \<Longrightarrow> \<exists>e. live_step s e s'"
  by (cases r) (auto intro: live_step.close live_step.close_err)

lemmas protocol_steps =
  session_fail_step accept_audio_step mark_written_step begin_finalize_step observed_step
  acked_step complete_finalize_step session_close_step

lemma fail_after_domain [simp]:
  "lc_domain (fail_after_provider_error c) = fst (session_fail (lc_domain c))"
  "lc_timeline (fail_after_provider_error c) = lc_timeline c"
  by (simp_all add: fail_after_provider_error_def)

lemma provider_write_begin_steps:
  "\<exists>es. live_steps (lc_domain c) es (lc_domain (fst (provider_write_begin c pcm)))"
  using accept_audio_step [of "lc_domain c"]
  by (auto simp: provider_write_begin_def split: result.splits prod.splits)

lemma live_steps_append: "live_steps s es s' \<Longrightarrow> live_steps s' fs s'' \<Longrightarrow> live_steps s (es @ fs) s''"
  by (induction rule: live_steps.induct) (auto intro: live_steps.intros)

lemma provider_write_end_steps:
  "\<exists>es. live_steps (lc_domain c) es (lc_domain (fst (provider_write_end c p q r)))"
  using mark_written_step [of "lc_domain c" q] session_fail_step [of "lc_domain c"]
  by (auto simp: provider_write_end_def Let_def split: result.splits prod.splits)

lemma provider_write_steps:
  "\<exists>es. live_steps (lc_domain c) es (lc_domain (fst (provider_write c pcm r)))"
proof (cases "provider_write_begin c pcm")
  case (Pair c1 b)
  obtain es where es: "live_steps (lc_domain c) es (lc_domain c1)"
    using provider_write_begin_steps [of c pcm] Pair by auto
  show ?thesis
  proof (cases b)
    case (Ok pf)
    then show ?thesis
      using Pair es provider_write_end_steps [of c1 "fst pf" "laf_sequence (snd pf)" r]
      by (auto simp: provider_write_def split: prod.splits dest: live_steps_append)
  qed (use Pair es in \<open>auto simp: provider_write_def\<close>)
qed

lemma steps_then_fail [intro]:
  "\<exists>e. live_step s e s' \<Longrightarrow> \<exists>es. live_steps s es (fst (session_fail s'))"
  using session_fail_step live_steps_two by blast

lemma steps_fail [intro]: "\<exists>es. live_steps s es (fst (session_fail s))"
  using session_fail_step by blast

lemma apply_transcript_steps:
  "\<exists>es. live_steps (lc_domain c) es (lc_domain (fst (apply_transcript c t)))"
  by (auto simp: apply_transcript_def split: result.splits prod.splits)

lemma apply_provider_event_steps:
  "\<exists>es. live_steps (lc_domain c) es (lc_domain (fst (apply_provider_event c r)))"
proof (cases "r = Ok (Some RecFinalizeResultObserved)")
  case True
  obtain d u where d: "mark_finalize_result_observed (lc_domain c) = (d, u)" by fastforce
  with True observed_step [OF d] show ?thesis
    by (cases u) (auto simp: apply_provider_event_def)
next
  case False
  then show ?thesis using apply_transcript_steps [of c]
    by (auto simp: apply_provider_event_def
        split: result.splits option.splits LiveRecognitionEvent.splits)
qed

lemma begin_finalize_steps:
  "\<exists>es. live_steps (lc_domain c) es (lc_domain (fst (coordinator_begin_finalize c r)))"
proof -
  obtain d u where d: "begin_finalize (lc_domain c) = (d, u)" by fastforce
  with begin_finalize_step [OF d] show ?thesis
    by (cases u; cases r) (auto simp: coordinator_begin_finalize_def Let_def)
qed

lemma call_coord_steps:
  "\<exists>es. live_steps (lc_domain c) es (lc_domain (fst (call_coord c k)))"
proof (cases k)
  case (Write pcm r)
  then show ?thesis using provider_write_steps [of c pcm r] by simp
next
  case (Receive r)
  then show ?thesis using apply_provider_event_steps [of c r] by simp
next
  case (BeginFin r)
  then show ?thesis using begin_finalize_steps [of c r] by simp
next
  case (Ack q)
  then show ?thesis using acked_step [of "lc_domain c" q] by (auto simp: ack_sent_def split: prod.splits)
next
  case (CompleteFin st)
  then show ?thesis using complete_finalize_step [of "lc_domain c" st]
    by (auto simp: coordinator_complete_finalize_def split: prod.splits)
next
  case (CloseCall r)
  then show ?thesis using session_close_step [of "lc_domain c"]
    by (auto simp: coordinator_close_def split: prod.splits)
qed (simp add: provider_write_begin_steps)

lemma run_coord_trace:
  "live_trace hs (lc_domain c) \<Longrightarrow> run_coord c ks = (c', os) \<Longrightarrow> \<exists>es. live_trace (hs @ es) (lc_domain c')"
proof (induction ks arbitrary: c c' hs os)
  case Nil
  then show ?case by (metis append_Nil2 fst_conv run_coord.simps(1))
next
  case (Cons k ks)
  obtain c1 o1 o2 where c1: "call_coord c k = (c1, o1)" and r: "run_coord c1 ks = (c', o2)"
    using Cons.prems(2) by (auto split: prod.splits)
  obtain es where "live_trace (hs @ es) (lc_domain c1)"
    using call_coord_steps [of c k] c1 live_steps_trace [OF _ Cons.prems(1)] by auto
  from Cons.IH [OF this r] show ?case by auto
qed

lemma coordinator_open_trace:
  assumes "coordinator_open rq r = Ok c"
  shows "live_trace [EvReady] (lc_domain c)"
    and "timeline_new (lrq_sample_rate_hz rq) (lrq_channels rq) = Ok (lc_timeline c)"
proof -
  obtain d where d': "mark_ready session_new = (d, Ok ())"
    by (simp add: mark_ready_def require_phase_def session_new_def)
  then have d: "mark_ready session_new = (d, Ok ())" "lc_domain c = d"
    and t: "timeline_new (lrq_sample_rate_hz rq) (lrq_channels rq) = Ok (lc_timeline c)"
    using assms by (auto simp: coordinator_open_def)
  have "live_trace ([] @ [EvReady]) d"
    by (rule live_trace.step [OF live_trace.start live_step.ready [OF d(1)]])
  with d(2) t show "live_trace [EvReady] (lc_domain c)"
    and "timeline_new (lrq_sample_rate_hz rq) (lrq_channels rq) = Ok (lc_timeline c)" by simp_all
qed

subsection \<open>One write\<close>

lemma accept_then_written:
  assumes "accept_audio s = (s', Ok q)" and "live_inv s"
  shows "\<exists>s''. mark_provider_write_succeeded s' q = (s'', Ok ())"
proof -
  have eff: "ls_phase s = Streaming" "unat (seq_get q) = unat (ls_last_sequence s) + 1"
    "s' = s\<lparr>ls_pending_audio := insert q (ls_pending_audio s),
            ls_last_sequence := seq_get q, ls_accepted_audio := True\<rparr>"
    using step_effect [OF live_step.accept [OF assms(1)]] by simp_all
  have "q \<notin> ls_provider_written_audio s"
  proof
    assume "q \<in> ls_provider_written_audio s"
    then have "seq_get q \<le> ls_last_sequence s" using assms(2) by (auto simp: live_inv_def)
    with eff(2) show False by (simp add: word_le_nat_alt)
  qed
  with eff show ?thesis by (simp add: mark_provider_write_succeeded_def require_phase_def)
qed

text \<open>A write the provider confirmed fails only when it was rejected before egress.\<close>

lemma provider_write_begin_Err:
  "provider_write_begin c pcm = (c', Err e) \<Longrightarrow> c' = c"
  by (auto simp: provider_write_begin_def session_defs split: if_splits result.splits prod.splits option.splits)

lemma provider_write_begin_Ok:
  assumes "provider_write_begin c pcm = (c', Ok (p, fr))"
  shows "length pcm \<le> MAX_PCM_FRAME_BYTES"
    and "prepare_audio_write (lc_timeline c) (length pcm) = Ok p"
    and "accept_audio (lc_domain c) = (lc_domain c', Ok (laf_sequence fr))"
    and "lc_timeline c' = lc_timeline c" and "laf_pcm_s16le fr = pcm"
  using assms
  by (auto simp: provider_write_begin_def split: if_splits result.splits prod.splits)

lemma provider_write_confirmed:
  assumes "provider_write_begin c pcm = (c1, Ok (p, fr))" and "live_inv (lc_domain c)"
    and "provider_write c pcm (Ok ()) = (c', r)"
  shows "r = Ok (laf_sequence fr)"
    and "lc_timeline c' = commit_audio_write (lc_timeline c) p"
    and "laf_sequence fr \<in> ls_provider_written_audio (lc_domain c')"
proof -
  note b = provider_write_begin_Ok [OF assms(1)]
  obtain d where d: "mark_provider_write_succeeded (lc_domain c1) (laf_sequence fr) = (d, Ok ())"
    using accept_then_written [OF b(3) assms(2)] by blast
  have c': "c' = c1\<lparr>lc_timeline := commit_audio_write (lc_timeline c1) p, lc_domain := d\<rparr>"
    and r: "r = Ok (laf_sequence fr)"
    using assms(1,3) d by (simp_all add: provider_write_def provider_write_end_def Let_def)
  show "r = Ok (laf_sequence fr)" by (rule r)
  show "lc_timeline c' = commit_audio_write (lc_timeline c) p" using c' b(4) by simp
  show "laf_sequence fr \<in> ls_provider_written_audio (lc_domain c')"
    using step_effect [OF live_step.written [OF d]] c' by simp
qed

subsection \<open>Timing of what the client sees\<close>

definition finals_ordered :: "LiveTranscript list \<Rightarrow> bool" where
  "finals_ordered = sorted_wrt (\<lambda>a b. transcript_end a \<le> unat (lt_start_millis b))"

definition last_end :: "LiveTranscript list \<Rightarrow> u64 option" where
  "last_end fs =
     (if fs = [] then None else Some (lt_start_millis (last fs) + lt_duration_millis (last fs)))"

definition deliverable :: "nat \<Rightarrow> LiveTranscript \<Rightarrow> bool" where
  "deliverable horizon t \<longleftrightarrow>
     transcript_end t \<le> horizon + 250 \<and> transcript_end t < 2 ^ 64 \<and>
     length (lt_text t) \<le> MAX_TRANSCRIPT_CHARS \<and> valid_confidence (lt_confidence t)"

text \<open>The timing invariant of a session, against everything observed so far.\<close>

definition timing_inv :: "nat \<Rightarrow> nat \<Rightarrow> LiveTimeline \<Rightarrow> coord_obs list \<Rightarrow> bool" where
  "timing_inv rate bytes t os \<longleftrightarrow>
     timeline_inv t \<and> unat (tl_sample_rate_hz t) = rate \<and>
     unat (tl_bytes_per_sample_frame t) = bytes \<and>
     unat (tl_accepted_sample_frames t) * bytes = written_bytes os \<and>
     (\<forall>tr \<in> set (emitted os). deliverable (unat (tl_accepted_horizon_millis t)) tr) \<and>
     finals_ordered (emitted_finals os) \<and>
     (\<forall>tr \<in> set (emitted_finals os). transcript_end tr < 2 ^ 64) \<and>
     tl_last_final_end_millis t = last_end (emitted_finals os)"

lemma deliverable_mono: "deliverable h t \<Longrightarrow> h \<le> h' \<Longrightarrow> deliverable h' t"
  by (auto simp: deliverable_def)

lemma finals_ordered_snoc:
  assumes "finals_ordered fs" and "\<forall>f \<in> set fs. transcript_end f < 2 ^ 64"
    and "\<forall>e. last_end fs = Some e \<longrightarrow> e \<le> lt_start_millis t"
  shows "finals_ordered (fs @ [t])"
proof (cases fs rule: rev_cases)
  case (snoc gs l)
  have "unat (lt_start_millis l + lt_duration_millis l) = transcript_end l"
    using assms(2) snoc by (simp add: transcript_end_def unat_word_ariths)
  moreover have "lt_start_millis l + lt_duration_millis l \<le> lt_start_millis t"
    using assms(3) snoc by (simp add: last_end_def)
  ultimately have l: "transcript_end l \<le> unat (lt_start_millis t)" by (simp add: word_le_nat_alt)
  have "transcript_end g \<le> unat (lt_start_millis t)" if "g \<in> set gs" for g
  proof -
    have "transcript_end g \<le> unat (lt_start_millis l)"
      using assms(1) snoc that by (simp add: finals_ordered_def sorted_wrt_append)
    also have "\<dots> \<le> transcript_end l" by (simp add: transcript_end_def)
    also note l
    finally show ?thesis .
  qed
  with l assms(1) snoc show ?thesis by (auto simp: finals_ordered_def sorted_wrt_append)
qed (simp add: finals_ordered_def)

lemma timing_inv_write:
  assumes inv: "timing_inv rate bytes t os" and p: "prepare_audio_write t n = Ok p"
  shows "timing_inv rate bytes (commit_audio_write t p) (os @ [ObsWritten n])"
proof -
  have ti: "timeline_inv t" and b: "unat (tl_bytes_per_sample_frame t) = bytes"
    and frames: "unat (tl_accepted_sample_frames t) * bytes = written_bytes os"
    using inv by (auto simp: timing_inv_def)
  note ok = prepare_audio_write_Ok [OF p ti] and cm = commit_inv [OF p ti]
  have "unat (paa_total_sample_frames p) * bytes = written_bytes os + n"
    using ok(2,3) b frames by (simp add: add_mult_distrib)
  moreover have "unat (tl_accepted_horizon_millis t) \<le> unat (paa_horizon_millis p)"
    using cm(3) by (simp add: word_le_nat_alt)
  moreover have "tl_accepted_sample_frames (commit_audio_write t p) = paa_total_sample_frames p"
    "tl_accepted_horizon_millis (commit_audio_write t p) = paa_horizon_millis p"
    "tl_sample_rate_hz (commit_audio_write t p) = tl_sample_rate_hz t"
    "tl_bytes_per_sample_frame (commit_audio_write t p) = tl_bytes_per_sample_frame t"
    "tl_last_final_end_millis (commit_audio_write t p) = tl_last_final_end_millis t"
    by (simp_all add: commit_audio_write_def)
  ultimately show ?thesis
    using inv cm(1) by (auto simp: timing_inv_def intro: deliverable_mono)
qed

lemma validate_transcript_Ok:
  "validate_transcript t = Ok u \<Longrightarrow>
     length (lt_text t) \<le> MAX_TRANSCRIPT_CHARS \<and> valid_confidence (lt_confidence t)"
  by (auto simp: validate_transcript_def split: if_splits)

lemma timing_inv_emit:
  assumes inv: "timing_inv rate bytes t os" and v: "validate_transcript tr = Ok ()"
    and ok: "timeline_validate_transcript t tr = (t', Ok ())"
  shows "timing_inv rate bytes t' (os @ [ObsEmitted (CoordTranscript tr)])"
proof -
  note tv = timeline_validate_transcript_Ok [OF ok]
  have del: "deliverable (unat (tl_accepted_horizon_millis t)) tr"
    using tv(1,2) validate_transcript_Ok [OF v] by (simp add: deliverable_def within_horizon_def)
  show ?thesis
  proof (cases "lt_stability tr = Partial")
    case True
    with inv del tv(3) show ?thesis by (simp add: timing_inv_def)
  next
    case False
    have "finals_ordered (emitted_finals os @ [tr])"
      using inv tv(5) [OF False] by (intro finals_ordered_snoc) (auto simp: timing_inv_def)
    with False inv del tv(2,4) show ?thesis
      by (auto simp: timing_inv_def last_end_def timeline_inv_def)
  qed
qed

lemma timing_inv_quiet:
  "timing_inv rate bytes t os \<Longrightarrow> timing_inv rate bytes t (os @ [ObsEmitted (CoordUtteranceEnd u)])"
  by (simp add: timing_inv_def)

lemma timing_inv_receive:
  assumes "timing_inv rate bytes (lc_timeline c) os" and "call_coord c (Receive r) = (c', os')"
  shows "timing_inv rate bytes (lc_timeline c') (os @ os')"
proof (cases "\<exists>tr. r = Ok (Some (RecTranscript tr))")
  case True
  then obtain tr where tr: "r = Ok (Some (RecTranscript tr))" by blast
  obtain t' u where t': "timeline_validate_transcript (lc_timeline c) tr = (t', u)" by fastforce
  show ?thesis
    using assms tr t' timeline_validate_transcript_Err [of "lc_timeline c" tr t']
      timing_inv_emit [OF assms(1), of tr t']
    by (cases "validate_transcript tr"; cases u)
      (auto simp: apply_provider_event_def apply_transcript_def)
next
  case False
  with assms show ?thesis
    by (auto simp: apply_provider_event_def timing_inv_quiet
        split: result.splits option.splits LiveRecognitionEvent.splits prod.splits)
qed

lemma timing_inv_call:
  assumes inv: "timing_inv rate bytes (lc_timeline c) os" and li: "live_inv (lc_domain c)"
    and call: "call_coord c k = (c', os')"
  shows "timing_inv rate bytes (lc_timeline c') (os @ os')"
proof (cases k)
  case (Receive r)
  with timing_inv_receive inv call show ?thesis by blast
next
  case (Write pcm r)
  obtain c1 b where b: "provider_write_begin c pcm = (c1, b)" by fastforce
  show ?thesis
  proof (cases "\<exists>p fr. b = Ok (p, fr) \<and> r = Ok ()")
    case True
    then obtain p fr where *: "b = Ok (p, fr)" "r = Ok ()" by blast
    obtain c2 r2 where w: "provider_write c pcm r = (c2, r2)" by fastforce
    note conf = provider_write_confirmed [OF b [unfolded *(1)] li w [unfolded *(2)]]
    show ?thesis
      using timing_inv_write [OF inv provider_write_begin_Ok(2) [OF b [unfolded *(1)]]]
        conf(1,2) w call Write by auto
  next
    case False
    then show ?thesis
      using inv call Write b provider_write_begin_Err [of c pcm c1] provider_write_begin_Ok(4) [of c pcm c1]
      by (cases b; cases r) (auto simp: provider_write_def provider_write_end_def)
  qed
next
  case (WriteDropped pcm)
  then show ?thesis using inv call
    by (auto simp: provider_write_begin_def split: if_splits result.splits prod.splits)
qed (use inv call in \<open>auto simp: ack_sent_def coordinator_begin_finalize_def Let_def
       coordinator_complete_finalize_def coordinator_close_def split: prod.splits result.splits\<close>)

lemma timing_inv_run:
  assumes "live_trace hs (lc_domain c)" and "timing_inv rate bytes (lc_timeline c) os"
    and "run_coord c ks = (c', os')"
  shows "timing_inv rate bytes (lc_timeline c') (os @ os')"
  using assms
proof (induction ks arbitrary: c hs os os')
  case (Cons k ks)
  obtain c1 o1 o2 where c1: "call_coord c k = (c1, o1)" and r: "run_coord c1 ks = (c', o2)"
    and os': "os' = o1 @ o2"
    using Cons.prems(3) by (auto split: prod.splits)
  obtain es where tr: "live_trace (hs @ es) (lc_domain c1)"
    using call_coord_steps [of c k] c1 live_steps_trace [OF _ Cons.prems(1)] by auto
  have "timing_inv rate bytes (lc_timeline c1) (os @ o1)"
    using timing_inv_call [OF Cons.prems(2) live_trace_inv [OF Cons.prems(1)] c1] .
  from Cons.IH [OF tr this r] show ?case using os' by simp
qed simp

lemma timing_inv_open:
  assumes "coordinator_open rq r = Ok c"
  shows "timing_inv (unat (lrq_sample_rate_hz rq)) (2 * unat (lrq_channels rq)) (lc_timeline c) []"
  using timeline_new_inv [OF coordinator_open_trace(2) [OF assms]]
  by (simp add: timing_inv_def finals_ordered_def last_end_def)

section \<open>Properties\<close>

text \<open>C11: Whatever the provider answers and in whatever order the transport calls the coordinator,
  every transcript handed to the client ends at most 250 ms after the audio the provider has
  confirmed so far (computed exactly from the confirmed bytes), is within the text and confidence
  bounds, and the final transcripts never overlap or go back in time.\<close>

theorem client_timing:
  assumes "coordinator_open rq opened = Ok c" and "run_coord c calls = (c', os)"
  shows "(\<forall>t \<in> set (emitted os).
            transcript_end t \<le>
              written_bytes os div (2 * unat (lrq_channels rq)) * 1000
                div unat (lrq_sample_rate_hz rq) + 250 \<and>
            length (lt_text t) \<le> MAX_TRANSCRIPT_CHARS \<and> valid_confidence (lt_confidence t)) \<and>
         sorted_wrt (\<lambda>a b. transcript_end a \<le> unat (lt_start_millis b)) (emitted_finals os)"
proof -
  have inv: "timing_inv (unat (lrq_sample_rate_hz rq)) (2 * unat (lrq_channels rq)) (lc_timeline c') os"
    using timing_inv_run [OF coordinator_open_trace(1) [OF assms(1)] timing_inv_open [OF assms(1)]
        assms(2)] by simp
  then have "0 < 2 * unat (lrq_channels rq)"
    by (auto simp: timing_inv_def timeline_inv_def word_less_nat_alt)
  with inv have "unat (tl_accepted_sample_frames (lc_timeline c')) =
      written_bytes os div (2 * unat (lrq_channels rq))"
    by (metis timing_inv_def nonzero_mult_div_cancel_right less_numeral_extra(3))
  then have "unat (tl_accepted_horizon_millis (lc_timeline c')) =
      written_bytes os div (2 * unat (lrq_channels rq)) * 1000 div unat (lrq_sample_rate_hz rq)"
    using inv by (simp add: timing_inv_def timeline_inv_def)
  with inv show ?thesis
    unfolding timing_inv_def deliverable_def finals_ordered_def by simp
qed

definition sample_request :: LiveRecognitionRequest where
  "sample_request =
     \<lparr>lrq_profile = \<lparr>lp_protocol_version = 1, lp_provider = [], lp_model = [], lp_language = []\<rparr>,
      lrq_sample_rate_hz = 1000, lrq_channels = 1, lrq_keyterms = []\<rparr>"

definition sample_transcript :: LiveTranscript where
  "sample_transcript =
     \<lparr>lt_text = [104, 105], lt_start_millis = 0, lt_duration_millis = 251,
      lt_confidence = Some (Finite 1), lt_stability = UtteranceFinal\<rparr>"

definition sample_coordinator :: LiveCoordinator where
  "sample_coordinator =
     \<lparr>lc_domain = session_new\<lparr>ls_phase := Streaming\<rparr>,
      lc_timeline = \<lparr>tl_sample_rate_hz = 1000, tl_bytes_per_sample_frame = 2,
        tl_accepted_sample_frames = 0, tl_accepted_horizon_millis = 0,
        tl_last_final_end_millis = None\<rparr>\<rparr>"

definition sample_written :: LiveCoordinator where
  "sample_written =
     sample_coordinator
       \<lparr>lc_domain := (lc_domain sample_coordinator)
          \<lparr>ls_pending_audio := {RawAudioSequence 1},
           ls_provider_written_audio := {RawAudioSequence 1},
           ls_last_sequence := 1, ls_accepted_audio := True\<rparr>,
        lc_timeline := (lc_timeline sample_coordinator)
          \<lparr>tl_accepted_sample_frames := 1, tl_accepted_horizon_millis := 1\<rparr>\<rparr>"

lemma sample_open: "coordinator_open sample_request (Ok ()) = Ok sample_coordinator"
  by (simp add: coordinator_open_def sample_request_def timeline_new_def Let_def rust_arith
      PCM_S16LE_BYTES_PER_SAMPLE_def mark_ready_def require_phase_def session_new_def
      sample_coordinator_def)

lemma sample_prepare:
  "prepare_audio_write \<lparr>tl_sample_rate_hz = 1000, tl_bytes_per_sample_frame = 2,
     tl_accepted_sample_frames = 0, tl_accepted_horizon_millis = 0,
     tl_last_final_end_millis = None\<rparr> (Suc (Suc 0)) =
     Ok \<lparr>paa_total_sample_frames = 1, paa_horizon_millis = 1\<rparr>"
  by (simp add: prepare_audio_write_def usize_limit_def Let_def
      checked_horizon_millis_def rust_arith)

lemma sample_write:
  "provider_write sample_coordinator [0, 0] (Ok ()) = (sample_written, Ok (RawAudioSequence 1))"
  by (simp add: provider_write_def provider_write_begin_def provider_write_end_def Let_def
      sample_prepare MAX_PCM_FRAME_BYTES_def session_defs sample_coordinator_def sample_written_def
      session_new_def MAX_PENDING_AUDIO_SEQUENCES_def checked_add_0_1 commit_audio_write_def)

lemma sample_receive:
  "snd (apply_provider_event sample_written (Ok (Some (RecTranscript sample_transcript)))) =
     Ok (Some (CoordTranscript sample_transcript))"
  by (simp add: apply_provider_event_def apply_transcript_def validate_transcript_def
      sample_transcript_def MAX_TRANSCRIPT_CHARS_def timeline_validate_transcript_def
      validate_horizon_def sample_written_def sample_coordinator_def rust_arith
      PROVIDER_LEAD_TOLERANCE_MILLIS_def)

theorem client_timing_witness:
  "\<exists>c os. run_coord sample_coordinator
            [Write [0, 0] (Ok ()), Receive (Ok (Some (RecTranscript sample_transcript)))] = (c, os) \<and>
     emitted os = [sample_transcript] \<and>
     transcript_end sample_transcript \<le> written_bytes os div 2 * 1000 div 1000 + 250"
proof -
  obtain c os where r:
    "run_coord sample_coordinator
       [Write [0, 0] (Ok ()), Receive (Ok (Some (RecTranscript sample_transcript)))] = (c, os)"
    by fastforce
  then have e: "emitted os = [sample_transcript]"
    using sample_receive by (auto simp: sample_write simp flip: append.simps split: prod.splits)
  from client_timing [OF sample_open r] e
  have "transcript_end sample_transcript \<le> written_bytes os div 2 * 1000 div 1000 + 250"
    by (simp add: sample_request_def)
  with r e show ?thesis by blast
qed



text \<open>C14: A frame is confirmed exactly when the provider confirmed it: after a provider success the
  write returns the assigned sequence with the frame recorded as provider-written (never an error
  after egress); after a provider failure the failure is returned unchanged, the session is
  \<open>Failed\<close> and the accepted-audio horizon has not moved; a write rejected before egress changes
  nothing.\<close>

theorem provider_write_outcome:
  assumes "live_inv (lc_domain c)" and "provider_write c pcm written = (c', r)"
  shows "case provider_write_begin c pcm of
           (_, Err e) \<Rightarrow> r = Err e \<and> c' = c
         | (_, Ok (p, fr)) \<Rightarrow>
             (case written of
                Ok _ \<Rightarrow> r = Ok (laf_sequence fr) \<and>
                        laf_sequence fr \<in> ls_provider_written_audio (lc_domain c') \<and>
                        lc_timeline c' = commit_audio_write (lc_timeline c) p
              | Err e \<Rightarrow> r = Err (CoordRecognition e) \<and> ls_phase (lc_domain c') = FailedPhase \<and>
                         lc_timeline c' = lc_timeline c)"
proof (cases "provider_write_begin c pcm")
  case (Pair c1 b)
  show ?thesis
  proof (cases b)
    case (Err e)
    with Pair assms(2) provider_write_begin_Err [of c pcm c1 e] show ?thesis
      by (simp add: provider_write_def)
  next
    case (Ok pf)
    obtain p fr where pf: "pf = (p, fr)" by fastforce
    note bg = provider_write_begin_Ok [OF Pair [unfolded Ok pf]]
    show ?thesis
    proof (cases written)
      case (Err e)
      have "ls_phase (lc_domain c1) = Streaming"
        using step_effect [OF live_step.accept [OF bg(3)]] by simp
      with Pair Ok pf Err assms(2) bg(4) show ?thesis
        by (auto simp: provider_write_def provider_write_end_def session_fail_def)
    next
      case ok: (Ok u)
      with provider_write_confirmed [OF Pair [unfolded Ok pf] assms(1)] assms(2) Pair Ok pf
      show ?thesis by simp
    qed
  qed
qed

theorem provider_write_outcome_witness:
  "live_inv (lc_domain sample_coordinator) \<and>
   RawAudioSequence 1 \<in> ls_provider_written_audio (lc_domain sample_written)"
proof -
  have inv: "live_inv (lc_domain sample_coordinator)"
    using live_trace_inv [OF coordinator_open_trace(1) [OF sample_open]] .
  have "provider_write_begin sample_coordinator [0, 0] \<noteq> (c, Err e)" for c e
    using sample_write by (auto simp: provider_write_def)
  then obtain c1 p fr where b: "provider_write_begin sample_coordinator [0, 0] = (c1, Ok (p, fr))"
    by (metis surj_pair result.exhaust)
  from provider_write_outcome [OF inv sample_write] b inv show ?thesis by simp
qed

end
