(* ===== verification/Capabilities.thy ===== *)
theory Capabilities
  imports Rust_Text
begin

text \<open>
  The capability contracts checked before a paid provider can be called:
  \<^verbatim>\<open>crates/voicetext-speech/src/application/batch_capabilities.rs\<close> and
  \<^verbatim>\<open>live_capabilities.rs\<close>. The early returns of the validators are kept in the source's order.
\<close>

section \<open>Batch\<close>

datatype BatchTimestampCapability = BatchNoTimestamps | BatchSegmentTimestamps
datatype BatchFinalizedCapability = BatchNotFinalized | TerminalTranscript
datatype BatchLanguageHints = BatchHintsUnsupported | FixedHint str
datatype BatchInputFormat = OggOpus | WavePcm
datatype TextLengthUnit = UnicodeScalars | Utf16CodeUnits
datatype TimestampProvenance = ProviderNative | GatewaySynthesizedFromAcceptedAudio

record BatchProviderLimits =
  bpl_maximum_public_input_bytes :: usize
  bpl_maximum_input_bytes :: usize
  bpl_maximum_key_terms :: usize
  bpl_maximum_key_term_bytes :: usize
  bpl_maximum_key_term_characters :: "usize option"
  bpl_key_term_character_unit :: "TextLengthUnit option"
  bpl_maximum_key_term_words :: "usize option"
  bpl_normalize_key_term_whitespace :: bool
  bpl_restricted_key_term_punctuation :: bool

record BatchCapabilityDescriptor =
  bcd_contract_version :: u16
  bcd_provider :: str
  bcd_model :: str
  bcd_language :: str
  bcd_timestamps :: BatchTimestampCapability
  bcd_timestamp_provenance :: TimestampProvenance
  bcd_finalized_events :: BatchFinalizedCapability
  bcd_language_hints :: BatchLanguageHints
  bcd_diarization :: bool
  bcd_key_terms :: bool
  bcd_input_formats :: "BatchInputFormat list"
  bcd_provider_limits :: BatchProviderLimits

record BatchCapabilityRequest =
  bcr_timestamps :: bool
  bcr_finalized_events :: bool
  bcr_language_hint :: "str option"
  bcr_diarization :: bool
  bcr_key_terms :: "str list"
  bcr_input_format :: BatchInputFormat
  bcr_input_bytes :: usize

datatype BatchCapabilityError =
    BUnsupportedTimestamps | BUnsupportedFinalizedEvents | BUnsupportedLanguageHint
  | BUnsupportedDiarization | BUnsupportedKeyTerms | BUnsupportedInputFormat | BInputLimitExceeded
  | BKeyTermLimitExceeded | BInvalidKeyTerm

definition exceeds_text_limit :: "str \<Rightarrow> usize option \<Rightarrow> TextLengthUnit option \<Rightarrow> bool" where
  "exceeds_text_limit value maximum unit =
     (case (maximum, unit) of
        (None, None) \<Rightarrow> False
      | (Some m, Some UnicodeScalars) \<Rightarrow> length value > m
      | (Some m, Some Utf16CodeUnits) \<Rightarrow> utf16_len value > m
      | _ \<Rightarrow> True)"

text \<open>The characters \<open>< > { } [ ] \\<close>.\<close>

definition restricted_punctuation :: "scalar \<Rightarrow> bool" where
  "restricted_punctuation c \<longleftrightarrow> c \<in> {60, 62, 123, 125, 91, 93, 92}"

definition batch_provider_term :: "BatchProviderLimits \<Rightarrow> str \<Rightarrow> str" where
  "batch_provider_term limits term =
     (if bpl_normalize_key_term_whitespace limits then normalize_whitespace term else term)"

definition batch_term_invalid :: "BatchProviderLimits \<Rightarrow> str \<Rightarrow> bool" where
  "batch_term_invalid limits term =
     (let provider_term = batch_provider_term limits term in
      term = [] \<or> trim term \<noteq> term \<or> str_len term > bpl_maximum_key_term_bytes limits
      \<or> exceeds_text_limit provider_term (bpl_maximum_key_term_characters limits)
           (bpl_key_term_character_unit limits)
      \<or> (case bpl_maximum_key_term_words limits of
           None \<Rightarrow> False | Some m \<Rightarrow> length (split_whitespace provider_term) > m)
      \<or> has_control term
      \<or> (bpl_restricted_key_term_punctuation limits \<and> list_ex restricted_punctuation provider_term))"

fun batch_terms_loop :: "BatchProviderLimits \<Rightarrow> str list \<Rightarrow> (unit, BatchCapabilityError) result" where
  "batch_terms_loop limits [] = Ok ()"
| "batch_terms_loop limits (term # rest) =
     (if batch_term_invalid limits term then Err BInvalidKeyTerm else batch_terms_loop limits rest)"

definition batch_validate_key_terms ::
  "str list \<Rightarrow> BatchProviderLimits \<Rightarrow> (unit, BatchCapabilityError) result" where
  "batch_validate_key_terms terms limits =
     (if length terms > bpl_maximum_key_terms limits then Err BKeyTermLimitExceeded
      else batch_terms_loop limits terms)"

definition batch_hint_unsupported :: "str option \<Rightarrow> BatchLanguageHints \<Rightarrow> bool" where
  "batch_hint_unsupported hint policy =
     (case (hint, policy) of
        (Some _, BatchHintsUnsupported) \<Rightarrow> True
      | (Some requested, FixedHint supported) \<Rightarrow> requested \<noteq> supported
      | _ \<Rightarrow> False)"

definition batch_validate ::
  "BatchCapabilityDescriptor \<Rightarrow> BatchCapabilityRequest \<Rightarrow> (unit, BatchCapabilityError) result" where
  "batch_validate self request =
     (if bcr_timestamps request \<and> bcd_timestamps self = BatchNoTimestamps
      then Err BUnsupportedTimestamps
      else if bcr_finalized_events request \<and> bcd_finalized_events self = BatchNotFinalized
      then Err BUnsupportedFinalizedEvents
      else if batch_hint_unsupported (bcr_language_hint request) (bcd_language_hints self)
      then Err BUnsupportedLanguageHint
      else if bcr_diarization request \<and> \<not> bcd_diarization self then Err BUnsupportedDiarization
      else if bcr_key_terms request \<noteq> [] \<and> \<not> bcd_key_terms self then Err BUnsupportedKeyTerms
      else if bcr_input_format request \<notin> set (bcd_input_formats self) then Err BUnsupportedInputFormat
      else if bcr_input_bytes request = 0
           \<or> bcr_input_bytes request > bpl_maximum_public_input_bytes (bcd_provider_limits self)
           \<or> bcr_input_bytes request > bpl_maximum_input_bytes (bcd_provider_limits self)
      then Err BInputLimitExceeded
      else batch_validate_key_terms (bcr_key_terms request) (bcd_provider_limits self))"

section \<open>Live\<close>

datatype LiveTimestampCapability = LiveNoTimestamps | LiveSegmentTimestamps
datatype LiveFinalizedCapability = LiveNotFinalized | SegmentAndUtterance
datatype LiveLanguageHints = LiveHintsUnsupported | AsciiCode usize bool
datatype LiveInputFormat = Opus48KhzMono | PcmS16Le16KhzMono | PcmS16Le48KhzMono

record LiveProviderLimits =
  lpl_maximum_public_input_frame_bytes :: usize
  lpl_maximum_input_frame_bytes :: usize
  lpl_maximum_key_terms :: usize
  lpl_maximum_key_term_bytes :: "usize option"
  lpl_maximum_public_key_term_utf16_units :: usize
  lpl_maximum_key_term_characters :: "usize option"
  lpl_key_term_character_unit :: "TextLengthUnit option"
  lpl_maximum_public_key_term_total_utf16_units :: usize
  lpl_normalize_key_term_whitespace :: bool

record LiveCapabilityDescriptor =
  lcd_protocol_version :: u16
  lcd_provider :: str
  lcd_model :: str
  lcd_timestamps :: LiveTimestampCapability
  lcd_timestamp_provenance :: TimestampProvenance
  lcd_finalized_events :: LiveFinalizedCapability
  lcd_language_hints :: LiveLanguageHints
  lcd_diarization :: bool
  lcd_key_terms :: bool
  lcd_input_formats :: "LiveInputFormat list"
  lcd_provider_limits :: LiveProviderLimits

record LiveCapabilityRequest =
  lcr_timestamps :: bool
  lcr_finalized_events :: bool
  lcr_language_hint :: "str option"
  lcr_diarization :: bool
  lcr_key_terms :: "str list"
  lcr_input_format :: LiveInputFormat
  lcr_input_frame_bytes :: usize

datatype LiveCapabilityError =
    LUnsupportedTimestamps | LUnsupportedFinalizedEvents | LUnsupportedLanguageHint
  | LUnsupportedDiarization | LUnsupportedKeyTerms | LUnsupportedInputFormat | LInputLimitExceeded
  | LKeyTermLimitExceeded | LInvalidKeyTerm

definition validate_language :: "str \<Rightarrow> LiveLanguageHints \<Rightarrow> (unit, LiveCapabilityError) result" where
  "validate_language language policy =
     (case policy of
        LiveHintsUnsupported \<Rightarrow> Err LUnsupportedLanguageHint
      | AsciiCode maximum_bytes hyphen_at_edges \<Rightarrow>
          if language \<noteq> [] \<and> str_len language \<le> maximum_bytes
             \<and> list_all (\<lambda>b. ascii_alphanumeric b \<or> b = 45) (str_bytes language)
             \<and> (hyphen_at_edges \<or> (hd language \<noteq> 45 \<and> last language \<noteq> 45))
          then Ok () else Err LUnsupportedLanguageHint)"

definition text_length :: "str \<Rightarrow> TextLengthUnit option \<Rightarrow> usize" where
  "text_length value unit = (if unit = Some UnicodeScalars then length value else utf16_len value)"

definition live_provider_characters :: "LiveProviderLimits \<Rightarrow> str \<Rightarrow> usize" where
  "live_provider_characters limits term =
     text_length (if lpl_normalize_key_term_whitespace limits then normalize_whitespace term else term)
       (lpl_key_term_character_unit limits)"

definition live_term_invalid :: "LiveProviderLimits \<Rightarrow> str \<Rightarrow> bool" where
  "live_term_invalid limits term \<longleftrightarrow>
     term = [] \<or> trim term \<noteq> term \<or> has_control term
     \<or> utf16_len term > lpl_maximum_public_key_term_utf16_units limits
     \<or> (case lpl_maximum_key_term_bytes limits of None \<Rightarrow> False | Some m \<Rightarrow> str_len term > m)
     \<or> (case lpl_maximum_key_term_characters limits of
          None \<Rightarrow> False | Some m \<Rightarrow> live_provider_characters limits term > m)"

fun live_terms_loop ::
  "LiveProviderLimits \<Rightarrow> usize \<Rightarrow> str list \<Rightarrow> (usize, LiveCapabilityError) result" where
  "live_terms_loop limits acc [] = Ok acc"
| "live_terms_loop limits acc (term # rest) =
     and_then (ok_or (usize_checked_add acc (utf16_len term)) LKeyTermLimitExceeded) (\<lambda>acc'.
       if live_term_invalid limits term then Err LInvalidKeyTerm
       else live_terms_loop limits acc' rest)"

definition live_validate_key_terms ::
  "str list \<Rightarrow> LiveProviderLimits \<Rightarrow> (unit, LiveCapabilityError) result" where
  "live_validate_key_terms terms limits =
     (if length terms > lpl_maximum_key_terms limits then Err LKeyTermLimitExceeded
      else and_then (live_terms_loop limits 0 terms) (\<lambda>acc.
             if acc > lpl_maximum_public_key_term_total_utf16_units limits
             then Err LKeyTermLimitExceeded else Ok ()))"

definition live_validate ::
  "LiveCapabilityDescriptor \<Rightarrow> LiveCapabilityRequest \<Rightarrow> (unit, LiveCapabilityError) result" where
  "live_validate self request =
     (if lcr_timestamps request \<and> lcd_timestamps self = LiveNoTimestamps
      then Err LUnsupportedTimestamps
      else if lcr_finalized_events request \<and> lcd_finalized_events self = LiveNotFinalized
      then Err LUnsupportedFinalizedEvents
      else and_then (case lcr_language_hint request of
                       None \<Rightarrow> Ok ()
                     | Some language \<Rightarrow> validate_language language (lcd_language_hints self)) (\<lambda>_.
           if lcr_diarization request \<and> \<not> lcd_diarization self then Err LUnsupportedDiarization
           else if lcr_key_terms request \<noteq> [] \<and> \<not> lcd_key_terms self then Err LUnsupportedKeyTerms
           else if lcr_input_format request \<notin> set (lcd_input_formats self)
           then Err LUnsupportedInputFormat
           else if lcr_input_frame_bytes request = 0
             \<or> lcr_input_frame_bytes request
                 > lpl_maximum_public_input_frame_bytes (lcd_provider_limits self)
             \<or> lcr_input_frame_bytes request > lpl_maximum_input_frame_bytes (lcd_provider_limits self)
           then Err LInputLimitExceeded
           else live_validate_key_terms (lcr_key_terms request) (lcd_provider_limits self)))"

section \<open>Soundness and completeness\<close>

lemma batch_terms_loop_iff:
  "batch_terms_loop limits terms = Ok () \<longleftrightarrow> (\<forall>t \<in> set terms. \<not> batch_term_invalid limits t)"
  by (induction terms) auto

lemma live_terms_loop_iff:
  "live_terms_loop limits acc terms = Ok n \<longleftrightarrow>
     (\<forall>t \<in> set terms. \<not> live_term_invalid limits t) \<and>
     n = acc + sum_list (map utf16_len terms) \<and> (terms \<noteq> [] \<longrightarrow> n < usize_limit)"
proof (induction terms arbitrary: acc)
  case (Cons t ts)
  show ?case
    by (auto simp: usize_checked_add_def Cons.IH split: if_splits)
qed auto

text \<open>What a batch request has to satisfy, clause by clause.\<close>

definition batch_request_supported ::
  "BatchCapabilityDescriptor \<Rightarrow> BatchCapabilityRequest \<Rightarrow> bool" where
  "batch_request_supported d r \<longleftrightarrow>
     (bcr_timestamps r \<longrightarrow> bcd_timestamps d = BatchSegmentTimestamps) \<and>
     (bcr_finalized_events r \<longrightarrow> bcd_finalized_events d = TerminalTranscript) \<and>
     (\<forall>hint. bcr_language_hint r = Some hint \<longrightarrow> bcd_language_hints d = FixedHint hint) \<and>
     (bcr_diarization r \<longrightarrow> bcd_diarization d) \<and>
     (bcr_key_terms r \<noteq> [] \<longrightarrow> bcd_key_terms d) \<and>
     bcr_input_format r \<in> set (bcd_input_formats d) \<and>
     0 < bcr_input_bytes r \<and>
     bcr_input_bytes r \<le> min (bpl_maximum_public_input_bytes (bcd_provider_limits d))
                             (bpl_maximum_input_bytes (bcd_provider_limits d)) \<and>
     length (bcr_key_terms r) \<le> bpl_maximum_key_terms (bcd_provider_limits d) \<and>
     (\<forall>t \<in> set (bcr_key_terms r). \<not> batch_term_invalid (bcd_provider_limits d) t)"

definition live_request_supported ::
  "LiveCapabilityDescriptor \<Rightarrow> LiveCapabilityRequest \<Rightarrow> bool" where
  "live_request_supported d r \<longleftrightarrow>
     (lcr_timestamps r \<longrightarrow> lcd_timestamps d = LiveSegmentTimestamps) \<and>
     (lcr_finalized_events r \<longrightarrow> lcd_finalized_events d = SegmentAndUtterance) \<and>
     (\<forall>hint. lcr_language_hint r = Some hint \<longrightarrow> validate_language hint (lcd_language_hints d) = Ok ()) \<and>
     (lcr_diarization r \<longrightarrow> lcd_diarization d) \<and>
     (lcr_key_terms r \<noteq> [] \<longrightarrow> lcd_key_terms d) \<and>
     lcr_input_format r \<in> set (lcd_input_formats d) \<and>
     0 < lcr_input_frame_bytes r \<and>
     lcr_input_frame_bytes r \<le> min (lpl_maximum_public_input_frame_bytes (lcd_provider_limits d))
                                   (lpl_maximum_input_frame_bytes (lcd_provider_limits d)) \<and>
     length (lcr_key_terms r) \<le> lpl_maximum_key_terms (lcd_provider_limits d) \<and>
     (\<forall>t \<in> set (lcr_key_terms r). \<not> live_term_invalid (lcd_provider_limits d) t) \<and>
     sum_list (map utf16_len (lcr_key_terms r))
       \<le> lpl_maximum_public_key_term_total_utf16_units (lcd_provider_limits d)"

lemma batch_hint_iff:
  "\<not> batch_hint_unsupported hint policy \<longleftrightarrow> (\<forall>h. hint = Some h \<longrightarrow> policy = FixedHint h)"
  by (cases hint; cases policy) (auto simp: batch_hint_unsupported_def)

lemma not_none_timestamps [simp]:
  "t \<noteq> BatchNoTimestamps \<longleftrightarrow> t = BatchSegmentTimestamps"
  by (cases t) simp_all

lemma not_unfinalized [simp]: "f \<noteq> BatchNotFinalized \<longleftrightarrow> f = TerminalTranscript"
  by (cases f) simp_all

lemma not_none_live_timestamps [simp]:
  "t \<noteq> LiveNoTimestamps \<longleftrightarrow> t = LiveSegmentTimestamps"
  by (cases t) simp_all

lemma not_live_unfinalized [simp]: "f \<noteq> LiveNotFinalized \<longleftrightarrow> f = SegmentAndUtterance"
  by (cases f) simp_all

lemma batch_validate_Ok_iff: "batch_validate d r = Ok () \<longleftrightarrow> batch_request_supported d r"
  unfolding batch_validate_def batch_request_supported_def batch_validate_key_terms_def
    batch_hint_iff [symmetric]
  by (auto simp: batch_terms_loop_iff not_less)

lemma live_validate_Ok_iff:
  assumes "lpl_maximum_public_key_term_total_utf16_units (lcd_provider_limits d) < usize_limit"
  shows "live_validate d r = Ok () \<longleftrightarrow> live_request_supported d r"
proof -
  have hint: "(case lcr_language_hint r of None \<Rightarrow> Ok () | Some l \<Rightarrow> validate_language l (lcd_language_hints d)) = Ok ()
      \<longleftrightarrow> (\<forall>h. lcr_language_hint r = Some h \<longrightarrow> validate_language h (lcd_language_hints d) = Ok ())"
    by (cases "lcr_language_hint r") auto
  have terms: "live_validate_key_terms ts l = Ok () \<longleftrightarrow>
      length ts \<le> lpl_maximum_key_terms l \<and> (\<forall>t \<in> set ts. \<not> live_term_invalid l t) \<and>
      sum_list (map utf16_len ts) \<le> lpl_maximum_public_key_term_total_utf16_units l"
    if "lpl_maximum_public_key_term_total_utf16_units l < usize_limit" for ts l
    using that by (auto simp: live_validate_key_terms_def live_terms_loop_iff)
  show ?thesis
    unfolding live_validate_def live_request_supported_def
    using hint by (auto simp: terms [OF assms] not_less)
qed

section \<open>Properties\<close>

text \<open>The batch capability check accepts a request exactly when every requested feature is
  supported by the profile, the input is non-empty and within both the public and the provider
  bound, and every key term is within the provider's limits; so nothing unsupported reaches a paid
  provider and nothing supported is refused.\<close>

theorem batch_capability_exact: "batch_validate d r = Ok () \<longleftrightarrow> batch_request_supported d r"
  by (rule batch_validate_Ok_iff)


definition sample_live_descriptor :: LiveCapabilityDescriptor where
  "sample_live_descriptor =
     \<lparr>lcd_protocol_version = 2, lcd_provider = [], lcd_model = [],
      lcd_timestamps = LiveSegmentTimestamps, lcd_timestamp_provenance = ProviderNative,
      lcd_finalized_events = SegmentAndUtterance, lcd_language_hints = AsciiCode 35 True,
      lcd_diarization = False, lcd_key_terms = True, lcd_input_formats = [PcmS16Le16KhzMono],
      lcd_provider_limits =
        \<lparr>lpl_maximum_public_input_frame_bytes = 65536, lpl_maximum_input_frame_bytes = 65536,
         lpl_maximum_key_terms = 100, lpl_maximum_key_term_bytes = None,
         lpl_maximum_public_key_term_utf16_units = 200, lpl_maximum_key_term_characters = None,
         lpl_key_term_character_unit = None, lpl_maximum_public_key_term_total_utf16_units = 5000,
         lpl_normalize_key_term_whitespace = False\<rparr>\<rparr>"

definition sample_live_request :: LiveCapabilityRequest where
  "sample_live_request =
     \<lparr>lcr_timestamps = True, lcr_finalized_events = True, lcr_language_hint = None,
      lcr_diarization = False, lcr_key_terms = [[104, 105]], lcr_input_format = PcmS16Le16KhzMono,
      lcr_input_frame_bytes = 640\<rparr>"


end
