(* ===== verification/Deepgram_Timeline.thy ===== *)
theory Deepgram_Timeline
  imports Ports "HOL-Library.Sublist"
begin

text \<open>
  The normalisation of a Deepgram batch response against the gateway's own measurement of the
  audio: \<^verbatim>\<open>crates/voicetext-providers/src/deepgram/timeline.rs\<close>, on the parsed response of
  \<^verbatim>\<open>deepgram/dto.rs\<close>. Overlapping utterances are cut or merged. The argument \<open>lower\<close> is
  \<open>str::to_lowercase\<close>, whose Unicode tables are not reproduced; nothing is assumed about it.
\<close>

section \<open>Data\<close>

record ParsedSegment =
  ps_start_ms :: u64
  ps_end_ms :: u64
  ps_text :: str
  ps_confidence :: "float option"
  ps_speaker :: "str option"
  ps_start_seconds :: float
  ps_end_seconds :: float

record ParsedReadableSegment =
  prs_start_ms :: u64
  prs_end_ms :: u64
  prs_text :: str
  prs_source_segment_indices :: "usize list"

record ParsedBatchResult =
  pb_text :: str
  pb_provider_duration_ms :: u64
  pb_segments :: "ParsedSegment list"
  pb_readable_segments :: "ParsedReadableSegment list"
  pb_provider_request_id :: "str option"

definition TIMESTAMP_TOLERANCE_MILLIS :: u64 where
  "TIMESTAMP_TOLERANCE_MILLIS = 250"

definition TIMESTAMP_RELATIVE_TOLERANCE_DIVISOR :: u64 where
  "TIMESTAMP_RELATIVE_TOLERANCE_DIVISOR = 200"

definition MAX_UTTERANCE_OVERLAP_MILLIS :: u64 where
  "MAX_UTTERANCE_OVERLAP_MILLIS = 10000"

section \<open>Operations\<close>

definition invalid_timing :: "ProviderReference option \<Rightarrow> RecognitionFailure" where
  "invalid_timing provider_reference =
     UnknownAfterSend (lit ''DEEPGRAM_INVALID_TIMING'') provider_reference"

text \<open>The in-place update of the end is the returned value.\<close>

definition normalize_end ::
  "u64 \<Rightarrow> u64 \<Rightarrow> u64 \<Rightarrow> u64 \<Rightarrow> ProviderReference option \<Rightarrow> (u64, RecognitionFailure) result" where
  "normalize_end start_millis end_millis authoritative_duration_millis maximum_provider_end
     provider_reference =
     (if start_millis \<ge> authoritative_duration_millis \<or> end_millis > maximum_provider_end
         \<or> end_millis \<le> start_millis
      then Err (invalid_timing provider_reference)
      else Ok (min end_millis authoritative_duration_millis))"

definition words_equal :: "(str \<Rightarrow> str) \<Rightarrow> str list \<Rightarrow> str list \<Rightarrow> bool" where
  "words_equal lower left right = list_all (\<lambda>(l, r). lower l = lower r) (zip left right)"

text \<open>\<open>slice::windows\<close>, for a positive size.\<close>

definition windows :: "nat \<Rightarrow> 'a list \<Rightarrow> 'a list list" where
  "windows n xs = map (\<lambda>i. take n (drop i xs)) [0..<length xs + 1 - n]"

definition contains_words :: "(str \<Rightarrow> str) \<Rightarrow> str list \<Rightarrow> str list \<Rightarrow> bool" where
  "contains_words lower haystack needle \<longleftrightarrow>
     needle \<noteq> [] \<and> length needle \<le> length haystack
     \<and> list_ex (\<lambda>window. words_equal lower window needle) (windows (length needle) haystack)"

definition merge_contained_text :: "(str \<Rightarrow> str) \<Rightarrow> str \<Rightarrow> str \<Rightarrow> str" where
  "merge_contained_text lower previous current =
     (let previous_words = split_whitespace previous; current_words = split_whitespace current in
      if contains_words lower previous_words current_words then previous
      else if contains_words lower current_words previous_words then current
      else
        let maximum_shared_words = min (length previous_words) (length current_words) in
        (case find (\<lambda>shared_words.
                 words_equal lower (drop (length previous_words - shared_words) previous_words)
                   (take shared_words current_words))
               (rev [1..<Suc maximum_shared_words]) of
           Some shared_words \<Rightarrow>
             join (lit '' '') (previous_words @ drop shared_words current_words)
         | None \<Rightarrow> previous @ lit '' '' @ current))"

fun overlaps_loop ::
  "(str \<Rightarrow> str) \<Rightarrow> ProviderReference option \<Rightarrow> ParsedSegment list \<Rightarrow> bool \<Rightarrow> ParsedSegment list
   \<Rightarrow> (ParsedSegment list \<times> bool, RecognitionFailure) result" where
  "overlaps_loop lower r normalized changed [] = Ok (normalized, changed)"
| "overlaps_loop lower r normalized changed (segment # rest) =
     (if normalized = [] then overlaps_loop lower r [segment] changed rest
      else
        let previous = last normalized in
        if ps_start_ms segment \<ge> ps_end_ms previous
        then overlaps_loop lower r (normalized @ [segment]) changed rest
        else
          let overlap_millis = ps_end_ms previous - ps_start_ms segment in
          if overlap_millis > MAX_UTTERANCE_OVERLAP_MILLIS then Err (invalid_timing r)
          else if ps_end_ms segment \<le> ps_end_ms previous
          then overlaps_loop lower r
                 (butlast normalized @
                    [previous\<lparr>ps_text := merge_contained_text lower (ps_text previous) (ps_text segment)\<rparr>])
                 True rest
          else overlaps_loop lower r (normalized @ [segment\<lparr>ps_start_ms := ps_end_ms previous\<rparr>])
                 True rest)"

definition normalize_utterance_overlaps ::
  "(str \<Rightarrow> str) \<Rightarrow> ParsedSegment list \<Rightarrow> ProviderReference option
   \<Rightarrow> (ParsedSegment list \<times> bool, RecognitionFailure) result" where
  "normalize_utterance_overlaps lower segments r = overlaps_loop lower r [] False segments"

definition provider_tolerance :: "u64 \<Rightarrow> u64" where
  "provider_tolerance duration =
     max TIMESTAMP_TOLERANCE_MILLIS (duration div TIMESTAMP_RELATIVE_TOLERANCE_DIVISOR)"

definition timeline_normalize ::
  "(str \<Rightarrow> str) \<Rightarrow> ParsedBatchResult \<Rightarrow> u64 \<Rightarrow> (ParsedBatchResult, RecognitionFailure) result" where
  "timeline_normalize lower parsed authoritative_duration_millis =
     (let maximum_provider_end =
            saturating_add authoritative_duration_millis
              (provider_tolerance authoritative_duration_millis);
          provider_reference =
            map_option (reference_operation RequestId) (pb_provider_request_id parsed)
      in
      and_then (collect_results (map (\<lambda>s.
          map_ok (\<lambda>e. s\<lparr>ps_end_ms := e\<rparr>)
            (normalize_end (ps_start_ms s) (ps_end_ms s) authoritative_duration_millis
               maximum_provider_end provider_reference)) (pb_segments parsed))) (\<lambda>segments.
      and_then (collect_results (map (\<lambda>s.
          map_ok (\<lambda>e. s\<lparr>prs_end_ms := e\<rparr>)
            (normalize_end (prs_start_ms s) (prs_end_ms s) authoritative_duration_millis
               maximum_provider_end provider_reference)) (pb_readable_segments parsed))) (\<lambda>readable.
      and_then (normalize_utterance_overlaps lower segments provider_reference) (\<lambda>(segments', changed).
        Ok (parsed\<lparr>pb_segments := segments',
                   pb_readable_segments := (if changed then [] else readable)\<rparr>)))))"

section \<open>The words of merged text\<close>

text \<open>\<open>hay\<close> contains the words of \<open>needle\<close>, in order and without a gap, up to letter case.\<close>

definition covers :: "(str \<Rightarrow> str) \<Rightarrow> str list \<Rightarrow> str list \<Rightarrow> bool" where
  "covers lower hay needle \<longleftrightarrow> sublist (map lower needle) (map lower hay)"

lemma covers_refl [simp]: "covers lower ws ws"
  by (simp add: covers_def)

lemma covers_trans: "covers lower a b \<Longrightarrow> covers lower b c \<Longrightarrow> covers lower a c"
  unfolding covers_def using sublist_order.order.trans by blast

lemma covers_append [simp]: "covers lower (a @ b) a" "covers lower (a @ b) b"
  by (auto simp: covers_def)

lemma words_equal_iff:
  "length a = length b \<Longrightarrow> words_equal lower a b \<longleftrightarrow> map lower a = map lower b"
  by (induction a b rule: list_induct2) (auto simp: words_equal_def)

lemma contains_words_covers:
  assumes "contains_words lower hay needle"
  shows "covers lower hay needle"
proof -
  let ?n = "length needle"
  obtain i where i: "i + ?n \<le> length hay" and eq: "words_equal lower (take ?n (drop i hay)) needle"
  proof -
    obtain i where "i < Suc (length hay) - ?n" and "words_equal lower (take ?n (drop i hay)) needle"
      using assms by (auto simp: contains_words_def windows_def list_ex_iff)
    then show ?thesis by (intro that [of i]) simp_all
  qed
  from i have "length (take ?n (drop i hay)) = ?n" by simp
  then have "map lower needle = map lower (take ?n (drop i hay))"
    using eq by (simp add: words_equal_iff)
  moreover have "sublist (take ?n (drop i hay)) hay"
    by (rule sublist_order.order.trans [OF sublist_take sublist_drop])
  ultimately show ?thesis by (simp add: covers_def map_mono_sublist)
qed

lemma covers_overlap:
  assumes "words_equal lower (drop (length p - k) p) (take k c)" and "k \<le> length p" and "k \<le> length c"
  shows "covers lower (p @ drop k c) c"
proof -
  let ?d = "drop (length p - k) p"
  have "map lower ?d = map lower (take k c)"
    using assms by (subst words_equal_iff [symmetric]) auto
  then have "map lower c = map lower (?d @ drop k c)"
    by (metis append_take_drop_id map_append)
  moreover have "sublist (?d @ drop k c) (p @ drop k c)"
    by (metis append.assoc append_take_drop_id sublist_append_leftI sublist_order.order_refl)
  ultimately show ?thesis unfolding covers_def by (metis map_mono_sublist)
qed

lemma merge_contained_text_covers:
  shows "covers lower (split_whitespace (merge_contained_text lower p c)) (split_whitespace p)"
    and "covers lower (split_whitespace (merge_contained_text lower p c)) (split_whitespace c)"
proof -
  let ?p = "split_whitespace p" and ?c = "split_whitespace c"
  have space: "is_whitespace 32" by (simp add: is_whitespace_def)
  have drop_words: "list_all is_word (drop k ?c)" for k
    using split_whitespace_words [of c] by (auto simp: list_all_iff dest: in_set_dropD)
  have "covers lower (split_whitespace (merge_contained_text lower p c)) ?p \<and>
        covers lower (split_whitespace (merge_contained_text lower p c)) ?c"
  proof (cases "contains_words lower ?p ?c \<or> contains_words lower ?c ?p")
    case True
    then show ?thesis
      by (auto simp: merge_contained_text_def Let_def dest: contains_words_covers)
  next
    case False
    let ?eq = "\<lambda>k. words_equal lower (drop (length ?p - k) ?p) (take k ?c)"
    let ?find = "find ?eq (rev [1..<Suc (min (length ?p) (length ?c))])"
    show ?thesis
    proof (cases ?find)
      case None
      with False space show ?thesis
        by (simp add: merge_contained_text_def Let_def split_whitespace_append)
    next
      case (Some k)
      then have k: "?eq k" "k \<le> length ?p" "k \<le> length ?c"
        by (auto dest!: find_SomeD)
      have "merge_contained_text lower p c = join (lit '' '') (?p @ drop k ?c)"
        using False Some by (simp add: merge_contained_text_def Let_def)
      then have "split_whitespace (merge_contained_text lower p c) = ?p @ drop k ?c"
        using drop_words split_whitespace_words [of p] by (simp add: split_whitespace_join del: lit_Cons)
      then show ?thesis using covers_overlap [OF k] by simp
    qed
  qed
  then show "covers lower (split_whitespace (merge_contained_text lower p c)) ?p"
    and "covers lower (split_whitespace (merge_contained_text lower p c)) ?c" by simp_all
qed

section \<open>The loop\<close>

definition ordered_segments :: "u64 \<Rightarrow> ParsedSegment list \<Rightarrow> bool" where
  "ordered_segments duration segments \<longleftrightarrow>
     sorted_wrt (\<lambda>a b. ps_end_ms a \<le> ps_start_ms b) segments \<and>
     (\<forall>s \<in> set segments. ps_start_ms s < ps_end_ms s \<and> ps_end_ms s \<le> duration)"

lemma ordered_segments_snoc:
  assumes "ordered_segments d xs" and "xs \<noteq> []" and "ps_end_ms (last xs) \<le> ps_start_ms s"
    and "ps_start_ms s < ps_end_ms s" and "ps_end_ms s \<le> d"
  shows "ordered_segments d (xs @ [s])"
proof -
  obtain ys l where xs: "xs = ys @ [l]" using assms(2) by (metis append_butlast_last_id)
  have "ps_end_ms y \<le> ps_start_ms s" if "y \<in> set ys" for y
  proof -
    have "ps_end_ms y \<le> ps_start_ms l" and "ps_start_ms l < ps_end_ms l"
      using assms(1) that by (auto simp: ordered_segments_def xs sorted_wrt_append)
    then show ?thesis using assms(3) by (simp add: xs)
  qed
  then show ?thesis
    using assms by (auto simp: ordered_segments_def xs sorted_wrt_append)
qed

lemma ordered_segments_text:
  assumes "ordered_segments d xs" and "xs \<noteq> []"
  shows "ordered_segments d (butlast xs @ [(last xs)\<lparr>ps_text := t\<rparr>])"
proof -
  obtain ys l where xs: "xs = ys @ [l]" using assms(2) by (metis append_butlast_last_id)
  then show ?thesis using assms(1) by (auto simp: ordered_segments_def sorted_wrt_append)
qed

lemma overlaps_loop_ordered:
  assumes "overlaps_loop lower r normalized changed segments = Ok (out, c)"
    and "ordered_segments d normalized"
    and "\<forall>s \<in> set segments. ps_start_ms s < ps_end_ms s \<and> ps_end_ms s \<le> d"
  shows "ordered_segments d out"
  using assms
proof (induction lower r normalized changed segments rule: overlaps_loop.induct)
  case (2 lower r normalized changed segment rest)
  show ?case
  proof (cases "normalized = []")
    case True
    moreover have "ordered_segments d [segment]"
      using "2.prems"(3) by (simp add: ordered_segments_def)
    ultimately show ?thesis using 2 by simp
  next
    case False
    let ?p = "last normalized"
    consider (after) "ps_end_ms ?p \<le> ps_start_ms segment"
      | (inside) "\<not> ps_end_ms ?p \<le> ps_start_ms segment" "ps_end_ms segment \<le> ps_end_ms ?p"
      | (across) "\<not> ps_end_ms ?p \<le> ps_start_ms segment" "\<not> ps_end_ms segment \<le> ps_end_ms ?p"
      by blast
    then show ?thesis
    proof cases
      case after
      with 2 False ordered_segments_snoc [of d normalized segment] show ?thesis by simp
    next
      case inside
      with 2 False ordered_segments_text [of d normalized] show ?thesis
        by (simp add: Let_def split: if_splits)
    next
      case across
      with 2 False ordered_segments_snoc [of d normalized "segment\<lparr>ps_start_ms := ps_end_ms ?p\<rparr>"]
      show ?thesis by (simp add: Let_def split: if_splits)
    qed
  qed
qed simp

definition words_kept :: "(str \<Rightarrow> str) \<Rightarrow> ParsedSegment list \<Rightarrow> ParsedSegment list \<Rightarrow> bool" where
  "words_kept lower before after \<longleftrightarrow>
     (\<forall>s \<in> set before. \<exists>s' \<in> set after.
        covers lower (split_whitespace (ps_text s')) (split_whitespace (ps_text s)))"

lemma words_kept_trans: "words_kept l a b \<Longrightarrow> words_kept l b c \<Longrightarrow> words_kept l a c"
  unfolding words_kept_def by (meson covers_trans)

lemma words_kept_refl [simp]: "words_kept l a a"
  unfolding words_kept_def using covers_refl by blast

lemma words_kept_merge:
  assumes "xs \<noteq> []"
  shows "words_kept l (xs @ s # rest)
    ((butlast xs @ [(last xs)\<lparr>ps_text := merge_contained_text l (ps_text (last xs)) (ps_text s)\<rparr>]) @ rest)"
proof -
  obtain ys p where "xs = ys @ [p]" using assms by (metis append_butlast_last_id)
  then show ?thesis
    by (auto simp: words_kept_def merge_contained_text_covers intro: covers_refl)
qed

lemma words_kept_cut: "words_kept l (xs @ s # rest) ((xs @ [s\<lparr>ps_start_ms := t\<rparr>]) @ rest)"
  by (auto simp: words_kept_def intro: covers_refl)

lemma overlaps_loop_words:
  assumes "overlaps_loop lower r normalized changed segments = Ok (out, c)"
  shows "words_kept lower (normalized @ segments) out"
  using assms
proof (induction lower r normalized changed segments rule: overlaps_loop.induct)
  case (2 lower r normalized changed segment rest)
  then show ?case
    using words_kept_merge [of normalized lower segment rest]
      words_kept_cut [of lower normalized segment rest "ps_end_ms (last normalized)"]
    by (auto simp: Let_def split: if_splits dest: words_kept_trans)
qed simp

lemma overlaps_loop_unchanged:
  assumes "overlaps_loop lower r normalized changed segments = Ok (out, False)"
  shows "out = normalized @ segments"
  using assms
proof (induction lower r normalized changed segments rule: overlaps_loop.induct)
  case (2 lower r normalized changed segment rest)
  have "\<not> overlaps_loop lower r xs True ys = Ok (out, False)" for xs ys
    by (induction ys arbitrary: xs) (auto simp: Let_def)
  with 2 show ?case by (auto simp: Let_def split: if_splits)
qed simp

lemma overlaps_loop_fixpoint:
  assumes "sorted_wrt (\<lambda>a b. ps_end_ms a \<le> ps_start_ms b) (normalized @ segments)"
  shows "overlaps_loop lower r normalized changed segments = Ok (normalized @ segments, changed)"
  using assms
proof (induction lower r normalized changed segments rule: overlaps_loop.induct)
  case (2 lower r normalized changed segment rest)
  then show ?case by (auto simp: sorted_wrt_append)
qed simp

section \<open>The whole normalisation\<close>

definition in_duration :: "u64 \<Rightarrow> u64 \<Rightarrow> u64 \<Rightarrow> bool" where
  "in_duration d s e \<longleftrightarrow> s < e \<and> e \<le> d"

lemma normalize_end_Ok:
  "normalize_end s e d m r = Ok e' \<longleftrightarrow> s < d \<and> e \<le> m \<and> s < e \<and> e' = min e d"
  by (auto simp: normalize_end_def not_le not_less)

lemma normalize_end_in_duration: "normalize_end s e d m r = Ok e' \<Longrightarrow> in_duration d s e'"
  by (auto simp: normalize_end_Ok in_duration_def)

lemma normalize_end_fixed:
  "in_duration d s e \<Longrightarrow> d \<le> m \<Longrightarrow> normalize_end s e d m r = Ok e"
  by (auto simp: normalize_end_Ok in_duration_def)

lemma provider_end_reaches_duration: "d \<le> saturating_add d t" for d t :: u64
  using unat_u64_less [of d] by (simp add: word_le_nat_alt unat_saturating_add)

lemma timeline_normalize_parts:
  assumes "timeline_normalize lower parsed d = Ok out"
  obtains r segments readable changed where
    "list_all2 (\<lambda>s s'. in_duration d (ps_start_ms s') (ps_end_ms s') \<and> ps_text s' = ps_text s)
       (pb_segments parsed) segments"
    and "\<forall>s \<in> set readable. in_duration d (prs_start_ms s) (prs_end_ms s)"
    and "overlaps_loop lower r [] False segments = Ok (pb_segments out, changed)"
    and "pb_readable_segments out = (if changed then [] else readable)"
proof -
  let ?m = "saturating_add d (provider_tolerance d)"
  let ?r = "map_option (reference_operation RequestId) (pb_provider_request_id parsed)"
  obtain segments readable changed where
    s: "map (\<lambda>s. map_ok (\<lambda>e. s\<lparr>ps_end_ms := e\<rparr>)
          (normalize_end (ps_start_ms s) (ps_end_ms s) d ?m ?r)) (pb_segments parsed) = map Ok segments"
    and rd: "map (\<lambda>s. map_ok (\<lambda>e. s\<lparr>prs_end_ms := e\<rparr>)
          (normalize_end (prs_start_ms s) (prs_end_ms s) d ?m ?r)) (pb_readable_segments parsed)
        = map Ok readable"
    and o: "overlaps_loop lower ?r [] False segments = Ok (pb_segments out, changed)"
      "pb_readable_segments out = (if changed then [] else readable)"
    using assms
    by (auto simp: timeline_normalize_def Let_def collect_results_Ok_iff normalize_utterance_overlaps_def)
  have "in_duration d (ps_start_ms (segments ! i)) (ps_end_ms (segments ! i)) \<and>
        ps_text (segments ! i) = ps_text (pb_segments parsed ! i)"
    if "i < length segments" for i
    using arg_cong [OF s, of "\<lambda>xs. xs ! i"] that map_eq_imp_length_eq [OF s]
    by (auto dest: normalize_end_in_duration)
  then have 1: "list_all2 (\<lambda>s s'. in_duration d (ps_start_ms s') (ps_end_ms s') \<and> ps_text s' = ps_text s)
       (pb_segments parsed) segments"
    using map_eq_imp_length_eq [OF s] by (simp add: list_all2_conv_all_nth)
  have "in_duration d (prs_start_ms x) (prs_end_ms x)" if "x \<in> set readable" for x
  proof -
    have "(Ok x :: (_, RecognitionFailure) result) \<in> set (map Ok readable)" using that by simp
    then obtain s e where "normalize_end (prs_start_ms s) (prs_end_ms s) d ?m ?r = Ok e"
      and "x = s\<lparr>prs_end_ms := e\<rparr>"
      unfolding rd [symmetric] by (auto simp: eq_commute [of "Ok x"])
    then show ?thesis using normalize_end_in_duration by simp
  qed
  then show ?thesis using that [OF 1 _ o] by blast
qed

lemma list_all2_right: "list_all2 (\<lambda>x y. P y \<and> Q x y) xs ys \<Longrightarrow> \<forall>y \<in> set ys. P y"
  by (induction rule: list_all2_induct) auto

lemma list_all2_words_kept:
  assumes "list_all2 (\<lambda>s s'. P s' \<and> ps_text s' = ps_text s) xs ys"
  shows "words_kept l xs ys"
proof -
  have "\<forall>s \<in> set xs. \<exists>s' \<in> set ys. ps_text s' = ps_text s"
    using assms by (induction rule: list_all2_induct) auto
  then show ?thesis unfolding words_kept_def by (metis covers_refl)
qed

lemma normalized_ordered:
  assumes "timeline_normalize lower parsed d = Ok out"
  shows "ordered_segments d (pb_segments out)"
    and "\<forall>s \<in> set (pb_readable_segments out). in_duration d (prs_start_ms s) (prs_end_ms s)"
    and "words_kept lower (pb_segments parsed) (pb_segments out)"
proof -
  obtain r segments readable changed where
    p: "list_all2 (\<lambda>s s'. in_duration d (ps_start_ms s') (ps_end_ms s') \<and> ps_text s' = ps_text s)
       (pb_segments parsed) segments"
    "\<forall>s \<in> set readable. in_duration d (prs_start_ms s) (prs_end_ms s)"
    "overlaps_loop lower r [] False segments = Ok (pb_segments out, changed)"
    "pb_readable_segments out = (if changed then [] else readable)"
    using timeline_normalize_parts [OF assms] .
  have "\<forall>s \<in> set segments. ps_start_ms s < ps_end_ms s \<and> ps_end_ms s \<le> d"
    using list_all2_right [OF p(1)] by (simp add: in_duration_def)
  then show "ordered_segments d (pb_segments out)"
    by (intro overlaps_loop_ordered [OF p(3)]) (simp_all add: ordered_segments_def)
  show "\<forall>s \<in> set (pb_readable_segments out). in_duration d (prs_start_ms s) (prs_end_ms s)"
    using p(2,4) by simp
  show "words_kept lower (pb_segments parsed) (pb_segments out)"
    using list_all2_words_kept [OF p(1)] overlaps_loop_words [OF p(3)]
    by (auto intro: words_kept_trans)
qed

lemma collect_fixed:
  "\<forall>x \<in> set xs. f x = Ok x \<Longrightarrow> collect_results (map f xs) = Ok xs"
  by (induction xs) auto

section \<open>Properties\<close>

text \<open>C20: Whatever a Deepgram response claims about time, a response that is accepted yields
  segments that are in order, pairwise non-overlapping, non-empty and inside the duration the
  gateway itself measured, and every readable segment is inside that duration too.\<close>

theorem deepgram_timeline_ordered:
  assumes "timeline_normalize lower parsed duration = Ok out"
  shows "sorted_wrt (\<lambda>a b. ps_end_ms a \<le> ps_start_ms b) (pb_segments out) \<and>
    (\<forall>s \<in> set (pb_segments out). ps_start_ms s < ps_end_ms s \<and> ps_end_ms s \<le> duration) \<and>
    (\<forall>s \<in> set (pb_readable_segments out). prs_start_ms s < prs_end_ms s \<and> prs_end_ms s \<le> duration)"
  using normalized_ordered(1,2) [OF assms] by (simp add: ordered_segments_def in_duration_def)

text \<open>C21: Removing overlaps loses no words: for every segment of the provider's response some
  segment of the normalised timeline contains its words as a contiguous run, up to the case
  folding the merge itself uses.\<close>

theorem deepgram_words_kept:
  assumes "timeline_normalize lower parsed duration = Ok out" and "s \<in> set (pb_segments parsed)"
  shows "\<exists>s' \<in> set (pb_segments out).
    sublist (map lower (split_whitespace (ps_text s))) (map lower (split_whitespace (ps_text s')))"
  using normalized_ordered(3) [OF assms(1)] assms(2) by (auto simp: words_kept_def covers_def)

text \<open>Normalisation is idempotent: a timeline it has produced is accepted again and left as
  it is.\<close>

theorem deepgram_normalize_idempotent:
  assumes "timeline_normalize lower parsed duration = Ok out"
  shows "timeline_normalize lower out duration = Ok out"
proof -
  let ?m = "saturating_add duration (provider_tolerance duration)"
  let ?r = "map_option (reference_operation RequestId) (pb_provider_request_id out)"
  have "in_duration duration (ps_start_ms s) (ps_end_ms s)" if "s \<in> set (pb_segments out)" for s
    using normalized_ordered(1) [OF assms] that by (auto simp: ordered_segments_def in_duration_def)
  then have "collect_results (map (\<lambda>s. map_ok (\<lambda>e. s\<lparr>ps_end_ms := e\<rparr>)
      (normalize_end (ps_start_ms s) (ps_end_ms s) duration ?m ?r)) (pb_segments out))
      = Ok (pb_segments out)"
    by (intro collect_fixed)
      (auto simp: normalize_end_fixed [OF _ provider_end_reaches_duration])
  moreover have "collect_results (map (\<lambda>s. map_ok (\<lambda>e. s\<lparr>prs_end_ms := e\<rparr>)
      (normalize_end (prs_start_ms s) (prs_end_ms s) duration ?m ?r)) (pb_readable_segments out))
      = Ok (pb_readable_segments out)"
    using normalized_ordered(2) [OF assms]
    by (intro collect_fixed)
      (auto simp: normalize_end_fixed [OF _ provider_end_reaches_duration])
  moreover have "overlaps_loop lower ?r [] False (pb_segments out) = Ok (pb_segments out, False)"
    using overlaps_loop_fixpoint [of "[]" "pb_segments out"] normalized_ordered(1) [OF assms]
    by (simp add: ordered_segments_def)
  ultimately show ?thesis
    by (simp add: timeline_normalize_def Let_def normalize_utterance_overlaps_def)
qed

section \<open>Witnesses\<close>

text \<open>Two utterances, "Hello big" from 0 to 5 s and "BIG world" inside the first from 3 to 4.9 s.\<close>

definition sample_segment :: "u64 \<Rightarrow> u64 \<Rightarrow> str \<Rightarrow> ParsedSegment" where
  "sample_segment s e w =
     \<lparr>ps_start_ms = s, ps_end_ms = e, ps_text = w, ps_confidence = None, ps_speaker = None,
      ps_start_seconds = Finite 0, ps_end_seconds = Finite 0\<rparr>"

definition sample_response :: ParsedBatchResult where
  "sample_response =
     \<lparr>pb_text = [104], pb_provider_duration_ms = 5000,
      pb_segments = [sample_segment 0 5100 [104, 32, 98], sample_segment 3000 4900 [98, 32, 119]],
      pb_readable_segments = [], pb_provider_request_id = None\<rparr>"

definition sample_normalized :: ParsedBatchResult where
  "sample_normalized =
     sample_response\<lparr>pb_segments := [sample_segment 0 5000 [104, 32, 98, 32, 119]]\<rparr>"

lemma split_samples:
  "split_whitespace [104, 32, 98] = [[104], [98]]"
  "split_whitespace [98, 32, 119] = [[98], [119]]"
  by (simp_all add: split_whitespace_nonspace is_whitespace_def)

lemma sample_normalizes: "timeline_normalize (\<lambda>w. w) sample_response 5000 = Ok sample_normalized"
proof -
  have "merge_contained_text (\<lambda>w. w) [104, 32, 98] [98, 32, 119] = [104, 32, 98, 32, 119]"
    by (simp add: merge_contained_text_def split_samples contains_words_def windows_def
        words_equal_def numeral_2_eq_2)
  then show ?thesis
    by (simp add: timeline_normalize_def sample_response_def sample_normalized_def
        sample_segment_def normalize_end_def normalize_utterance_overlaps_def
        provider_tolerance_def TIMESTAMP_TOLERANCE_MILLIS_def
        TIMESTAMP_RELATIVE_TOLERANCE_DIVISOR_def MAX_UTTERANCE_OVERLAP_MILLIS_def
        saturating_add_def max_def min_def)
qed

theorem deepgram_timeline_ordered_witness:
  "\<exists>out. timeline_normalize (\<lambda>w. w) sample_response 5000 = Ok out \<and> pb_segments out \<noteq> [] \<and>
     (\<forall>s \<in> set (pb_segments out). ps_start_ms s < ps_end_ms s \<and> ps_end_ms s \<le> 5000)"
  using deepgram_timeline_ordered [OF sample_normalizes] sample_normalizes
  by (auto simp: sample_normalized_def)

theorem deepgram_words_kept_witness:
  "\<exists>s' \<in> set (pb_segments sample_normalized). sublist [[98], [119]] (split_whitespace (ps_text s'))"
  using deepgram_words_kept [OF sample_normalizes, of "sample_segment 3000 4900 [98, 32, 119]"]
  by (auto simp: sample_response_def sample_segment_def split_samples)

theorem deepgram_normalize_idempotent_witness:
  "timeline_normalize (\<lambda>w. w) sample_normalized 5000 = Ok sample_normalized"
  by (rule deepgram_normalize_idempotent [OF sample_normalizes])

end
