(* ===== verification/Elevenlabs_Live_State.thy ===== *)
theory Elevenlabs_Live_State
  imports Live_Timeline
begin

text \<open>
  The transcript state of an ElevenLabs realtime session:
  \<^verbatim>\<open>crates/voicetext-providers/src/elevenlabs/live_state.rs\<close>, with the parsed messages of
  \<^verbatim>\<open>elevenlabs/live_dto.rs\<close>. ElevenLabs times are not used; the state synthesises the timeline from
  the audio written so far, removes duplicates and reconciles the committed text with the segment
  finals that were already emitted.

  The Unicode tables behind \<open>char::is_alphanumeric\<close> and \<open>char::to_lowercase\<close> are the argument \<open>u\<close>;
  nothing is assumed about them. Slicing a string at a byte index that is not a character boundary
  panics in Rust; it is the error \<open>SlicePanic\<close> here, and a lemma shows that it does not happen.
\<close>

section \<open>Data\<close>

record unicode_tables =
  alphanumeric :: "scalar \<Rightarrow> bool"
  lowercase_of :: "scalar \<Rightarrow> str"

datatype panic = SlicePanic

datatype TranscriptKind = KindPartial | KindSegmentFinal | KindUtteranceFinal

datatype ParsedLiveMessage =
    MsgSessionStarted "str option"
  | MsgTranscript TranscriptKind str "float option"
  | MsgTerminalError str
  | MsgIgnore

definition BYTES_PER_SAMPLE :: u64 where
  "BYTES_PER_SAMPLE = 2"

definition MAX_RECENT_TEXTS :: usize where
  "MAX_RECENT_TEXTS = 8"

definition MAX_PENDING_EVENTS :: usize where
  "MAX_PENDING_EVENTS = 4"

record LiveState =
  els_sample_rate_hz :: u32
  els_user_audio_bytes :: u64
  els_accepted_audio_boundary :: u64
  els_segment_end_millis :: u64
  els_committed_end_millis :: u64
  els_finalizing :: bool
  els_stable_text :: str
  els_recent_stable :: "(u64 \<times> str) list"
  els_recent_committed :: "(u64 \<times> str) list"
  els_pending :: "LiveRecognitionEvent list"
  els_provider_reference :: "ProviderReference option"

section \<open>Text\<close>

definition normalize_text :: "unicode_tables \<Rightarrow> str \<Rightarrow> str" where
  "normalize_text u t =
     concat (map (lowercase_of u) (filter (alphanumeric u) (concat (split_whitespace t))))"

text \<open>The loop of \<open>lexical_tokens\<close>: the remaining text, its byte index, the token being read and
  where it started.\<close>

fun lexical_tokens_loop ::
  "unicode_tables \<Rightarrow> str \<Rightarrow> usize \<Rightarrow> str \<Rightarrow> usize \<Rightarrow> (str \<times> usize) list \<Rightarrow> (str \<times> usize) list" where
  "lexical_tokens_loop u [] index current start tokens =
     (if current \<noteq> [] then tokens @ [(current, start)] else tokens)"
| "lexical_tokens_loop u (c # rest) index current start tokens =
     (let next_index = index + length (utf8_char c) in
      if alphanumeric u c
      then lexical_tokens_loop u rest next_index (current @ lowercase_of u c)
             (if current = [] then index else start) tokens
      else if current \<noteq> [] then lexical_tokens_loop u rest next_index [] start (tokens @ [(current, start)])
      else lexical_tokens_loop u rest next_index current start tokens)"

definition lexical_tokens :: "unicode_tables \<Rightarrow> str \<Rightarrow> (str \<times> usize) list" where
  "lexical_tokens u t = lexical_tokens_loop u t 0 [] 0 []"

text \<open>\<open>&s[index..]\<close>.\<close>

fun str_slice_from :: "str \<Rightarrow> usize \<Rightarrow> (str, panic) result" where
  "str_slice_from s 0 = Ok s"
| "str_slice_from [] (Suc n) = Err SlicePanic"
| "str_slice_from (c # s) (Suc n) =
     (if length (utf8_char c) \<le> Suc n then str_slice_from s (Suc n - length (utf8_char c))
      else Err SlicePanic)"

definition committed_suffix_after_stable_prefix ::
  "unicode_tables \<Rightarrow> str \<Rightarrow> str \<Rightarrow> (str option, panic) result" where
  "committed_suffix_after_stable_prefix u committed stable_text =
     (let stable_tokens = lexical_tokens u stable_text in
      if stable_tokens = [] then Ok None
      else
        let committed_tokens = lexical_tokens u committed in
        if length stable_tokens > length committed_tokens
           \<or> \<not> list_all (\<lambda>(s, c). fst s = fst c) (zip stable_tokens committed_tokens)
        then Ok None
        else if length stable_tokens = length committed_tokens then Ok (Some [])
        else map_ok (\<lambda>suffix. Some (trim suffix))
               (str_slice_from committed (snd (committed_tokens ! length stable_tokens))))"

definition append_stable :: "str \<Rightarrow> str \<Rightarrow> str" where
  "append_stable accumulator t =
     (if accumulator \<noteq> [] then accumulator @ lit '' '' else accumulator) @ trim t"

section \<open>Bounded queues\<close>

definition contains_at_boundary :: "(u64 \<times> str) list \<Rightarrow> u64 \<Rightarrow> str \<Rightarrow> bool" where
  "contains_at_boundary queue boundary normalized =
     list_ex (\<lambda>(seen, value). seen = boundary \<and> value = normalized) queue"

definition remember :: "(u64 \<times> str) list \<Rightarrow> u64 \<Rightarrow> str \<Rightarrow> (u64 \<times> str) list" where
  "remember queue boundary value =
     (if length queue = MAX_RECENT_TEXTS then tl queue else queue) @ [(boundary, value)]"

definition push_pending :: "LiveRecognitionEvent list \<Rightarrow> LiveRecognitionEvent \<Rightarrow> LiveRecognitionEvent list" where
  "push_pending queue event =
     (if length queue = MAX_PENDING_EVENTS then tl queue else queue) @ [event]"

section \<open>Operations\<close>

definition state_new :: "u32 \<Rightarrow> ProviderReference option \<Rightarrow> LiveState" where
  "state_new sample_rate_hz provider_reference =
     \<lparr>els_sample_rate_hz = sample_rate_hz, els_user_audio_bytes = 0,
      els_accepted_audio_boundary = 0, els_segment_end_millis = 0, els_committed_end_millis = 0,
      els_finalizing = False, els_stable_text = [], els_recent_stable = [],
      els_recent_committed = [], els_pending = [], els_provider_reference = provider_reference\<rparr>"

definition record_audio :: "LiveState \<Rightarrow> usize \<Rightarrow> LiveState" where
  "record_audio self bytes =
     self\<lparr>els_user_audio_bytes :=
            saturating_add (els_user_audio_bytes self)
              (if bytes < 2 ^ 64 then of_nat bytes else - 1),
          els_accepted_audio_boundary := saturating_add (els_accepted_audio_boundary self) 1\<rparr>"

definition has_user_audio :: "LiveState \<Rightarrow> bool" where
  "has_user_audio self \<longleftrightarrow> els_user_audio_bytes self \<noteq> 0"

definition state_begin_finalize :: "LiveState \<Rightarrow> LiveState" where
  "state_begin_finalize self = self\<lparr>els_finalizing := has_user_audio self\<rparr>"

definition cancel_finalize :: "LiveState \<Rightarrow> LiveState" where
  "cancel_finalize self = self\<lparr>els_finalizing := False\<rparr>"

definition pop_pending :: "LiveState \<Rightarrow> LiveState \<times> LiveRecognitionEvent option" where
  "pop_pending self =
     (case els_pending self of
        [] \<Rightarrow> (self, None)
      | event # rest \<Rightarrow> (self\<lparr>els_pending := rest\<rparr>, Some event))"

definition current_segment_start :: "LiveState \<Rightarrow> u64" where
  "current_segment_start self = max (els_segment_end_millis self) (els_committed_end_millis self)"

definition user_audio_millis :: "LiveState \<Rightarrow> u64" where
  "user_audio_millis self =
     (case checked_div (saturating_mul (els_user_audio_bytes self) 1000)
             (ucast (els_sample_rate_hz self) * BYTES_PER_SAMPLE) of
        Some millis \<Rightarrow> millis | None \<Rightarrow> 0)"

definition transcript_event ::
  "str \<Rightarrow> u64 \<Rightarrow> u64 \<Rightarrow> float option \<Rightarrow> LiveTranscriptStability \<Rightarrow> LiveRecognitionEvent" where
  "transcript_event t start_millis end_millis confidence stability =
     RecTranscript \<lparr>lt_text = t, lt_start_millis = start_millis,
       lt_duration_millis = saturating_sub end_millis start_millis,
       lt_confidence = confidence, lt_stability = stability\<rparr>"

definition segment_final ::
  "unicode_tables \<Rightarrow> LiveState \<Rightarrow> str \<Rightarrow> float option \<Rightarrow> LiveState \<times> LiveRecognitionEvent option" where
  "segment_final u self t confidence =
     (let normalized = normalize_text u t; end_millis = user_audio_millis self in
      if normalized = []
         \<or> contains_at_boundary (els_recent_stable self) (els_accepted_audio_boundary self) normalized
      then (self, None)
      else
        let start = current_segment_start self; segment_end = max end_millis start in
        (self\<lparr>els_segment_end_millis := segment_end,
              els_recent_stable :=
                remember (els_recent_stable self) (els_accepted_audio_boundary self) normalized,
              els_stable_text := append_stable (els_stable_text self) t\<rparr>,
         Some (transcript_event t start segment_end confidence SegmentFinal)))"

definition clamp :: "u64 \<Rightarrow> u64 \<Rightarrow> u64 \<Rightarrow> u64" where
  "clamp value lo hi = (if value < lo then lo else if value > hi then hi else value)"

definition utterance_final ::
  "unicode_tables \<Rightarrow> LiveState \<Rightarrow> str \<Rightarrow> float option
   \<Rightarrow> (LiveState \<times> LiveRecognitionEvent option, panic) result" where
  "utterance_final u self t confidence =
     (let normalized = normalize_text u t;
          commit_start = els_committed_end_millis self;
          end_millis = max (user_audio_millis self) commit_start;
          stable_boundary = clamp (els_segment_end_millis self) commit_start end_millis
      in
      and_then (committed_suffix_after_stable_prefix u t (els_stable_text self)) (\<lambda>reconciliation.
        let had_stable = trim (els_stable_text self) \<noteq> [];
            duplicate =
              normalized = []
              \<or> contains_at_boundary (els_recent_committed self) (els_accepted_audio_boundary self)
                   normalized
              \<or> reconciliation = Some []
              \<or> (had_stable \<and> reconciliation = None);
            (result_text, start) =
              (case reconciliation of
                 Some suffix \<Rightarrow> if suffix \<noteq> [] then (suffix, stable_boundary) else (t, commit_start)
               | None \<Rightarrow> (t, commit_start));
            event =
              (if \<not> duplicate
               then Some (transcript_event result_text start end_millis confidence UtteranceFinal)
               else None);
            self' = self\<lparr>els_committed_end_millis := end_millis,
                         els_segment_end_millis := end_millis,
                         els_recent_committed :=
                           (if normalized \<noteq> []
                            then remember (els_recent_committed self)
                                   (els_accepted_audio_boundary self) normalized
                            else els_recent_committed self),
                         els_stable_text := [],
                         els_finalizing := False\<rparr>
        in
        if els_finalizing self
        then (if event \<noteq> None
              then Ok (self'\<lparr>els_pending := push_pending (els_pending self') RecFinalizeResultObserved\<rparr>,
                       event)
              else Ok (self', Some RecFinalizeResultObserved))
        else Ok (self', event)))"

definition state_transcript ::
  "unicode_tables \<Rightarrow> LiveState \<Rightarrow> TranscriptKind \<Rightarrow> str \<Rightarrow> float option
   \<Rightarrow> (LiveState \<times> LiveRecognitionEvent option, panic) result" where
  "state_transcript u self kind t confidence =
     (case kind of
        KindPartial \<Rightarrow>
          Ok (self,
              if normalize_text u t \<noteq> []
              then Some (transcript_event t (current_segment_start self) (user_audio_millis self)
                           confidence Partial)
              else None)
      | KindSegmentFinal \<Rightarrow> Ok (segment_final u self t confidence)
      | KindUtteranceFinal \<Rightarrow> utterance_final u self t confidence)"

definition state_apply ::
  "unicode_tables \<Rightarrow> LiveState \<Rightarrow> ParsedLiveMessage
   \<Rightarrow> (LiveState \<times> LiveRecognitionEvent option, panic) result" where
  "state_apply u self message =
     (case message of
        MsgSessionStarted reference \<Rightarrow>
          Ok (case reference of
                Some r \<Rightarrow> self\<lparr>els_provider_reference := Some (reference_operation SessionId r)\<rparr>
              | None \<Rightarrow> self, None)
      | MsgTranscript kind t confidence \<Rightarrow> state_transcript u self kind t confidence
      | MsgTerminalError _ \<Rightarrow> Ok (self, None)
      | MsgIgnore \<Rightarrow> Ok (self, None))"

section \<open>Slices are at character boundaries\<close>

text \<open>The tokens without their positions.\<close>

fun words_of :: "unicode_tables \<Rightarrow> str \<Rightarrow> str \<Rightarrow> str list" where
  "words_of u cur [] = (if cur \<noteq> [] then [cur] else [])"
| "words_of u cur (c # s) =
     (if alphanumeric u c then words_of u (cur @ lowercase_of u c) s
      else if cur \<noteq> [] then cur # words_of u [] s else words_of u [] s)"

lemma lexical_tokens_loop_acc:
  "lexical_tokens_loop u s i cur st toks = toks @ lexical_tokens_loop u s i cur st []"
proof (induction s arbitrary: i cur st toks)
  case (Cons c s)
  show ?case
    using Cons [of "i + length (utf8_char c)" "[]" st "toks @ [(cur, st)]"]
      Cons [of "i + length (utf8_char c)" "[]" st "[(cur, st)]"]
    by (simp add: Let_def Cons [of _ _ _ toks])
qed simp

lemma lexical_tokens_loop_words:
  "map fst (lexical_tokens_loop u s i cur st toks) = map fst toks @ words_of u cur s"
  by (induction u s i cur st toks rule: lexical_tokens_loop.induct) (auto simp: Let_def)

lemma lexical_tokens_words: "map fst (lexical_tokens u s) = words_of u [] s"
  by (simp add: lexical_tokens_def lexical_tokens_loop_words)

lemma length_words_of: "length (words_of u [] s) = length (lexical_tokens u s)"
  by (metis length_map lexical_tokens_words)

lemma lexical_tokens_loop_start:
  "cur \<noteq> [] \<Longrightarrow> \<exists>w rest. lexical_tokens_loop u s i cur st [] = (w, st) # rest"
proof (induction s arbitrary: i cur)
  case (Cons c s)
  then show ?case
    by (auto simp: Let_def lexical_tokens_loop_acc [of u s _ "[]" st "[(cur, st)]"])
qed simp

lemma token_position:
  assumes "j < length (lexical_tokens_loop u s i cur st [])" and "cur = [] \<or> 0 < j"
  shows "\<exists>pre post. s = pre @ post \<and>
    snd (lexical_tokens_loop u s i cur st [] ! j) = i + str_len pre \<and>
    words_of u [] post = drop j (words_of u cur s)"
  using assms
proof (induction s arbitrary: i cur st j)
  case Nil
  then show ?case by (auto split: if_splits)
next
  case (Cons c s)
  let ?i = "i + length (utf8_char c)"
  have extend: "\<exists>pre post. c # s = pre @ post \<and> e = i + str_len pre \<and> words_of u [] post = ws"
    if ex: "\<exists>pre post. s = pre @ post \<and> e = ?i + str_len pre \<and> words_of u [] post = ws" for e ws
  proof -
    obtain pre post where "s = pre @ post" "e = ?i + str_len pre" "words_of u [] post = ws"
      using ex by auto
    then show ?thesis by (intro exI [of _ "c # pre"] exI [of _ post]) simp
  qed
  show ?case
  proof (cases "alphanumeric u c")
    case True
    let ?cur = "cur @ lowercase_of u c" and ?st = "if cur = [] then i else st"
    let ?T = "lexical_tokens_loop u s ?i ?cur ?st []"
    have T: "lexical_tokens_loop u (c # s) i cur st [] = ?T"
      using True by (simp add: Let_def)
    show ?thesis
    proof (cases "?cur = [] \<or> 0 < j")
      case True': True
      have "\<exists>pre post. s = pre @ post \<and> snd (?T ! j) = ?i + str_len pre \<and>
          words_of u [] post = drop j (words_of u ?cur s)"
        by (rule Cons.IH) (use Cons.prems(1) T True' in auto)
      from extend [OF this] show ?thesis using T True by simp
    next
      case False
      with Cons.prems(2) have j: "j = 0" and c0: "cur = []" and ne: "?cur \<noteq> []" by auto
      obtain w rest where "?T = (w, ?st) # rest" using lexical_tokens_loop_start [OF ne] by blast
      then have "snd (?T ! j) = i" using j c0 by simp
      then show ?thesis
        using T j c0 by (intro exI [of _ "[]"] exI [of _ "c # s"]) simp
    qed
  next
    case False
    let ?T = "lexical_tokens_loop u s ?i [] st []"
    show ?thesis
    proof (cases "cur = []")
      case True
      have "\<exists>pre post. s = pre @ post \<and> snd (?T ! j) = ?i + str_len pre \<and>
          words_of u [] post = drop j (words_of u [] s)"
        by (rule Cons.IH) (use Cons.prems(1) False True in \<open>auto simp: Let_def\<close>)
      from extend [OF this] show ?thesis using False True by (simp add: Let_def)
    next
      case cur: False
      have T: "lexical_tokens_loop u (c # s) i cur st [] = (cur, st) # ?T"
        using False cur lexical_tokens_loop_acc [of u s ?i "[]" st "[(cur, st)]"]
        by (simp add: Let_def)
      obtain k where k: "j = Suc k" using Cons.prems(2) cur by (cases j) auto
      have "\<exists>pre post. s = pre @ post \<and> snd (?T ! k) = ?i + str_len pre \<and>
          words_of u [] post = drop k (words_of u [] s)"
        by (rule Cons.IH) (use Cons.prems(1) T k in auto)
      from extend [OF this] show ?thesis using T k False cur by simp
    qed
  qed
qed

lemma str_slice_from_append: "str_slice_from (pre @ post) (str_len pre) = Ok post"
proof (induction pre)
  case (Cons c pre)
  have "length (utf8_char c) \<noteq> 0" using utf8_char_length [of c] by linarith
  then obtain m where m: "length (utf8_char c) + str_len pre = Suc m"
    by (metis add_eq_0_iff_both_eq_0 not0_implies_Suc)
  then have "Suc m - length (utf8_char c) = str_len pre" and "length (utf8_char c) \<le> Suc m"
    by linarith+
  with m Cons show ?case by simp
qed simp

text \<open>The slice of \<open>committed_suffix_after_stable_prefix\<close> never panics, and it starts with the
  first word after the stable prefix.\<close>

lemma slice_at_token:
  assumes "j < length (lexical_tokens u s)"
  obtains post where "str_slice_from s (snd (lexical_tokens u s ! j)) = Ok post"
    and "words_of u [] post = drop j (words_of u [] s)"
proof -
  obtain pre post where "s = pre @ post" "snd (lexical_tokens u s ! j) = str_len pre"
    "words_of u [] post = drop j (words_of u [] s)"
    using token_position [of j u s 0 "[]" 0] assms by (auto simp: lexical_tokens_def)
  then show ?thesis using that [of post] str_slice_from_append [of pre post] by simp
qed

lemma words_of_snoc_space:
  "\<not> alphanumeric u c \<Longrightarrow> words_of u cur (s @ [c]) = words_of u cur s"
  by (induction s arbitrary: cur) auto

lemma words_of_space: "\<not> alphanumeric u c \<Longrightarrow> words_of u [] (c # s) = words_of u [] s"
  by simp

lemma words_of_trim:
  assumes space: "\<And>c. is_whitespace c \<Longrightarrow> \<not> alphanumeric u c"
  shows "words_of u [] (trim s) = words_of u [] s"
proof -
  have "words_of u [] (trim_start s) = words_of u [] s" for s
    by (induction s) (auto simp: trim_start_def space)
  moreover have "words_of u cur (trim_end s) = words_of u cur s" for cur s
    by (induction s rule: rev_induct) (auto simp: trim_end_def words_of_snoc_space space)
  ultimately show ?thesis by (simp add: trim_def)
qed

lemma committed_suffix_total:
  "\<exists>r. committed_suffix_after_stable_prefix u committed st = Ok r"
proof (cases "length (lexical_tokens u st) < length (lexical_tokens u committed)")
  case True
  obtain post where "str_slice_from committed
      (snd (lexical_tokens u committed ! length (lexical_tokens u st))) = Ok post"
    using slice_at_token [OF True] by metis
  then show ?thesis by (auto simp: committed_suffix_after_stable_prefix_def Let_def)
next
  case False
  then show ?thesis by (auto simp: committed_suffix_after_stable_prefix_def Let_def)
qed

lemma zip_fst_prefix:
  assumes "length xs \<le> length ys" and "list_all (\<lambda>(a, b). fst a = fst b) (zip xs ys)"
  shows "map fst xs = take (length xs) (map fst ys)"
  using assms
proof (induction xs arbitrary: ys)
  case (Cons x xs)
  then show ?case by (cases ys) auto
qed simp

lemma committed_suffix_words:
  assumes "committed_suffix_after_stable_prefix u committed st = Ok (Some suffix)"
    and space: "\<And>c. is_whitespace c \<Longrightarrow> \<not> alphanumeric u c"
  shows "words_of u [] committed = words_of u [] st @ words_of u [] suffix"
proof -
  let ?S = "lexical_tokens u st" and ?C = "lexical_tokens u committed"
  have guard: "\<not> length ?C < length ?S" "list_all (\<lambda>(a, b). fst a = fst b) (zip ?S ?C)"
    using assms(1) by (auto simp: committed_suffix_after_stable_prefix_def Let_def split: if_splits)
  then have pre: "words_of u [] st = take (length ?S) (words_of u [] committed)"
    using zip_fst_prefix [of ?S ?C] by (simp add: lexical_tokens_words)
  show ?thesis
  proof (cases "length ?S = length ?C")
    case True
    then have "suffix = []"
      using assms(1) by (auto simp: committed_suffix_after_stable_prefix_def Let_def split: if_splits)
    then show ?thesis using True pre by (simp add: length_words_of)
  next
    case False
    then have less: "length ?S < length ?C" using guard by simp
    obtain post where post: "str_slice_from committed (snd (?C ! length ?S)) = Ok post"
      "words_of u [] post = drop (length ?S) (words_of u [] committed)"
      using slice_at_token [OF less] by metis
    then have "suffix = trim post"
      using assms(1) guard False
      by (auto simp: committed_suffix_after_stable_prefix_def Let_def split: if_splits)
    then show ?thesis using post(2) pre by (simp add: words_of_trim [OF space])
  qed
qed

section \<open>Invariant\<close>

definition els_inv :: "LiveState \<Rightarrow> bool" where
  "els_inv s \<longleftrightarrow>
     els_committed_end_millis s \<le> els_segment_end_millis s \<and>
     els_segment_end_millis s \<le> user_audio_millis s \<and>
     (els_segment_end_millis s = els_committed_end_millis s \<or> trim (els_stable_text s) \<noteq> []) \<and>
     length (els_recent_stable s) \<le> MAX_RECENT_TEXTS \<and>
     length (els_recent_committed s) \<le> MAX_RECENT_TEXTS \<and>
     length (els_pending s) \<le> MAX_PENDING_EVENTS \<and>
     (\<forall>e \<in> set (els_pending s). e = RecFinalizeResultObserved)"

lemma remember_length: "length q \<le> MAX_RECENT_TEXTS \<Longrightarrow> length (remember q b v) \<le> MAX_RECENT_TEXTS"
  by (auto simp: remember_def MAX_RECENT_TEXTS_def)

lemma push_pending_length:
  "length q \<le> MAX_PENDING_EVENTS \<Longrightarrow> length (push_pending q e) \<le> MAX_PENDING_EVENTS"
  by (auto simp: push_pending_def MAX_PENDING_EVENTS_def)

lemma set_push_pending: "set (push_pending q e) \<subseteq> set q \<union> {e}"
  by (auto simp: push_pending_def dest: list.set_sel(2) split: if_splits) (metis list.sel(2) list.set_sel(2))

lemma append_stable_not_blank:
  assumes "normalize_text u t \<noteq> []"
  shows "trim (append_stable acc t) \<noteq> []"
proof -
  have "\<not> list_all is_whitespace t"
    using assms split_whitespace_blank by (auto simp: normalize_text_def)
  then have "trim t \<noteq> []" by (simp add: trim_Nil_iff)
  then have "\<not> is_whitespace (hd (trim t))" and "hd (trim t) \<in> set (append_stable acc t)"
    using trim_hd_last(1) by (auto simp: append_stable_def)
  then show ?thesis by (auto simp: trim_Nil_iff list_all_iff)
qed

text \<open>The milliseconds of audio written, as a number.\<close>

lemma unat_user_audio_millis:
  "unat (user_audio_millis s) =
     min (unat (els_user_audio_bytes s) * 1000) (2 ^ 64 - 1) div (unat (els_sample_rate_hz s) * 2)"
proof -
  let ?r = "ucast (els_sample_rate_hz s) :: u64"
  have r: "unat ?r = unat (els_sample_rate_hz s)" by (simp add: unat_ucast_widen)
  have "unat (els_sample_rate_hz s) < 2 ^ 32"
    using unsigned_less [of "els_sample_rate_hz s", where 'a = nat] by simp
  then have d: "unat (?r * BYTES_PER_SAMPLE) = unat (els_sample_rate_hz s) * 2"
    using r by (simp add: BYTES_PER_SAMPLE_def unat_word_ariths)
  have m: "unat (saturating_mul (els_user_audio_bytes s) 1000)
      = min (unat (els_user_audio_bytes s) * 1000) (2 ^ 64 - 1)"
    using unat_saturating_mul [of "els_user_audio_bytes s" 1000] by simp
  show ?thesis
  proof (cases "?r * BYTES_PER_SAMPLE = 0")
    case True
    then have "unat (els_sample_rate_hz s) * 2 = 0" using d by simp
    with True show ?thesis by (simp add: user_audio_millis_def checked_div_def)
  next
    case False
    then show ?thesis
      by (simp only: user_audio_millis_def checked_div_def if_False option.case unat_div m d)
  qed
qed

lemma record_audio_millis: "user_audio_millis s \<le> user_audio_millis (record_audio s n)"
proof -
  have "unat (els_user_audio_bytes s) \<le> unat (els_user_audio_bytes (record_audio s n))"
    using unat_u64_less [of "els_user_audio_bytes s"]
    by (simp add: record_audio_def unat_saturating_add)
  then show ?thesis
    unfolding word_le_nat_alt unat_user_audio_millis
    by (simp add: record_audio_def div_le_mono)
qed

section \<open>One call\<close>

text \<open>What every call guarantees: the invariant, a frontier of finals that never moves back, and
  for an emitted transcript that it is inside the audio written and, when final, that it starts
  at the old frontier or later and ends at the new one or earlier.\<close>

definition call_ok :: "LiveState \<Rightarrow> LiveState \<Rightarrow> LiveRecognitionEvent option \<Rightarrow> bool" where
  "call_ok s s' ev \<longleftrightarrow>
     els_inv s' \<and> user_audio_millis s \<le> user_audio_millis s' \<and>
     els_segment_end_millis s \<le> els_segment_end_millis s' \<and>
     (\<forall>tr. ev = Some (RecTranscript tr) \<longrightarrow>
        transcript_end tr \<le> unat (user_audio_millis s) \<and>
        (lt_stability tr \<noteq> Partial \<longrightarrow>
           els_segment_end_millis s \<le> lt_start_millis tr \<and>
           transcript_end tr \<le> unat (els_segment_end_millis s')))"

lemma transcript_event_end:
  assumes "s \<le> e"
  shows "transcript_event t s e c k = RecTranscript tr \<Longrightarrow>
    transcript_end tr = unat e \<and> lt_start_millis tr = s \<and> lt_stability tr = k"
  using assms by (auto simp: transcript_event_def transcript_end_def unat_saturating_sub word_le_nat_alt)

lemma user_audio_millis_cong:
  "els_user_audio_bytes s' = els_user_audio_bytes s \<Longrightarrow>
   els_sample_rate_hz s' = els_sample_rate_hz s \<Longrightarrow> user_audio_millis s' = user_audio_millis s"
  by (simp add: user_audio_millis_def)

lemma segment_final_ok:
  assumes "els_inv s" and "segment_final u s t c = (s', ev)"
  shows "call_ok s s' ev"
proof (cases "ev = None")
  case True
  then have "s' = s" using assms(2) by (auto simp: segment_final_def Let_def split: if_splits)
  with True assms(1) show ?thesis by (simp add: call_ok_def)
next
  case False
  let ?start = "current_segment_start s" and ?fin = "user_audio_millis s"
  have start: "?start = els_segment_end_millis s" "els_segment_end_millis s \<le> ?fin"
    using assms(1) by (auto simp: els_inv_def current_segment_start_def max_def)
  then have mx: "max ?fin ?start = ?fin" by simp
  have n: "normalize_text u t \<noteq> []"
    and s': "s' = s\<lparr>els_segment_end_millis := ?fin,
              els_recent_stable := remember (els_recent_stable s) (els_accepted_audio_boundary s)
                (normalize_text u t),
              els_stable_text := append_stable (els_stable_text s) t\<rparr>"
    and ev: "ev = Some (transcript_event t ?start ?fin c SegmentFinal)"
    using assms(2) False by (auto simp: segment_final_def Let_def mx split: if_splits)
  have au: "user_audio_millis s' = ?fin" by (rule user_audio_millis_cong) (simp_all add: s')
  have "els_inv s'"
    using assms(1) append_stable_not_blank [OF n] start(2)
    by (auto simp: els_inv_def s' au [unfolded s'] remember_length)
  then show ?thesis
    using start au ev transcript_event_end [of ?start ?fin t c SegmentFinal]
    by (auto simp: call_ok_def s')
qed

lemma utterance_final_ok:
  assumes "els_inv s" and "utterance_final u s t c = Ok (s', ev)"
  shows "call_ok s s' ev"
proof -
  let ?fin = "user_audio_millis s" and ?seg = "els_segment_end_millis s"
    and ?com = "els_committed_end_millis s"
  have inv: "?com \<le> ?seg" "?seg \<le> ?fin" "?seg = ?com \<or> trim (els_stable_text s) \<noteq> []"
    using assms(1) by (auto simp: els_inv_def)
  then have mx: "max ?fin ?com = ?fin" and cl: "clamp ?seg ?com ?fin = ?seg"
    by (auto simp: clamp_def)
  obtain r where r: "committed_suffix_after_stable_prefix u t (els_stable_text s) = Ok r"
    using committed_suffix_total by blast
  note run = assms(2) [unfolded utterance_final_def Let_def mx cl r and_then.simps]
  have f: "els_segment_end_millis s' = ?fin" "els_committed_end_millis s' = ?fin"
    "els_user_audio_bytes s' = els_user_audio_bytes s" "els_sample_rate_hz s' = els_sample_rate_hz s"
    "els_recent_stable s' = els_recent_stable s"
    "els_recent_committed s' \<in> {els_recent_committed s,
       remember (els_recent_committed s) (els_accepted_audio_boundary s) (normalize_text u t)}"
    "els_pending s' \<in> {els_pending s, push_pending (els_pending s) RecFinalizeResultObserved}"
    using run by (auto split: if_splits prod.splits)
  have au: "user_audio_millis s' = ?fin" by (rule user_audio_millis_cong) (simp_all add: f)
  have "els_inv s'"
    using assms(1) f remember_length push_pending_length set_push_pending
    by (fastforce simp: els_inv_def au)
  moreover have "transcript_end tr = unat ?fin \<and> ?seg \<le> lt_start_millis tr"
    if "ev = Some (RecTranscript tr)" for tr
  proof -
    have start: "?com = ?seg" if "r = None" "trim (els_stable_text s) = []"
      using inv(3) that by simp
    have "\<exists>txt. transcript_event txt ?seg ?fin c UtteranceFinal = RecTranscript tr"
      using run that start by (cases r) (auto split: if_splits prod.splits)
    then show ?thesis using transcript_event_end inv(2) by fastforce
  qed
  ultimately show ?thesis
    using f(1) au inv(2) by (auto simp: call_ok_def)
qed

lemma state_transcript_ok:
  assumes "els_inv s" and "state_transcript u s k t c = Ok (s', ev)"
  shows "call_ok s s' ev"
proof (cases k)
  case KindPartial
  have "current_segment_start s \<le> user_audio_millis s"
    using assms(1) by (auto simp: els_inv_def current_segment_start_def)
  then show ?thesis
    using KindPartial assms transcript_event_end [of "current_segment_start s" "user_audio_millis s"]
    by (auto simp: state_transcript_def call_ok_def split: if_splits)
next
  case KindSegmentFinal
  then show ?thesis using assms segment_final_ok by (auto simp: state_transcript_def)
next
  case KindUtteranceFinal
  then show ?thesis using assms utterance_final_ok by (auto simp: state_transcript_def)
qed

lemma state_apply_ok:
  assumes "els_inv s" and "state_apply u s m = Ok (s', ev)"
  shows "call_ok s s' ev"
proof (cases m)
  case (MsgTranscript k t c)
  then show ?thesis using assms state_transcript_ok by (simp add: state_apply_def)
qed (use assms in \<open>auto simp: state_apply_def call_ok_def els_inv_def user_audio_millis_def
      split: option.splits\<close>)

lemma state_apply_total: "\<exists>s' ev. state_apply u s m = Ok (s', ev)"
proof -
  have "is_ok (utterance_final u s t c)" for t c
  proof -
    obtain r where r: "committed_suffix_after_stable_prefix u t (els_stable_text s) = Ok r"
      using committed_suffix_total by blast
    show ?thesis
      unfolding utterance_final_def Let_def r and_then.simps by (simp split: prod.split)
  qed
  then have "\<exists>r. utterance_final u s t c = Ok r" for t c by (simp add: is_ok_iff)
  then have "\<exists>r. state_transcript u s k t c = Ok r" for k t c
    by (cases k) (simp_all add: state_transcript_def)
  then have "\<exists>r. state_apply u s m = Ok r" by (cases m) (simp_all add: state_apply_def)
  then show ?thesis by auto
qed

lemma state_apply_audio:
  assumes "state_apply u s m = Ok (s', ev)"
  shows "els_user_audio_bytes s' = els_user_audio_bytes s" "els_sample_rate_hz s' = els_sample_rate_hz s"
proof -
  have "els_user_audio_bytes s' = els_user_audio_bytes s \<and> els_sample_rate_hz s' = els_sample_rate_hz s"
    if "utterance_final u s t c = Ok (s', ev)" for t c
  proof -
    obtain r where r: "committed_suffix_after_stable_prefix u t (els_stable_text s) = Ok r"
      using committed_suffix_total by blast
    show ?thesis
      using that [unfolded utterance_final_def Let_def r and_then.simps]
      by (auto split: if_splits prod.splits)
  qed
  moreover have "els_user_audio_bytes s' = els_user_audio_bytes s \<and> els_sample_rate_hz s' = els_sample_rate_hz s"
    if "segment_final u s t c = (s', ev)" for t c
    using that by (auto simp: segment_final_def Let_def split: if_splits)
  ultimately have "els_user_audio_bytes s' = els_user_audio_bytes s \<and> els_sample_rate_hz s' = els_sample_rate_hz s"
    if "state_transcript u s k t c = Ok (s', ev)" for k t c
    using that by (cases k) (auto simp: state_transcript_def)
  then have "els_user_audio_bytes s' = els_user_audio_bytes s \<and> els_sample_rate_hz s' = els_sample_rate_hz s"
    using assms by (cases m) (auto simp: state_apply_def split: option.splits)
  then show "els_user_audio_bytes s' = els_user_audio_bytes s" "els_sample_rate_hz s' = els_sample_rate_hz s"
    by simp_all
qed

section \<open>Any sequence of calls\<close>

datatype els_call =
    ElsAudio usize | ElsBeginFinalize | ElsCancelFinalize | ElsPopPending | ElsMessage ParsedLiveMessage

fun call_els ::
  "unicode_tables \<Rightarrow> LiveState \<Rightarrow> els_call \<Rightarrow> (LiveState \<times> LiveRecognitionEvent option, panic) result" where
  "call_els u s (ElsAudio n) = Ok (record_audio s n, None)"
| "call_els u s ElsBeginFinalize = Ok (state_begin_finalize s, None)"
| "call_els u s ElsCancelFinalize = Ok (cancel_finalize s, None)"
| "call_els u s ElsPopPending = Ok (pop_pending s)"
| "call_els u s (ElsMessage m) = state_apply u s m"

text \<open>The state after a sequence of calls and the events handed out, in order.\<close>

fun run_els ::
  "unicode_tables \<Rightarrow> LiveState \<Rightarrow> els_call list \<Rightarrow> (LiveState \<times> LiveRecognitionEvent list, panic) result" where
  "run_els u s [] = Ok (s, [])"
| "run_els u s (c # cs) =
     and_then (call_els u s c) (\<lambda>(s', ev).
       map_ok (\<lambda>(s'', evs). (s'', (case ev of None \<Rightarrow> evs | Some e \<Rightarrow> e # evs))) (run_els u s' cs))"

fun transcripts_of :: "LiveRecognitionEvent list \<Rightarrow> LiveTranscript list" where
  "transcripts_of [] = []"
| "transcripts_of (RecTranscript t # es) = t # transcripts_of es"
| "transcripts_of (_ # es) = transcripts_of es"

definition finals_of :: "LiveRecognitionEvent list \<Rightarrow> LiveTranscript list" where
  "finals_of es = filter (\<lambda>t. lt_stability t \<noteq> Partial) (transcripts_of es)"

lemma state_new_inv: "els_inv (state_new rate r)"
  by (simp add: els_inv_def state_new_def)

lemma pop_pending_ok: "els_inv s \<Longrightarrow> pop_pending s = (s', ev) \<Longrightarrow> call_ok s s' ev"
  by (auto simp: pop_pending_def call_ok_def els_inv_def user_audio_millis_def split: list.splits)

lemma record_audio_ok: "els_inv s \<Longrightarrow> call_ok s (record_audio s n) None"
  using record_audio_millis [of s n]
  by (auto simp: call_ok_def els_inv_def record_audio_def)

lemma call_els_ok:
  assumes "els_inv s" and "call_els u s c = Ok (s', ev)"
  shows "call_ok s s' ev"
proof (cases c)
  case (ElsAudio n)
  then show ?thesis using assms record_audio_ok by auto
next
  case ElsPopPending
  then show ?thesis using assms pop_pending_ok by auto
next
  case (ElsMessage m)
  then show ?thesis using assms state_apply_ok by auto
qed (use assms in \<open>auto simp: call_ok_def els_inv_def user_audio_millis_def state_begin_finalize_def
      cancel_finalize_def\<close>)

lemma call_els_total: "\<exists>s' ev. call_els u s c = Ok (s', ev)"
  using state_apply_total by (cases c) (auto simp: prod.exhaust_sel)

lemma run_els_total: "\<exists>s' evs. run_els u s cs = Ok (s', evs)"
proof (induction cs arbitrary: s)
  case (Cons c cs)
  obtain s' ev where "call_els u s c = Ok (s', ev)" using call_els_total by blast
  moreover obtain s'' evs where "run_els u s' cs = Ok (s'', evs)" using Cons by blast
  ultimately show ?case by auto
qed simp

lemma run_els_ok:
  assumes "run_els u s cs = Ok (s', evs)" and "els_inv s"
  shows "els_inv s' \<and> els_segment_end_millis s \<le> els_segment_end_millis s' \<and>
    user_audio_millis s \<le> user_audio_millis s' \<and>
    (\<forall>t \<in> set (transcripts_of evs). transcript_end t \<le> unat (user_audio_millis s')) \<and>
    (\<forall>t \<in> set (finals_of evs). els_segment_end_millis s \<le> lt_start_millis t) \<and>
    sorted_wrt (\<lambda>a b. transcript_end a \<le> unat (lt_start_millis b)) (finals_of evs)"
  using assms
proof (induction cs arbitrary: s evs)
  case Nil
  then show ?case by (simp add: finals_of_def)
next
  case (Cons c cs)
  obtain s1 ev evs1 where c: "call_els u s c = Ok (s1, ev)" and r: "run_els u s1 cs = Ok (s', evs1)"
    and evs: "evs = (case ev of None \<Rightarrow> evs1 | Some e \<Rightarrow> e # evs1)"
    using Cons.prems(1) by auto
  have ok: "call_ok s s1 ev" by (rule call_els_ok [OF Cons.prems(2) c])
  then have inv: "els_inv s1" by (simp add: call_ok_def)
  note IH = Cons.IH [OF r inv]
  have seg: "els_segment_end_millis s \<le> els_segment_end_millis s1"
    and aud: "user_audio_millis s \<le> user_audio_millis s1"
    using ok by (simp_all add: call_ok_def)
  show ?case
  proof (cases "\<exists>tr. ev = Some (RecTranscript tr)")
    case False
    then have "transcripts_of evs = transcripts_of evs1"
      by (auto simp: evs split: option.splits) (metis LiveRecognitionEvent.exhaust transcripts_of.simps(3,4))
    then show ?thesis using IH seg aud by (auto simp: finals_of_def)
  next
    case True
    then obtain tr where tr: "ev = Some (RecTranscript tr)" by blast
    have f: "transcript_end tr \<le> unat (user_audio_millis s)"
      "lt_stability tr \<noteq> Partial \<Longrightarrow> els_segment_end_millis s \<le> lt_start_millis tr \<and>
         transcript_end tr \<le> unat (els_segment_end_millis s1)"
      using ok tr by (auto simp: call_ok_def)
    have "transcript_end tr \<le> unat (user_audio_millis s')"
      using f(1) aud IH by (auto simp: word_le_nat_alt)
    moreover have "transcript_end tr \<le> unat (lt_start_millis b)"
      if "lt_stability tr \<noteq> Partial" "b \<in> set (finals_of evs1)" for b
      using f(2) that IH by (auto simp: word_le_nat_alt)
    ultimately show ?thesis
      using IH seg aud f(2) tr by (auto simp: evs finals_of_def)
  qed
qed

section \<open>What an utterance final emits\<close>

lemma words_of_blank:
  assumes "\<And>c. is_whitespace c \<Longrightarrow> \<not> alphanumeric u c" and "list_all is_whitespace s"
  shows "words_of u [] s = []"
  using assms(2) by (induction s) (auto simp: assms(1))

lemma utterance_final_text:
  assumes "utterance_final u s t c = Ok (s', Some (RecTranscript tr))"
  obtains suffix where
    "committed_suffix_after_stable_prefix u t (els_stable_text s) = Ok (Some suffix)" "lt_text tr = suffix"
  | "trim (els_stable_text s) = []" "lt_text tr = t"
proof -
  obtain r where r: "committed_suffix_after_stable_prefix u t (els_stable_text s) = Ok r"
    using committed_suffix_total by blast
  note run = assms [unfolded utterance_final_def Let_def r and_then.simps]
  show ?thesis
  proof (cases r)
    case None
    then have "trim (els_stable_text s) = []" and "lt_text tr = t"
      using run by (auto simp: transcript_event_def split: if_splits)
    then show ?thesis by (rule that(2))
  next
    case (Some suffix)
    then have "lt_text tr = suffix"
      using run by (auto simp: transcript_event_def split: if_splits)
    with r Some show ?thesis by (intro that(1)) simp_all
  qed
qed

definition observed :: "LiveRecognitionEvent list \<Rightarrow> nat" where
  "observed es = length (filter (\<lambda>e. e = RecFinalizeResultObserved) es)"

definition option_list :: "'a option \<Rightarrow> 'a list" where
  "option_list x = (case x of None \<Rightarrow> [] | Some y \<Rightarrow> [y])"

lemma utterance_final_observed:
  assumes "utterance_final u s t c = Ok (s', ev)" and "length (els_pending s) < MAX_PENDING_EVENTS"
  shows "observed (option_list ev @ els_pending s') =
      observed (els_pending s) + (if els_finalizing s then 1 else 0)" and "\<not> els_finalizing s'"
proof -
  obtain r where r: "committed_suffix_after_stable_prefix u t (els_stable_text s) = Ok r"
    using committed_suffix_total by blast
  note run = assms(1) [unfolded utterance_final_def Let_def r and_then.simps]
  show "observed (option_list ev @ els_pending s') =
      observed (els_pending s) + (if els_finalizing s then 1 else 0)"
    using run assms(2)
    by (auto simp: observed_def option_list_def push_pending_def transcript_event_def
        split: if_splits prod.splits)
  show "\<not> els_finalizing s'" using run by (auto split: if_splits prod.splits)
qed

section \<open>Properties\<close>

text \<open>C24: An ElevenLabs session never panics on a string slice, and whatever messages the provider
  sends and however they are interleaved with audio and finalize calls, every transcript ends
  inside the audio written to the provider so far and the final transcripts never overlap or go
  back in time. Its queues stay within their bounds.\<close>

theorem elevenlabs_timeline:
  "\<exists>s evs. run_els u (state_new rate reference) calls = Ok (s, evs) \<and>
     (\<forall>t \<in> set (transcripts_of evs).
        transcript_end t \<le> unat (els_user_audio_bytes s) * 1000 div (unat (els_sample_rate_hz s) * 2)) \<and>
     sorted_wrt (\<lambda>a b. transcript_end a \<le> unat (lt_start_millis b)) (finals_of evs) \<and>
     length (els_recent_stable s) \<le> 8 \<and> length (els_recent_committed s) \<le> 8 \<and>
     length (els_pending s) \<le> 4"
proof -
  obtain s evs where r: "run_els u (state_new rate reference) calls = Ok (s, evs)"
    using run_els_total by blast
  note ok = run_els_ok [OF r state_new_inv]
  have "unat (user_audio_millis s)
      \<le> unat (els_user_audio_bytes s) * 1000 div (unat (els_sample_rate_hz s) * 2)"
    unfolding unat_user_audio_millis by (intro div_le_mono) simp
  then have "transcript_end t
      \<le> unat (els_user_audio_bytes s) * 1000 div (unat (els_sample_rate_hz s) * 2)"
    if "t \<in> set (transcripts_of evs)" for t
    using ok that by (meson order_trans)
  then show ?thesis
    using r ok by (auto simp: els_inv_def MAX_RECENT_TEXTS_def MAX_PENDING_EVENTS_def)
qed

theorem elevenlabs_timeline_witness:
  "\<exists>s evs. run_els \<lparr>alphanumeric = (\<lambda>c. 97 \<le> c \<and> c \<le> 122), lowercase_of = (\<lambda>c. [c])\<rparr>
     (state_new 16000 None) [ElsAudio 32000, ElsMessage (MsgTranscript KindSegmentFinal [97] None)] = Ok (s, evs)
     \<and> length (els_pending s) \<le> 4"
  using elevenlabs_timeline
    [of "\<lparr>alphanumeric = (\<lambda>c. 97 \<le> c \<and> c \<le> 122), lowercase_of = (\<lambda>c. [c])\<rparr>" 16000 None
      "[ElsAudio 32000, ElsMessage (MsgTranscript KindSegmentFinal [97] None)]"]
  by blast



section \<open>Witnesses\<close>

definition ascii_tables :: unicode_tables where
  "ascii_tables = \<lparr>alphanumeric = (\<lambda>c. 97 \<le> c \<and> c \<le> 122), lowercase_of = (\<lambda>c. [c])\<rparr>"

text \<open>"a" was emitted as a segment final; the utterance "a b" is committed.\<close>

definition sample_live_state :: LiveState where
  "sample_live_state =
     (state_new 16000 None)\<lparr>els_user_audio_bytes := 32000, els_accepted_audio_boundary := 1,
        els_segment_end_millis := 500, els_stable_text := [97], els_finalizing := True\<rparr>"

lemma ascii_tables_space: "is_whitespace c \<Longrightarrow> \<not> alphanumeric ascii_tables c"
  by (auto simp: ascii_tables_def is_whitespace_def)

lemma sample_suffix: "committed_suffix_after_stable_prefix ascii_tables [97, 32, 98] [97] = Ok (Some [98])"
  by (simp add: committed_suffix_after_stable_prefix_def lexical_tokens_def ascii_tables_def
      utf8_char_def numeral_2_eq_2 trim_def trim_start_def trim_end_def is_whitespace_def)

lemma sample_commit:
  "\<exists>s' tr. utterance_final ascii_tables sample_live_state [97, 32, 98] None
     = Ok (s', Some (RecTranscript tr)) \<and> lt_text tr = [98]"
  by (simp add: utterance_final_def sample_live_state_def state_new_def sample_suffix Let_def
      transcript_event_def normalize_text_def split_whitespace_nonspace contains_at_boundary_def
      ascii_tables_def [THEN arg_cong, of alphanumeric] ascii_tables_def [THEN arg_cong, of lowercase_of]
      is_whitespace_def trim_def trim_start_def trim_end_def)



end
