(* ===== verification/Live_Pipeline.thy ===== *)
theory Live_Pipeline
  imports Elevenlabs_Live_State
begin

text \<open>
  The composition of the ElevenLabs session state with the gateway's own timing policy. In a live
  session a frame that \<open>prepare_audio_write\<close> accepts is written to the provider, whose adapter
  records its bytes, and then committed to the timeline; a transcript the adapter hands out is
  checked by \<open>timeline_validate_transcript\<close>, and a transcript that fails the check fails the
  session. The two components count the audio independently: one in bytes with saturation, one in
  sample frames with checked arithmetic.
\<close>

datatype pipeline_call =
    PipeWrite usize | PipeBeginFinalize | PipeCancelFinalize | PipeMessage ParsedLiveMessage

datatype pipeline_error = PipePanic | PipeTiming LiveTimelineError

fun pipeline_step ::
  "unicode_tables \<Rightarrow> LiveState \<times> LiveTimeline \<Rightarrow> pipeline_call
   \<Rightarrow> (LiveState \<times> LiveTimeline, pipeline_error) result" where
  "pipeline_step u (s, t) (PipeWrite n) =
     (case prepare_audio_write t n of
        Err _ \<Rightarrow> Ok (s, t)
      | Ok acceptance \<Rightarrow> Ok (record_audio s n, commit_audio_write t acceptance))"
| "pipeline_step u (s, t) PipeBeginFinalize = Ok (state_begin_finalize s, t)"
| "pipeline_step u (s, t) PipeCancelFinalize = Ok (cancel_finalize s, t)"
| "pipeline_step u (s, t) (PipeMessage m) =
     (case state_apply u s m of
        Err _ \<Rightarrow> Err PipePanic
      | Ok (s', Some (RecTranscript tr)) \<Rightarrow>
          (case timeline_validate_transcript t tr of
             (t', Ok _) \<Rightarrow> Ok (s', t')
           | (t', Err e) \<Rightarrow> Err (PipeTiming e))
      | Ok (s', _) \<Rightarrow> Ok (s', t))"

fun pipeline_run ::
  "unicode_tables \<Rightarrow> LiveState \<times> LiveTimeline \<Rightarrow> pipeline_call list
   \<Rightarrow> (LiveState \<times> LiveTimeline, pipeline_error) result" where
  "pipeline_run u st [] = Ok st"
| "pipeline_run u st (c # cs) = and_then (pipeline_step u st c) (\<lambda>st'. pipeline_run u st' cs)"

section \<open>The relation between the two counts\<close>

definition in_step :: "LiveState \<Rightarrow> LiveTimeline \<Rightarrow> bool" where
  "in_step s t \<longleftrightarrow>
     els_inv s \<and> timeline_inv t \<and>
     unat (tl_sample_rate_hz t) = unat (els_sample_rate_hz s) \<and>
     unat (tl_bytes_per_sample_frame t) = 2 \<and>
     unat (els_user_audio_bytes s) \<le> 2 * unat (tl_accepted_sample_frames t) \<and>
     (\<forall>e. tl_last_final_end_millis t = Some e \<longrightarrow> e \<le> els_segment_end_millis s)"

lemma in_step_horizon:
  assumes "in_step s t"
  shows "unat (user_audio_millis s) \<le> unat (tl_accepted_horizon_millis t)"
proof -
  let ?f = "unat (tl_accepted_sample_frames t)" and ?r = "unat (tl_sample_rate_hz t)"
  have r: "unat (els_sample_rate_hz s) * 2 = 2 * ?r"
    using assms by (simp add: in_step_def)
  have "unat (els_user_audio_bytes s) \<le> 2 * ?f" using assms by (simp add: in_step_def)
  then have "min (unat (els_user_audio_bytes s) * 1000) (2 ^ 64 - 1) \<le> 2 * (?f * 1000)" by simp
  then have "unat (user_audio_millis s) \<le> 2 * (?f * 1000) div (2 * ?r)"
    unfolding unat_user_audio_millis r by (rule div_le_mono)
  also have "\<dots> = ?f * 1000 div ?r" by (rule div_mult_mult1) simp
  finally show ?thesis using assms by (simp add: in_step_def timeline_inv_def)
qed

lemma in_step_write:
  assumes "in_step s t" and "prepare_audio_write t n = Ok p"
  shows "in_step (record_audio s n) (commit_audio_write t p)"
proof -
  have inv: "timeline_inv t" and b: "unat (tl_bytes_per_sample_frame t) = 2"
    using assms(1) by (simp_all add: in_step_def)
  note w = prepare_audio_write_Ok [OF assms(2) inv]
  have n: "n = 2 * (n div 2)" using w(2) b by simp
  have "els_inv (record_audio s n)"
    using assms(1) record_audio_ok by (simp add: in_step_def call_ok_def)
  moreover have "unat (els_user_audio_bytes (record_audio s n)) \<le> unat (els_user_audio_bytes s) + n"
  proof (cases "n < 2 ^ 64")
    case True
    then have "unat (of_nat n :: u64) = n" by (simp add: unat_of_nat)
    with True show ?thesis by (simp add: record_audio_def unat_saturating_add)
  next
    case False
    then show ?thesis
      using unat_u64_less [of "els_user_audio_bytes (record_audio s n)"] by simp
  qed
  ultimately show ?thesis
    using assms(1) w(3) b n commit_inv(1) [OF assms(2) inv]
    by (auto simp: in_step_def commit_audio_write_def record_audio_def)
qed

lemma in_step_event:
  assumes "in_step s t" and "state_apply u s m = Ok (s', ev)"
    and "\<And>tr. ev \<noteq> Some (RecTranscript tr)"
  shows "in_step s' t"
  using assms(1) state_apply_ok [OF _ assms(2)] state_apply_audio [OF assms(2)]
  by (auto simp: in_step_def call_ok_def)

lemma in_step_transcript:
  assumes "in_step s t" and "state_apply u s m = Ok (s', Some (RecTranscript tr))"
  obtains t' where "timeline_validate_transcript t tr = (t', Ok ())" and "in_step s' t'"
proof -
  have ok: "call_ok s s' (Some (RecTranscript tr))"
    using assms state_apply_ok by (auto simp: in_step_def)
  have le: "transcript_end tr \<le> unat (tl_accepted_horizon_millis t)"
    using ok in_step_horizon [OF assms(1)] by (auto simp: call_ok_def)
  then have bound: "transcript_end tr < 2 ^ 64"
    using unat_u64_less [of "tl_accepted_horizon_millis t"] by simp
  have "is_ok (snd (timeline_validate_transcript t tr))"
    unfolding timeline_accepts_iff
    using le bound ok assms(1)
    by (auto simp: within_horizon_def call_ok_def in_step_def split: option.splits)
  then obtain t' where t': "timeline_validate_transcript t tr = (t', Ok ())"
    by (cases "timeline_validate_transcript t tr") (auto simp: is_ok_iff)
  have last: "e \<le> els_segment_end_millis s'" if "tl_last_final_end_millis t' = Some e" for e
  proof (cases "lt_stability tr = Partial")
    case True
    then have "t' = t" by (rule timeline_validate_transcript_Ok(3) [OF t'])
    then show ?thesis using that ok assms(1) by (auto simp: in_step_def call_ok_def)
  next
    case False
    then have "e = lt_start_millis tr + lt_duration_millis tr"
      using timeline_validate_transcript_Ok(4) [OF t'] that by simp
    then have "unat e = transcript_end tr"
      using bound by (simp add: transcript_end_def unat_word_ariths)
    then show ?thesis using ok False by (simp add: call_ok_def word_le_nat_alt)
  qed
  have keep: "tl_sample_rate_hz t' = tl_sample_rate_hz t"
    "tl_bytes_per_sample_frame t' = tl_bytes_per_sample_frame t"
    "tl_accepted_sample_frames t' = tl_accepted_sample_frames t"
    "tl_accepted_horizon_millis t' = tl_accepted_horizon_millis t"
    using timeline_validate_transcript_Ok(3,4) [OF t'] by (cases "lt_stability tr = Partial"; simp)+
  have "in_step s' t'"
    using assms(1) ok last state_apply_audio [OF assms(2)]
    by (auto simp: in_step_def timeline_inv_def keep call_ok_def)
  with t' show ?thesis by (rule that)
qed

lemma pipeline_step_ok:
  assumes "in_step s t"
  shows "\<exists>s' t'. pipeline_step u (s, t) c = Ok (s', t') \<and> in_step s' t'"
proof (cases c)
  case (PipeWrite n)
  then show ?thesis
    using assms in_step_write by (cases "prepare_audio_write t n") auto
next
  case (PipeMessage m)
  obtain s' ev where a: "state_apply u s m = Ok (s', ev)" using state_apply_total by blast
  show ?thesis
  proof (cases "\<exists>tr. ev = Some (RecTranscript tr)")
    case True
    then obtain tr where tr: "ev = Some (RecTranscript tr)" by blast
    obtain t' where "timeline_validate_transcript t tr = (t', Ok ())" "in_step s' t'"
      using in_step_transcript [OF assms] a tr by blast
    then show ?thesis using PipeMessage a tr by simp
  next
    case False
    then have "in_step s' t" using in_step_event [OF assms a] by blast
    moreover have "pipeline_step u (s, t) c = Ok (s', t)"
      using PipeMessage a False by (auto split: option.splits LiveRecognitionEvent.splits)
    ultimately show ?thesis by blast
  qed
qed (use assms in \<open>auto simp: in_step_def els_inv_def user_audio_millis_def state_begin_finalize_def
      cancel_finalize_def\<close>)

lemma pipeline_run_ok:
  assumes "in_step s t"
  shows "\<exists>s' t'. pipeline_run u (s, t) cs = Ok (s', t') \<and> in_step s' t'"
  using assms
proof (induction cs arbitrary: s t)
  case (Cons c cs)
  obtain s1 t1 where "pipeline_step u (s, t) c = Ok (s1, t1)" "in_step s1 t1"
    using pipeline_step_ok [OF Cons.prems] by blast
  then show ?case using Cons.IH [of s1 t1] by auto
qed auto

section \<open>Property\<close>

text \<open>C25: The gateway's timing checks never reject an ElevenLabs transcript: in a mono session, for
  any interleaving of audio frames of any size, provider messages and finalize calls, every
  transcript the adapter emits passes the check of the accepted-audio horizon and of the final
  order, so no session fails because of timing.\<close>

theorem elevenlabs_passes_timeline:
  assumes "timeline_new rate 1 = Ok t"
  shows "\<exists>s' t'. pipeline_run u (state_new rate reference, t) calls = Ok (s', t') \<and>
    unat (user_audio_millis s') \<le> unat (tl_accepted_horizon_millis t')"
proof -
  have "in_step (state_new rate reference) t"
    using timeline_new_inv [OF assms] state_new_inv
    by (auto simp: in_step_def state_new_def)
  then show ?thesis using pipeline_run_ok in_step_horizon by blast
qed

theorem elevenlabs_passes_timeline_witness:
  "\<exists>t s' t'. timeline_new 16000 1 = Ok t \<and>
     pipeline_run ascii_tables (state_new 16000 None, t)
       [PipeWrite 640, PipeMessage (MsgTranscript KindSegmentFinal [97] None)] = Ok (s', t')"
proof -
  have "is_ok (timeline_new 16000 1)"
    by (simp add: timeline_new_def checked_mul_def PCM_S16LE_BYTES_PER_SAMPLE_def)
  then obtain t where t: "timeline_new 16000 1 = Ok t" by (auto simp: is_ok_iff)
  show ?thesis using elevenlabs_passes_timeline [OF t, of ascii_tables None
        "[PipeWrite 640, PipeMessage (MsgTranscript KindSegmentFinal [97] None)]"] t by blast
qed

end
