(* ===== verification/Encodings.thy ===== *)
theory Encodings
  imports Rust_Text
begin

text \<open>
  The encodings of strings and lengths the gateway hashes and compares are injective: UTF-8 and
  UTF-16 on strings of Unicode scalar values, and the big-endian encoding of lengths.
\<close>

section \<open>Bytes\<close>

lemma byte_eq_iff: "a < 256 \<Longrightarrow> b < 256 \<Longrightarrow> byte a = byte b \<longleftrightarrow> a = b"
  by (simp add: byte_def word_of_nat_eq_iff take_bit_nat_eq_self)

text \<open>\<open>u64::to_be_bytes\<close> for a width of \<open>k\<close> bytes.\<close>

fun be_bytes :: "nat \<Rightarrow> nat \<Rightarrow> u8 list" where
  "be_bytes 0 n = []"
| "be_bytes (Suc k) n = be_bytes k (n div 256) @ [byte (n mod 256)]"

lemma length_be_bytes [simp]: "length (be_bytes k n) = k"
  by (induction k arbitrary: n) simp_all

lemma be_bytes_inj:
  "m < 256 ^ k \<Longrightarrow> n < 256 ^ k \<Longrightarrow> be_bytes k m = be_bytes k n \<Longrightarrow> m = n"
proof (induction k arbitrary: m n)
  case (Suc k)
  have "byte (m mod 256) = byte (n mod 256)" and "be_bytes k (m div 256) = be_bytes k (n div 256)"
    using Suc.prems(3) by simp_all
  moreover have "m div 256 < 256 ^ k" "n div 256 < 256 ^ k"
    using Suc.prems(1,2) by (simp_all add: div_less_iff_less_mult mult.commute)
  ultimately have "m div 256 = n div 256" and "m mod 256 = n mod 256"
    using Suc.IH by (simp_all add: byte_eq_iff)
  then show ?case by (metis div_mod_decomp)
qed simp

section \<open>UTF-8\<close>

lemma utf8_char_prefix:
  assumes "valid_scalar c" and "valid_scalar d" and "utf8_char c @ r = utf8_char d @ r'"
  shows "c = d"
proof -
  have c: "c < 0x110000" and d: "d < 0x110000" using assms by (auto simp: valid_scalar_def)
  consider (c1) "c < 0x80" | (c2) "0x80 \<le> c" "c < 0x800" | (c3) "0x800 \<le> c" "c < 0x10000"
    | (c4) "0x10000 \<le> c"
    by linarith
  note cs = this
  consider (d1) "d < 0x80" | (d2) "0x80 \<le> d" "d < 0x800" | (d3) "0x800 \<le> d" "d < 0x10000"
    | (d4) "0x10000 \<le> d"
    by linarith
  note ds = this
  have join2: "x = y" if "x div 64 = y div 64" "x mod 64 = y mod 64" for x y :: nat
    using that by (metis div_mod_decomp)
  have join3: "x = y" if "x div 4096 = y div 4096" "x div 64 mod 64 = y div 64 mod 64"
    "x mod 64 = y mod 64" for x y :: nat
  proof (rule join2)
    have "x div 64 div 64 = y div 64 div 64" using that(1) by (simp add: div_mult2_eq [symmetric])
    then show "x div 64 = y div 64" by (rule join2) (rule that(2))
  qed (rule that(3))
  have join4: "x = y" if "x div 262144 = y div 262144" "x div 4096 mod 64 = y div 4096 mod 64"
    "x div 64 mod 64 = y div 64 mod 64" "x mod 64 = y mod 64" for x y :: nat
  proof (rule join3)
    have "x div 4096 div 64 = y div 4096 div 64" using that(1) by (simp add: div_mult2_eq [symmetric])
    then show "x div 4096 = y div 4096" by (rule join2) (rule that(2))
  qed (rule that(3) that(4))+
  have b2: "x div 64 < 32" if "x < 0x800" for x :: nat using that by (simp add: div_less_iff_less_mult)
  have b3: "x div 4096 < 16" if "x < 0x10000" for x :: nat using that by (simp add: div_less_iff_less_mult)
  have b4: "x div 262144 < 5" if "x < 0x110000" for x :: nat using that by (simp add: div_less_iff_less_mult)
  have m: "128 + x mod 64 < 256" for x :: nat
    using mod_less_divisor [of 64 x] by linarith
  show ?thesis
    using cs ds
  proof (cases rule: cs [case_product ds])
  qed (use assms(3) c d b2 [of c] b2 [of d] b3 [of c] b3 [of d] b4 [of c] b4 [of d] m
        in \<open>auto simp: utf8_char_def byte_eq_iff intro: join2 join3 join4\<close>)
qed

lemma utf8_char_not_Nil [simp]: "utf8_char c \<noteq> []"
  using utf8_char_length [of c] by auto

lemma str_bytes_inj:
  assumes "wf_str s" and "wf_str t" and "str_bytes s = str_bytes t"
  shows "s = t"
  using assms
proof (induction s arbitrary: t)
  case Nil
  then show ?case by (cases t) simp_all
next
  case (Cons c s)
  obtain d t' where t: "t = d # t'"
    using Cons.prems(3) utf8_char_length [of c] by (cases t) auto
  have "c = d"
    by (rule utf8_char_prefix [of c d "str_bytes s" "str_bytes t'"])
      (use Cons.prems t in \<open>auto simp: wf_str_def\<close>)
  with Cons t show ?case by (auto simp: wf_str_def)
qed

text \<open>\<open>String::from_utf8\<close>: the first byte fixes the width, and the bytes are accepted when they are
  the encoding of the scalar they carry, which excludes overlong forms and surrogates.\<close>

definition utf8_width :: "u8 \<Rightarrow> nat" where
  "utf8_width b = (if b < 0x80 then 1 else if b < 0xE0 then 2 else if b < 0xF0 then 3 else 4)"

fun utf8_scalar :: "u8 list \<Rightarrow> scalar" where
  "utf8_scalar [a] = unat a"
| "utf8_scalar [a, b] = unat a mod 32 * 64 + unat b mod 64"
| "utf8_scalar [a, b, c] = unat a mod 16 * 4096 + unat b mod 64 * 64 + unat c mod 64"
| "utf8_scalar [a, b, c, d] =
     unat a mod 8 * 262144 + unat b mod 64 * 4096 + unat c mod 64 * 64 + unat d mod 64"
| "utf8_scalar _ = 0"

definition utf8_next :: "u8 list \<Rightarrow> (scalar \<times> u8 list) option" where
  "utf8_next bs =
     (let n = utf8_width (hd bs); c = utf8_scalar (take n bs) in
      if valid_scalar c \<and> utf8_char c = take n bs then Some (c, drop n bs) else None)"

lemma utf8_next_SomeD:
  assumes "utf8_next bs = Some (c, rest)"
  shows "bs = utf8_char c @ rest" and "valid_scalar c" and "bs \<noteq> []"
proof -
  from assms have c: "utf8_char c = take (utf8_width (hd bs)) bs" "rest = drop (utf8_width (hd bs)) bs" "valid_scalar c"
    by (auto simp: utf8_next_def Let_def split: if_splits)
  then show "bs = utf8_char c @ rest" "valid_scalar c" by simp_all
  then show "bs \<noteq> []" by simp
qed

function from_utf8 :: "u8 list \<Rightarrow> str option" where
  "from_utf8 [] = Some []"
| "from_utf8 (b # bs) =
     (case utf8_next (b # bs) of
        None \<Rightarrow> None
      | Some (c, rest) \<Rightarrow> map_option (Cons c) (from_utf8 rest))"
  by pat_completeness auto
termination
proof (relation "measure length")
  show "(rest, b # bs) \<in> measure length" if "utf8_next (b # bs) = Some x" "(c, rest) = x" for b bs x c rest
    using utf8_next_SomeD(1) [of "b # bs" c rest] that utf8_char_length [of c]
    by (metis add_less_cancel_right add_0 in_measure length_append length_greater_0_conv utf8_char_not_Nil)
qed simp

lemma from_utf8_sound: "from_utf8 bs = Some s \<Longrightarrow> str_bytes s = bs \<and> wf_str s"
proof (induction bs arbitrary: s rule: from_utf8.induct)
  case (2 b bs)
  then obtain c rest s' where n: "utf8_next (b # bs) = Some (c, rest)"
    and s': "from_utf8 rest = Some s'" "s = c # s'"
    by (auto split: option.splits)
  with 2(1) [OF n refl s'(1)] utf8_next_SomeD [OF n] show ?case
    by (simp add: str_bytes_def wf_str_def)
qed (simp add: wf_str_def)

lemma utf8_char_decoded:
  assumes "valid_scalar c"
  shows "utf8_width (hd (utf8_char c)) = length (utf8_char c)" and "utf8_scalar (utf8_char c) = c"
proof -
  have c: "c < 0x110000" using assms by (auto simp: valid_scalar_def)
  have un: "unat (byte n) = n" if "n < 256" for n using that by (simp add: byte_def unat_of_nat)
  have m: "x mod 64 < 64" for x :: nat by simp
  have lead: "x < 32 \<Longrightarrow> (192 + x) mod 32 = x" "x < 16 \<Longrightarrow> (224 + x) mod 16 = x"
    "x < 8 \<Longrightarrow> (240 + x) mod 8 = x" "(128 + x) mod 64 = x mod 64" for x :: nat
    using mod_add_left_eq [of 192 32 x] mod_add_left_eq [of 224 16 x] mod_add_left_eq [of 240 8 x]
      mod_add_left_eq [of 128 64 x]
    by simp_all
  consider (c1) "c < 0x80" | (c2) "0x80 \<le> c" "c < 0x800" | (c3) "0x800 \<le> c" "c < 0x10000"
    | (c4) "0x10000 \<le> c"
    by linarith
  then have "utf8_width (hd (utf8_char c)) = length (utf8_char c) \<and> utf8_scalar (utf8_char c) = c"
  proof cases
    case c1
    then show ?thesis by (simp add: utf8_char_def utf8_width_def word_less_nat_alt un)
  next
    case c2
    then have "c div 64 < 32" by (simp add: div_less_iff_less_mult)
    moreover from this have "192 + c div 64 < 224" "192 + c div 64 < 256" by simp_all
    ultimately show ?thesis using c2 m [of c] div_mult_mod_eq [of c 64]
      by (simp add: utf8_char_def utf8_width_def word_less_nat_alt un lead)
  next
    case c3
    then have "c div 4096 < 16" by (simp add: div_less_iff_less_mult)
    moreover have "c = c div 4096 * 4096 + c div 64 mod 64 * 64 + c mod 64"
    proof -
      have "c div 4096 * 64 + c div 64 mod 64 = c div 64"
        using div_mult_mod_eq [of "c div 64" 64] by (simp add: div_mult2_eq [symmetric])
      then show ?thesis using div_mult_mod_eq [of c 64] by linarith
    qed
    ultimately show ?thesis using c3 m [of c] m [of "c div 64"]
      by (simp add: utf8_char_def utf8_width_def word_less_nat_alt un lead)
  next
    case c4
    then have "c div 262144 < 8" using c by (simp add: div_less_iff_less_mult)
    moreover have "c = c div 262144 * 262144 + c div 4096 mod 64 * 4096 + c div 64 mod 64 * 64 + c mod 64"
    proof -
      have "c div 4096 * 64 + c div 64 mod 64 = c div 64" "c div 262144 * 64 + c div 4096 mod 64 = c div 4096"
        using div_mult_mod_eq [of "c div 64" 64] div_mult_mod_eq [of "c div 4096" 64]
        by (simp_all add: div_mult2_eq [symmetric])
      then show ?thesis using div_mult_mod_eq [of c 64] by linarith
    qed
    ultimately show ?thesis using c4 m [of c] m [of "c div 64"] m [of "c div 4096"]
      by (simp add: utf8_char_def utf8_width_def word_less_nat_alt un lead)
  qed
  then show "utf8_width (hd (utf8_char c)) = length (utf8_char c)" "utf8_scalar (utf8_char c) = c" by auto
qed

lemma from_utf8_complete: "wf_str s \<Longrightarrow> from_utf8 (str_bytes s) = Some s"
proof (induction s)
  case (Cons c s)
  have c: "valid_scalar c" and s: "wf_str s" using Cons.prems by (auto simp: wf_str_def)
  obtain b r where br: "utf8_char c = b # r" using utf8_char_not_Nil by (cases "utf8_char c") auto
  have "utf8_next (str_bytes (c # s)) = Some (c, str_bytes s)"
    using utf8_char_decoded [OF c] c br by (simp add: utf8_next_def str_bytes_def Let_def)
  then show ?case using Cons.IH [OF s] br by (simp add: str_bytes_def)
qed simp

section \<open>UTF-16\<close>

lemma utf16_char_high:
  assumes "valid_scalar c" and "\<not> c < 0x10000"
  shows "\<exists>hi lo. utf16_char c = [hi, lo] \<and> 0xD800 \<le> hi \<and> hi < 0xDC00"
proof -
  have "(c - 0x10000) div 1024 < 1024"
    using assms by (simp add: valid_scalar_def div_less_iff_less_mult)
  then show ?thesis using assms(2) by (simp add: utf16_char_def)
qed

lemma utf16_char_prefix:
  assumes "valid_scalar c" and "valid_scalar d" and "utf16_char c @ r = utf16_char d @ r'"
  shows "c = d"
proof -
  have low: "utf16_char x = [x] \<and> \<not> (0xD800 \<le> x \<and> x < 0xDC00)"
    if "valid_scalar x" "x < 0x10000" for x
    using that by (auto simp: utf16_char_def valid_scalar_def)
  have split: "x = y" if "x div 1024 = y div 1024" "x mod 1024 = y mod 1024" for x y :: nat
    using that by (metis div_mod_decomp)
  consider "c < 0x10000" "d < 0x10000" | "c < 0x10000" "\<not> d < 0x10000"
    | "\<not> c < 0x10000" "d < 0x10000" | (high) "\<not> c < 0x10000" "\<not> d < 0x10000"
    by blast
  then show ?thesis
  proof cases
    case high
    have u: "utf16_char x = [0xD800 + (x - 0x10000) div 1024, 0xDC00 + (x - 0x10000) mod 1024]"
      if "\<not> x < 0x10000" for x
      using that by (simp only: utf16_char_def if_False)
    have "(c - 0x10000) div 1024 = (d - 0x10000) div 1024"
      and "(c - 0x10000) mod 1024 = (d - 0x10000) mod 1024"
      using assms(3) unfolding u [OF high(1)] u [OF high(2)]
      by (simp_all only: append.simps list.inject add_left_cancel)
    then have "c - 0x10000 = d - 0x10000" by (rule split)
    with high show ?thesis by simp
  qed (use assms low [of c] low [of d] utf16_char_high [of c] utf16_char_high [of d] in auto)
qed

lemma encode_utf16_inj:
  assumes "wf_str s" and "wf_str t" and "encode_utf16 s = encode_utf16 t"
  shows "s = t"
  using assms
proof (induction s arbitrary: t)
  case Nil
  then show ?case by (cases t) (auto simp: utf16_char_def split: if_splits)
next
  case (Cons c s)
  obtain d t' where t: "t = d # t'"
    using Cons.prems(3) by (cases t) (auto simp: utf16_char_def split: if_splits)
  have "c = d"
    by (rule utf16_char_prefix [of c d "encode_utf16 s" "encode_utf16 t'"])
      (use Cons.prems t in \<open>auto simp: wf_str_def\<close>)
  with Cons t show ?case by (auto simp: wf_str_def)
qed

section \<open>Length-prefixed parts\<close>

text \<open>A part as \<open>write_part\<close> feeds it to a hash: its length as eight bytes, then its bytes.\<close>

definition part_bytes :: "u8 list \<Rightarrow> u8 list" where
  "part_bytes bs = be_bytes 8 (length bs) @ bs"

lemma part_bytes_prefix:
  assumes "length a < 2 ^ 64" and "length b < 2 ^ 64" and "part_bytes a @ r = part_bytes b @ r'"
  shows "a = b \<and> r = r'"
proof -
  have "be_bytes 8 (length a) = be_bytes 8 (length b)" and rest: "a @ r = b @ r'"
    using assms(3) by (simp_all add: part_bytes_def append_eq_append_conv)
  then have "length a = length b"
    using assms(1,2) by (intro be_bytes_inj [of _ 8]) simp_all
  with rest show ?thesis by simp
qed

lemma parts_prefix:
  assumes "length as = length bs" and "\<forall>x \<in> set as \<union> set bs. length x < 2 ^ 64"
    and "concat (map part_bytes as) @ r = concat (map part_bytes bs) @ r'"
  shows "as = bs \<and> r = r'"
  using assms
proof (induction as bs rule: list_induct2)
  case (Cons a as b bs)
  have "a = b \<and> concat (map part_bytes as) @ r = concat (map part_bytes bs) @ r'"
    by (rule part_bytes_prefix) (use Cons.prems in auto)
  with Cons show ?case by auto
qed simp

end
