(* ===== verification/Identity.thy ===== *)
theory Identity
  imports Encodings Records "HOL-Library.List_Lexorder"
begin

text \<open>
  Request identity: \<^verbatim>\<open>crates/voicetext-gateway/src/identity.rs\<close>. The hash function \<open>Sha256::digest\<close>
  and \<open>Uuid::new_v5\<close> are arguments. A hasher is the list of the bytes it was fed with, so the
  fingerprint is the digest of that list. Strings are compared by UTF-16 code units with the
  lexicographic order on lists, and \<open>sort_by\<close>, which is stable, is the stable \<open>sort_key\<close>.
\<close>

section \<open>Data\<close>

definition IDEMPOTENCY_KEY_BYTES :: usize where "IDEMPOTENCY_KEY_BYTES = 64"
definition MAX_IDENTITY_BYTES :: usize where "MAX_IDENTITY_BYTES = 256"
definition FP_MAX_KEYTERMS :: usize where "FP_MAX_KEYTERMS = 100"
definition FP_MAX_KEYTERM_BYTES :: usize where "FP_MAX_KEYTERM_BYTES = 200"
definition FP_MAX_AUDIO_BYTES :: usize where "FP_MAX_AUDIO_BYTES = 64 * 1024 * 1024"

type_synonym uuid = "128 word"

definition JOB_ID_NAMESPACE :: uuid where
  "JOB_ID_NAMESPACE = 0xa7ef59d0400d5b12ac6432fbd576fbbc"

datatype IdempotencyKey = IdempotencyKey str

datatype InvalidIdempotencyKey = InvalidLength | NotLowercaseHex

datatype FingerprintError =
    FpUnsupportedContractVersion | FpIdentityTooLong | FpTooManyKeyterms | FpInvalidKeyterm
  | FpKeytermTooLong | FpNonCanonicalKeyterms | FpEmptyAudio | FpAudioTooLarge

datatype Ordering = OLess | OEqual | OGreater

section \<open>Operations\<close>

definition idempotency_key_parse :: "str \<Rightarrow> (IdempotencyKey, InvalidIdempotencyKey) result" where
  "idempotency_key_parse value =
     (if str_len value \<noteq> IDEMPOTENCY_KEY_BYTES then Err InvalidLength
      else if \<not> list_all lowercase_hex (str_bytes value) then Err NotLowercaseHex
      else Ok (IdempotencyKey value))"

fun key_as_str :: "IdempotencyKey \<Rightarrow> str" where
  "key_as_str (IdempotencyKey value) = value"

definition deterministic_job_id :: "(uuid \<Rightarrow> u8 list \<Rightarrow> uuid) \<Rightarrow> IdempotencyKey \<Rightarrow> uuid" where
  "deterministic_job_id new_v5 key = new_v5 JOB_ID_NAMESPACE (str_bytes (key_as_str key))"

definition compare_utf16 :: "str \<Rightarrow> str \<Rightarrow> Ordering" where
  "compare_utf16 left right =
     (if encode_utf16 left < encode_utf16 right then OLess
      else if encode_utf16 left = encode_utf16 right then OEqual else OGreater)"

definition validate_keyterm :: "str \<Rightarrow> (unit, FingerprintError) result" where
  "validate_keyterm keyterm =
     (if keyterm = [] \<or> has_control keyterm then Err FpInvalidKeyterm
      else if str_len keyterm > FP_MAX_KEYTERM_BYTES then Err FpKeytermTooLong
      else Ok ())"

fun each_keyterm :: "str list \<Rightarrow> (unit, FingerprintError) result" where
  "each_keyterm [] = Ok ()"
| "each_keyterm (k # ks) = and_then (validate_keyterm k) (\<lambda>_. each_keyterm ks)"

definition canonicalize_keyterms :: "str list \<Rightarrow> (str list, FingerprintError) result" where
  "canonicalize_keyterms keyterms =
     (if length keyterms > FP_MAX_KEYTERMS then Err FpTooManyKeyterms
      else
        let canonical = map trim keyterms in
        and_then (each_keyterm canonical) (\<lambda>_.
          Ok (remdups_adj (sort_key encode_utf16 canonical))))"

fun keyterms_loop :: "str option \<Rightarrow> str list \<Rightarrow> (unit, FingerprintError) result" where
  "keyterms_loop previous [] = Ok ()"
| "keyterms_loop previous (keyterm # rest) =
     and_then (validate_keyterm keyterm) (\<lambda>_.
       if trim keyterm \<noteq> keyterm then Err FpInvalidKeyterm
       else if (case previous of None \<Rightarrow> False | Some value \<Rightarrow> compare_utf16 value keyterm \<noteq> OLess)
       then Err FpNonCanonicalKeyterms
       else keyterms_loop (Some keyterm) rest)"

definition fp_validate_keyterms :: "str list \<Rightarrow> (unit, FingerprintError) result" where
  "fp_validate_keyterms keyterms =
     (if length keyterms > FP_MAX_KEYTERMS then Err FpTooManyKeyterms
      else keyterms_loop None keyterms)"

text \<open>\<open>write_part\<close>: the hasher after the call.\<close>

definition write_part :: "u8 list \<Rightarrow> u8 list \<Rightarrow> u8 list" where
  "write_part hasher bytes = hasher @ part_bytes bytes"

text \<open>\<open>u16::to_string\<close>.\<close>

fun decimal :: "nat \<Rightarrow> str" where
  "decimal n = (if n < 10 then [48 + n] else decimal (n div 10) @ [48 + n mod 10])"

declare decimal.simps [simp del]

text \<open>The bytes that are hashed.\<close>

definition fingerprint_input ::
  "(u8 list \<Rightarrow> u8 list) \<Rightarrow> BatchProfile \<Rightarrow> str list \<Rightarrow> u8 list \<Rightarrow> u8 list" where
  "fingerprint_input sha256 profile keyterms audio =
     (let h = fold (\<lambda>identity h. write_part h (str_bytes identity))
                [decimal (unat (bp_contract_version profile)), bp_provider profile,
                 bp_model profile, bp_language profile] [];
          h = h @ be_bytes 8 (length keyterms);
          h = fold (\<lambda>keyterm h. write_part h (str_bytes keyterm)) keyterms h
      in if bp_contract_version profile = 2 then write_part h audio
         else write_part h (sha256 audio))"

definition request_fingerprint ::
  "(u8 list \<Rightarrow> u8 list) \<Rightarrow> BatchProfile \<Rightarrow> str list \<Rightarrow> u8 list
   \<Rightarrow> (BatchRequestFingerprint, FingerprintError) result" where
  "request_fingerprint sha256 profile canonical_keyterms audio =
     (if \<not> (bp_contract_version profile = 2 \<or> bp_contract_version profile = 3)
      then Err FpUnsupportedContractVersion
      else if list_ex (\<lambda>identity. str_len identity > MAX_IDENTITY_BYTES)
                [bp_provider profile, bp_model profile, bp_language profile]
      then Err FpIdentityTooLong
      else and_then (fp_validate_keyterms canonical_keyterms) (\<lambda>_.
        if audio = [] then Err FpEmptyAudio
        else if length audio > FP_MAX_AUDIO_BYTES then Err FpAudioTooLarge
        else Ok (sha256 (fingerprint_input sha256 profile canonical_keyterms audio))))"

section \<open>Canonical key terms\<close>

lemma each_keyterm_iff: "each_keyterm ks = Ok () \<longleftrightarrow> (\<forall>k \<in> set ks. validate_keyterm k = Ok ())"
  by (induction ks) auto

lemma keyterms_loop_iff:
  "keyterms_loop previous ks = Ok () \<longleftrightarrow>
     (\<forall>k \<in> set ks. validate_keyterm k = Ok () \<and> trim k = k) \<and>
     sorted_wrt (<) (map encode_utf16 (case previous of None \<Rightarrow> ks | Some p \<Rightarrow> p # ks))"
proof (induction ks arbitrary: previous)
  case Nil
  then show ?case by (cases previous) auto
next
  case (Cons k ks)
  show ?case
  proof (cases previous)
    case None
    then show ?thesis using Cons [of "Some k"] by auto
  next
    case (Some p)
    have "compare_utf16 p k = OLess \<longleftrightarrow> encode_utf16 p < encode_utf16 k"
      by (simp add: compare_utf16_def)
    moreover have "(\<forall>x \<in> set ks. encode_utf16 p < encode_utf16 x)"
      if "encode_utf16 p < encode_utf16 k" "\<forall>x \<in> set ks. encode_utf16 k < encode_utf16 x"
      using that by force
    ultimately show ?thesis using Some Cons [of "Some k"] by auto
  qed
qed

lemma fp_validate_keyterms_iff:
  "fp_validate_keyterms ks = Ok () \<longleftrightarrow>
     length ks \<le> FP_MAX_KEYTERMS \<and> (\<forall>k \<in> set ks. validate_keyterm k = Ok () \<and> trim k = k) \<and>
     sorted_wrt (<) (map encode_utf16 ks)"
  by (auto simp: fp_validate_keyterms_def keyterms_loop_iff)

lemma canonicalize_Ok_iff:
  "canonicalize_keyterms ks = Ok c \<longleftrightarrow>
     length ks \<le> FP_MAX_KEYTERMS \<and> (\<forall>k \<in> trim ` set ks. validate_keyterm k = Ok ()) \<and>
     c = remdups_adj (sort_key encode_utf16 (map trim ks))"
  by (auto simp: canonicalize_keyterms_def Let_def each_keyterm_iff)

lemma wf_str_trim: "wf_str s \<Longrightarrow> wf_str (trim s)"
  by (auto simp: wf_str_def list_all_iff trim_def trim_end_def trim_start_def dest!: set_dropWhileD)

lemma sorted_remdups_adj_strict:
  assumes "sorted (map f xs)" and "inj_on f (set xs)"
  shows "sorted_wrt (<) (map f (remdups_adj xs))"
  using assms
proof (induction xs rule: remdups_adj.induct)
  case (3 x y xs)
  show ?case
  proof (cases "x = y")
    case False
    then have "f x < f y" using 3 by (auto simp: inj_on_def less_le)
    moreover have "\<forall>z \<in> set (remdups_adj (y # xs)). f y \<le> f z"
      using "3.prems"(1) by auto
    ultimately have "\<forall>z \<in> set (remdups_adj (y # xs)). f x < f z" by force
    then show ?thesis using 3 False by auto
  qed (use 3 in auto)
qed auto

lemma canonicalize_strict:
  assumes "canonicalize_keyterms ks = Ok c" and "\<forall>k \<in> set ks. wf_str k"
  shows "sorted_wrt (<) (map encode_utf16 c)" and "set c = trim ` set ks"
    and "length c \<le> length ks" and "\<forall>k \<in> set c. validate_keyterm k = Ok () \<and> trim k = k \<and> wf_str k"
proof -
  let ?s = "sort_key encode_utf16 (map trim ks)"
  have c: "c = remdups_adj ?s" and v: "\<forall>k \<in> trim ` set ks. validate_keyterm k = Ok ()"
    using assms(1) by (auto simp: canonicalize_Ok_iff)
  have wf: "\<forall>k \<in> trim ` set ks. wf_str k" using assms(2) wf_str_trim by blast
  have "inj_on encode_utf16 (set ?s)"
    using wf encode_utf16_inj by (auto simp: inj_on_def)
  then show "sorted_wrt (<) (map encode_utf16 c)"
    unfolding c by (intro sorted_remdups_adj_strict) simp_all
  show set_c: "set c = trim ` set ks" by (simp add: c)
  show "length c \<le> length ks"
    using remdups_adj_length [of ?s] by (simp add: c)
  show "\<forall>k \<in> set c. validate_keyterm k = Ok () \<and> trim k = k \<and> wf_str k"
    using v wf by (auto simp: set_c)
qed

lemma strict_sorted_unique:
  assumes "sorted_wrt (<) (map encode_utf16 a)" and "sorted_wrt (<) (map encode_utf16 b)"
    and "set a = set b" and "\<forall>k \<in> set b. wf_str k"
  shows "a = b"
proof -
  have "map encode_utf16 a = map encode_utf16 b"
    using assms(1-3) by (intro strict_sorted_equal) (simp_all flip: strict_sorted_iff)
  moreover have "inj_on encode_utf16 (set a \<union> set b)"
    using assms(3,4) encode_utf16_inj by (auto simp: inj_on_def)
  ultimately show ?thesis by (simp add: inj_on_map_eq_map)
qed

section \<open>What the fingerprint covers\<close>

lemma fold_write_part:
  "fold (\<lambda>x h. write_part h (g x)) xs h = h @ concat (map part_bytes (map g xs))"
  by (induction xs arbitrary: h) (simp_all add: write_part_def)

definition audio_part :: "(u8 list \<Rightarrow> u8 list) \<Rightarrow> BatchProfile \<Rightarrow> u8 list \<Rightarrow> u8 list" where
  "audio_part sha256 profile audio =
     (if bp_contract_version profile = 2 then audio else sha256 audio)"

definition identity_parts :: "BatchProfile \<Rightarrow> u8 list list" where
  "identity_parts profile =
     map str_bytes [decimal (unat (bp_contract_version profile)), bp_provider profile,
       bp_model profile, bp_language profile]"

lemma fingerprint_input_parts:
  "fingerprint_input sha256 p ks audio =
     concat (map part_bytes (identity_parts p)) @ be_bytes 8 (length ks) @
     concat (map part_bytes (map str_bytes ks)) @ part_bytes (audio_part sha256 p audio)"
  unfolding fingerprint_input_def Let_def fold_write_part
  by (simp add: identity_parts_def audio_part_def write_part_def)

definition wf_request :: "BatchProfile \<Rightarrow> str list \<Rightarrow> bool" where
  "wf_request p ks \<longleftrightarrow>
     wf_str (bp_provider p) \<and> wf_str (bp_model p) \<and> wf_str (bp_language p) \<and> list_all wf_str ks"

lemma request_fingerprint_Ok:
  assumes "request_fingerprint sha256 p ks audio = Ok f"
  shows "bp_contract_version p = 2 \<or> bp_contract_version p = 3"
    and "\<forall>x \<in> set [bp_provider p, bp_model p, bp_language p]. str_len x \<le> MAX_IDENTITY_BYTES"
    and "fp_validate_keyterms ks = Ok ()" and "length audio \<le> FP_MAX_AUDIO_BYTES"
    and "f = sha256 (fingerprint_input sha256 p ks audio)"
  using assms by (auto simp: request_fingerprint_def split: if_splits)

lemma validate_keyterm_len: "validate_keyterm k = Ok () \<Longrightarrow> str_len k \<le> FP_MAX_KEYTERM_BYTES"
  by (simp add: validate_keyterm_def split: if_splits)

lemma version_decimal:
  "v \<in> {2, 3} \<Longrightarrow> w \<in> {2, 3} \<Longrightarrow>
   str_bytes (decimal (unat v)) = str_bytes (decimal (unat w)) \<Longrightarrow> v = w" for v w :: u16
  by (auto simp: decimal.simps utf8_char_def byte_eq_iff)

lemma version_decimal_len: "v \<in> {2, 3} \<Longrightarrow> length (str_bytes (decimal (unat v))) = 1" for v :: u16
  by (auto simp: decimal.simps utf8_char_def)

lemma identity_parts_inj:
  assumes "identity_parts p = identity_parts q"
    and "bp_contract_version p \<in> {2, 3}" and "bp_contract_version q \<in> {2, 3}"
    and "wf_request p ks" and "wf_request q ks'"
  shows "p = (q :: BatchProfile)"
  using assms
  by (intro BatchProfile.equality)
    (auto simp: identity_parts_def wf_request_def intro: version_decimal str_bytes_inj)

lemma map_str_bytes_inj:
  "list_all wf_str a \<Longrightarrow> list_all wf_str b \<Longrightarrow> map str_bytes a = map str_bytes b \<Longrightarrow> a = b"
proof (induction a arbitrary: b)
  case (Cons x a)
  then show ?case by (cases b) (auto intro: str_bytes_inj)
qed simp

lemma accepted_parts_bounded:
  assumes "request_fingerprint sha256 p ks audio = Ok f" and "\<forall>x. length (sha256 x) = 32"
  shows "\<forall>x \<in> set (identity_parts p). length x < 2 ^ 64"
    and "\<forall>x \<in> set (map str_bytes ks). length x < 2 ^ 64"
    and "length (audio_part sha256 p audio) < 2 ^ 64" and "length ks < 2 ^ 64"
proof -
  note ok = request_fingerprint_Ok [OF assms(1)]
  show "\<forall>x \<in> set (identity_parts p). length x < 2 ^ 64"
    using ok(1,2) version_decimal_len [of "bp_contract_version p"]
    by (auto simp: identity_parts_def str_len_def [symmetric] MAX_IDENTITY_BYTES_def)
  show "\<forall>x \<in> set (map str_bytes ks). length x < 2 ^ 64"
    using ok(3) validate_keyterm_len
    by (fastforce simp: fp_validate_keyterms_iff str_len_def [symmetric] FP_MAX_KEYTERM_BYTES_def)
  show "length (audio_part sha256 p audio) < 2 ^ 64"
    using ok(4) assms(2) by (simp add: audio_part_def FP_MAX_AUDIO_BYTES_def)
  show "length ks < 2 ^ 64"
    using ok(3) by (simp add: fp_validate_keyterms_iff FP_MAX_KEYTERMS_def)
qed

lemma fingerprint_input_inj:
  assumes "request_fingerprint sha256 p ks audio = Ok f"
    and "request_fingerprint sha256 q ks' audio' = Ok g"
    and "\<forall>x. length (sha256 x) = 32" and "wf_request p ks" and "wf_request q ks'"
    and "fingerprint_input sha256 p ks audio = fingerprint_input sha256 q ks' audio'"
  shows "p = q \<and> ks = ks' \<and> audio_part sha256 p audio = audio_part sha256 q audio'"
proof -
  note b = accepted_parts_bounded [OF assms(1,3)] accepted_parts_bounded [OF assms(2,3)]
  note eq = assms(6) [unfolded fingerprint_input_parts]
  have "length (identity_parts p) = length (identity_parts q)" by (simp add: identity_parts_def)
  from parts_prefix [OF this _ eq] b
  have ids: "identity_parts p = identity_parts q"
    and r1: "be_bytes 8 (length ks) @ concat (map part_bytes (map str_bytes ks)) @
        part_bytes (audio_part sha256 p audio) =
      be_bytes 8 (length ks') @ concat (map part_bytes (map str_bytes ks')) @
        part_bytes (audio_part sha256 q audio')"
    by auto
  from ids have pq: "p = q"
    using request_fingerprint_Ok(1) [OF assms(1)] request_fingerprint_Ok(1) [OF assms(2)] assms(4,5)
    by (intro identity_parts_inj) auto
  from r1 have count: "be_bytes 8 (length ks) = be_bytes 8 (length ks')"
    and r2: "concat (map part_bytes (map str_bytes ks)) @ part_bytes (audio_part sha256 p audio) =
      concat (map part_bytes (map str_bytes ks')) @ part_bytes (audio_part sha256 q audio')"
    by (simp_all add: append_eq_append_conv)
  from count have "length (map str_bytes ks) = length (map str_bytes ks')"
    using b(4,8) be_bytes_inj [of "length ks" 8 "length ks'"] by simp
  from parts_prefix [OF this _ r2] b
  have terms: "map str_bytes ks = map str_bytes ks'"
    and r3: "part_bytes (audio_part sha256 p audio) = part_bytes (audio_part sha256 q audio')"
    by auto
  from terms have "ks = ks'" using assms(4,5) by (intro map_str_bytes_inj) (auto simp: wf_request_def)
  moreover have "audio_part sha256 p audio = audio_part sha256 q audio'"
    using part_bytes_prefix [OF b(3,7), of "[]" "[]"] r3 by simp
  ultimately show ?thesis using pq by simp
qed

section \<open>Key terms the row codec refuses\<close>

text \<open>A hundred distinct terms of 200 bytes.\<close>

definition long_term :: "nat \<Rightarrow> str" where
  "long_term i = [97 + i div 10, 97 + i mod 10] @ replicate 198 97"

definition long_terms :: "str list" where
  "long_terms = map long_term [0..<100]"

lemma long_term_chars: "i < 100 \<Longrightarrow> \<forall>c \<in> set (long_term i). 97 \<le> c \<and> c < 107"
  by (auto simp: long_term_def div_less_iff_less_mult)

lemma long_term_utf16:
  assumes "i < 100"
  shows "encode_utf16 (long_term i) = long_term i"
proof -
  have "encode_utf16 s = s" if "\<forall>c \<in> set s. 97 \<le> c \<and> c < 107" for s
    using that by (induction s) (auto simp: utf16_char_def)
  then show ?thesis using long_term_chars [OF assms] by simp
qed

lemma long_term_bytes:
  assumes "i < 100"
  shows "str_len (long_term i) = 200"
proof -
  have "str_len s = length s" if "\<forall>c \<in> set s. 97 \<le> c \<and> c < 107" for s
    using that by (induction s) (auto simp: utf8_char_def)
  from this [OF long_term_chars [OF assms]] show ?thesis
    unfolding long_term_def by (simp only: length_append length_replicate list.size)
qed

lemma long_term_ok:
  assumes "i < 100"
  shows "long_term i \<noteq> []" and "trim (long_term i) = long_term i" and "\<not> has_control (long_term i)"
    and "wf_str (long_term i)"
proof -
  note chars = long_term_chars [OF assms]
  show ne: "long_term i \<noteq> []" by (simp add: long_term_def)
  have "\<not> is_whitespace c" "\<not> is_control c" "valid_scalar c" if "c \<in> set (long_term i)" for c
    using chars that by (auto simp: is_whitespace_def is_control_def valid_scalar_def)
  then show "trim (long_term i) = long_term i" and "\<not> has_control (long_term i)"
    and "wf_str (long_term i)"
    using ne by (auto intro!: trim_eq_self simp: has_control_def list_ex_iff wf_str_def list_all_iff)
qed

lemma long_term_less: "i < j \<Longrightarrow> j < 100 \<Longrightarrow> long_term i < long_term j"
proof -
  assume "i < j" "j < 100"
  then have "i div 10 < j div 10 \<or> i div 10 = j div 10 \<and> i mod 10 < j mod 10"
    by (metis div_le_mono div_mod_decomp le_less less_imp_le_nat nat_add_left_cancel_less)
  then show ?thesis by (auto simp: long_term_def)
qed

lemma long_terms_canonical: "fp_validate_keyterms long_terms = Ok ()"
proof -
  have "sorted_wrt (<) (map encode_utf16 long_terms)"
    by (auto simp: long_terms_def sorted_wrt_iff_nth_less long_term_utf16 long_term_less)
  then show ?thesis
    by (auto simp: fp_validate_keyterms_iff long_terms_def FP_MAX_KEYTERMS_def validate_keyterm_def
        long_term_ok long_term_bytes FP_MAX_KEYTERM_BYTES_def)
qed

lemma keyterms_total_sum:
  "keyterms_total acc ks = Ok n \<Longrightarrow> n = acc + sum_list (map str_len ks)"
proof (induction ks arbitrary: acc)
  case (Cons k ks)
  then obtain acc' where "usize_checked_add acc (str_len k) = Some acc'"
    and "keyterms_total acc' ks = Ok n"
    by (auto split: if_splits)
  then show ?case using Cons.IH usize_checked_add_SomeD by fastforce
qed simp

lemma long_terms_refused: "record_validate_keyterms long_terms = Err (lit ''INVALID_KEYTERMS'')"
proof -
  have "map str_len long_terms = replicate 100 200"
    by (rule nth_equalityI) (simp_all add: long_terms_def long_term_bytes)
  then have "sum_list (map str_len long_terms) = 20000" by (simp add: sum_list_replicate)
  then have "keyterms_total 0 long_terms = Ok n \<Longrightarrow> n = 20000" for n
    using keyterms_total_sum by fastforce
  moreover have "keyterms_total acc ks = Err e \<Longrightarrow> e = lit ''INVALID_KEYTERMS''" for acc ks e
    by (induction ks arbitrary: acc) (auto simp: and_then_Err_iff split: if_splits)
  ultimately show ?thesis
    by (cases "keyterms_total 0 long_terms")
      (auto simp: record_validate_keyterms_def MAX_KEYTERMS_def MAX_KEYTERMS_BYTES_def long_terms_def)
qed

section \<open>Properties\<close>

text \<open>Canonical key terms are what the fingerprint requires: whatever a client sends, terms that
  canonicalisation accepts come out trimmed, non-empty, strictly increasing in UTF-16 order and
  without duplicates, as the same set of terms; the fingerprint's validation accepts them, and
  canonicalising them again changes nothing.\<close>

theorem canonical_keyterms_accepted:
  assumes "canonicalize_keyterms ks = Ok c" and "list_all wf_str ks"
  shows "fp_validate_keyterms c = Ok () \<and> set c = trim ` set ks \<and> canonicalize_keyterms c = Ok c"
proof -
  have wf: "\<forall>k \<in> set ks. wf_str k" using assms(2) by (simp add: list_all_iff)
  note s = canonicalize_strict [OF assms(1) wf]
  have len: "length c \<le> FP_MAX_KEYTERMS" using s(3) assms(1) by (simp add: canonicalize_Ok_iff)
  have tr: "map trim c = c" using s(4) by (simp add: map_idI)
  then have "set (map trim c) = set c" by simp
  then have "\<forall>k \<in> trim ` set c. validate_keyterm k = Ok ()" using s(4) by (metis list.set_map)
  then have again: "canonicalize_keyterms c = Ok (remdups_adj (sort_key encode_utf16 (map trim c)))"
    using len by (simp add: canonicalize_Ok_iff)
  have "remdups_adj (sort_key encode_utf16 (map trim c)) = c"
  proof (rule strict_sorted_unique [OF canonicalize_strict(1) [OF again] s(1)])
    show wfc: "\<forall>k \<in> set c. wf_str k" using s(4) by blast
    then show "\<forall>k \<in> set c. wf_str k" .
    show "set (remdups_adj (sort_key encode_utf16 (map trim c))) = set c"
      by (simp only: remdups_adj_set set_sort tr)
  qed
  then show ?thesis
    using again s len by (simp add: fp_validate_keyterms_iff)
qed

text \<open>The canonical key terms depend only on the set of terms: two requests that list the same
  terms in different orders, with repetitions or surrounding white space, get the same canonical
  list and so the same fingerprint.\<close>

theorem canonical_keyterms_order_independent:
  assumes "canonicalize_keyterms ks = Ok c" and "canonicalize_keyterms ks' = Ok c'"
    and "list_all wf_str ks" and "list_all wf_str ks'" and "set (map trim ks) = set (map trim ks')"
  shows "c = c' \<and> request_fingerprint sha256 p c audio = request_fingerprint sha256 p c' audio"
proof -
  have wf: "\<forall>k \<in> set ks. wf_str k" "\<forall>k \<in> set ks'. wf_str k"
    using assms(3,4) by (simp_all add: list_all_iff)
  note s = canonicalize_strict [OF assms(1) wf(1)] and s' = canonicalize_strict [OF assms(2) wf(2)]
  have "set c = set c'" using s(2) s'(2) assms(5) by simp
  moreover have "\<forall>k \<in> set c'. wf_str k" using s'(4) by blast
  ultimately have "c = c'" by (rule strict_sorted_unique [OF s(1) s'(1)])
  then show ?thesis by simp
qed



section \<open>Witnesses\<close>

definition sample_terms :: "str list" where
  "sample_terms = [[98], [97, 32], [98]]"

lemma sample_canonical: "canonicalize_keyterms sample_terms = Ok [[97], [98]]"
  by (simp add: canonicalize_keyterms_def sample_terms_def validate_keyterm_def FP_MAX_KEYTERMS_def
      FP_MAX_KEYTERM_BYTES_def trim_def trim_start_def trim_end_def is_whitespace_def is_control_def
      utf8_char_def utf16_char_def)

lemma sample_terms_wf: "list_all wf_str sample_terms"
  by (simp add: sample_terms_def wf_str_def valid_scalar_def)

theorem canonical_keyterms_accepted_witness: "fp_validate_keyterms [[97], [98]] = Ok ()"
  using canonical_keyterms_accepted [OF sample_canonical sample_terms_wf] by simp

theorem canonical_keyterms_order_independent_witness:
  "\<exists>c. canonicalize_keyterms [[97], [98]] = Ok c \<and> c = [[97], [98]]"
proof -
  have c: "canonicalize_keyterms [[97], [98]] = Ok [[97], [98]]"
    by (simp add: canonicalize_keyterms_def validate_keyterm_def FP_MAX_KEYTERMS_def
      FP_MAX_KEYTERM_BYTES_def trim_def trim_start_def trim_end_def is_whitespace_def is_control_def
      utf8_char_def utf16_char_def)
  moreover have "set (map trim sample_terms) = set (map trim [[97], [98]])"
    by (auto simp: sample_terms_def trim_def trim_start_def trim_end_def is_whitespace_def)
  ultimately show ?thesis
    using canonical_keyterms_order_independent [OF sample_canonical c sample_terms_wf]
    by (auto simp: wf_str_def valid_scalar_def)
qed

definition sample_fp_profile :: BatchProfile where
  "sample_fp_profile =
     \<lparr>bp_contract_version = 3, bp_provider = [101], bp_model = [115], bp_language = [109]\<rparr>"


end
