(* ===== verification/Json.thy ===== *)
theory Json
  imports Rust_Text Rust_Float "HOL-Library.AList"
begin

text \<open>
  JSON values and UUIDs as the wire contracts use them. The text level of \<open>serde_json\<close> and the
  crate \<open>uuid\<close> are arguments: \<open>json_text\<close> converts between values and text, \<open>uuid_lib\<close> between
  identifiers and text. An object is the list of its fields in the order of the text, possibly
  with repeated names; \<open>collapse\<close> is the conversion to \<open>serde_json::Value\<close>, where the last
  occurrence of a name wins, while a derived \<open>Deserialize\<close> that reads the text itself refuses
  repetitions.

  A number is an unsigned integer, a negative integer or a float, as in \<open>serde_json::Number\<close>.
  Reading an integer as \<open>f64\<close> is exact up to \<open>2 ^ 53\<close>; above, the contracts only compare the value
  with bounds that it exceeds before and after rounding.
\<close>

datatype json =
    JNull
  | JBool bool
  | JNat u64
  | JNeg int
  | JFloat float
  | JString str
  | JArray "json list"
  | JObject "(str \<times> json) list"

record json_text =
  to_text :: "json \<Rightarrow> str"
  of_text :: "str \<Rightarrow> json option"

record 'u uuid_lib =
  uuid_text :: "'u \<Rightarrow> str"
  uuid_parse :: "str \<Rightarrow> 'u option"
  uuid_rfc4122 :: "'u \<Rightarrow> bool"
  uuid_version :: "'u \<Rightarrow> nat"

section \<open>Objects\<close>

definition last_wins :: "(str \<times> 'a) list \<Rightarrow> (str \<times> 'a) list" where
  "last_wins fs = fold (\<lambda>(k, v) m. AList.update k v m) fs []"

primrec collapse :: "json \<Rightarrow> json" where
  "collapse JNull = JNull"
| "collapse (JBool b) = JBool b"
| "collapse (JNat n) = JNat n"
| "collapse (JNeg i) = JNeg i"
| "collapse (JFloat f) = JFloat f"
| "collapse (JString s) = JString s"
| "collapse (JArray xs) = JArray (map collapse xs)"
| "collapse (JObject fs) = JObject (last_wins (map (map_prod (\<lambda>k. k) collapse) fs))"

text \<open>\<open>serde_json::from_str::<Value>\<close>.\<close>

definition value_of_text :: "json_text \<Rightarrow> str \<Rightarrow> json option" where
  "value_of_text jt s = map_option collapse (of_text jt s)"

fun as_object :: "json \<Rightarrow> (str \<times> json) list option" where
  "as_object (JObject fs) = Some fs"
| "as_object _ = None"

fun as_array :: "json \<Rightarrow> json list option" where
  "as_array (JArray xs) = Some xs"
| "as_array _ = None"

fun as_str :: "json \<Rightarrow> str option" where
  "as_str (JString s) = Some s"
| "as_str _ = None"

fun as_bool :: "json \<Rightarrow> bool option" where
  "as_bool (JBool b) = Some b"
| "as_bool _ = None"

fun as_u64 :: "json \<Rightarrow> u64 option" where
  "as_u64 (JNat n) = Some n"
| "as_u64 _ = None"

fun as_f64 :: "json \<Rightarrow> float option" where
  "as_f64 (JFloat f) = Some f"
| "as_f64 (JNat n) = Some (Finite (of_nat (unat n)))"
| "as_f64 (JNeg i) = Some (Finite (of_int i))"
| "as_f64 _ = None"

text \<open>An integer field of a narrower unsigned type.\<close>

definition as_bounded :: "nat \<Rightarrow> json \<Rightarrow> nat option" where
  "as_bounded limit v = (case as_u64 v of None \<Rightarrow> None | Some n \<Rightarrow> if unat n < limit then Some (unat n) else None)"

text \<open>A field that must be present, and one with \<open>serde(default)\<close> whose type is an \<open>Option\<close>, for
  which \<open>null\<close> is \<open>None\<close> too.\<close>

definition field :: "(str \<times> json) list \<Rightarrow> string \<Rightarrow> (json \<Rightarrow> 'a option) \<Rightarrow> 'a option" where
  "field fs name read = Option.bind (map_of fs (lit name)) read"

definition optional_field ::
  "(str \<times> json) list \<Rightarrow> string \<Rightarrow> (json \<Rightarrow> 'a option) \<Rightarrow> 'a option option" where
  "optional_field fs name read =
     (case map_of fs (lit name) of
        None \<Rightarrow> Some None
      | Some JNull \<Rightarrow> Some None
      | Some v \<Rightarrow> map_option Some (read v))"

text \<open>\<open>serde(default)\<close> on a field that is not an \<open>Option\<close>.\<close>

definition default_field ::
  "(str \<times> json) list \<Rightarrow> string \<Rightarrow> 'a \<Rightarrow> (json \<Rightarrow> 'a option) \<Rightarrow> 'a option" where
  "default_field fs name d read =
     (case map_of fs (lit name) of None \<Rightarrow> Some d | Some v \<Rightarrow> read v)"

text \<open>\<open>serde(deny_unknown_fields)\<close>.\<close>

definition only_fields :: "(str \<times> json) list \<Rightarrow> string list \<Rightarrow> bool" where
  "only_fields fs names = list_all (\<lambda>(k, _). k \<in> set (map lit names)) fs"

text \<open>The fields a derived \<open>Deserialize\<close> with \<open>deny_unknown_fields\<close> sees: of an object whose names
  are known and not repeated, or of an array that lists the values in the order of the
  declaration, which derived implementations accept too.\<close>

fun struct_fields :: "string list \<Rightarrow> json \<Rightarrow> (str \<times> json) list option" where
  "struct_fields names (JObject fs) =
     (if distinct (map fst fs) \<and> only_fields fs names then Some fs else None)"
| "struct_fields names (JArray xs) =
     (if length xs \<le> length names then Some (zip (map lit names) xs) else None)"
| "struct_fields names _ = None"

text \<open>The name of a unit variant: a string, or an object with that name and \<open>null\<close>.\<close>

fun variant_name :: "json \<Rightarrow> str option" where
  "variant_name (JString s) = Some s"
| "variant_name (JObject [(k, JNull)]) = Some k"
| "variant_name _ = None"

definition string_list :: "json \<Rightarrow> str list option" where
  "string_list v =
     (case as_array v of
        None \<Rightarrow> None
      | Some xs \<Rightarrow> those (map as_str xs))"

section \<open>Canonical identifiers\<close>

definition ascii_hexdigit :: "u8 \<Rightarrow> bool" where
  "ascii_hexdigit b \<longleftrightarrow> ascii_digit b \<or> (0x61 \<le> b \<and> b \<le> 0x66) \<or> (0x41 \<le> b \<and> b \<le> 0x46)"

definition canonical_uuid_text :: "str \<Rightarrow> bool" where
  "canonical_uuid_text value =
     (let bytes = str_bytes value in
      length bytes = 36
      \<and> list_all (\<lambda>i. bytes ! i = 0x2D) [8, 13, 18, 23]
      \<and> list_all (\<lambda>(i, b). i \<in> {8, 13, 18, 23} \<or> ascii_hexdigit b) (enumerate 0 bytes))"

text \<open>What the crate \<open>uuid\<close> documents: an identifier is written in the hyphenated form and read
  back.\<close>

definition uuid_laws :: "'u uuid_lib \<Rightarrow> bool" where
  "uuid_laws ul \<longleftrightarrow>
     (\<forall>u. canonical_uuid_text (uuid_text ul u) \<and> uuid_parse ul (uuid_text ul u) = Some u)"

section \<open>Facts\<close>

lemma update_fresh: "k \<notin> set (map fst m) \<Longrightarrow> AList.update k v m = m @ [(k, v)]"
  by (induction m) auto

lemma fold_update_distinct:
  "distinct (map fst (m @ fs)) \<Longrightarrow> fold (\<lambda>(k, v) m. AList.update k v m) fs m = m @ fs"
proof (induction fs arbitrary: m)
  case (Cons f fs)
  obtain k v where f: "f = (k, v)" by (cases f)
  have "AList.update k v m = m @ [(k, v)]"
    by (rule update_fresh) (use Cons.prems f in auto)
  then show ?case using Cons f by simp
qed simp

lemma last_wins_distinct [simp]: "distinct (map fst fs) \<Longrightarrow> last_wins fs = fs"
  unfolding last_wins_def using fold_update_distinct [of "[]" fs] by simp

text \<open>Values without nested objects or repeated names are left as they are.\<close>

fun flat :: "json \<Rightarrow> bool" where
  "flat (JArray xs) = list_all (\<lambda>x. collapse x = x) xs"
| "flat (JObject fs) = False"
| "flat _ = True"

lemma collapse_flat: "flat v \<Longrightarrow> collapse v = v"
  by (cases v) (auto simp: list_all_iff map_idI)

lemma collapse_object:
  assumes "distinct (map fst fs)" and "\<forall>(k, v) \<in> set fs. collapse v = v"
  shows "collapse (JObject fs) = JObject fs"
proof -
  have "map (map_prod (\<lambda>k. k) collapse) fs = fs"
    using assms(2) by (intro map_idI) auto
  then show ?thesis using assms(1) by simp
qed

lemma those_map_Some [simp]: "those (map Some xs) = Some xs"
  by (induction xs) simp_all

lemma string_list_JArray [simp]: "string_list (JArray (map JString xs)) = Some xs"
proof -
  have "map as_str (map JString xs) = map Some xs" by (induction xs) simp_all
  then show ?thesis by (simp only: string_list_def as_array.simps option.case those_map_Some)
qed

end
