(* ===== verification/Contracts_Live.thy ===== *)
theory Contracts_Live
  imports Json "HOL-Library.Monad_Syntax"
begin

text \<open>
  The JSON frames of the live protocol: \<^verbatim>\<open>crates/voicetext-gateway/src/contracts/live.rs\<close> (the
  client's config and commands, and the server messages as the client reads them) and
  \<^verbatim>\<open>contracts/live_outbound.rs\<close> (the server messages as the gateway writes them). A derived
  \<open>Deserialize\<close> is the function from JSON values that its attributes describe, a derived
  \<open>Serialize\<close> the function to JSON values.
\<close>

section \<open>Data\<close>

datatype ContractViolation = ContractViolation string

definition MAX_ERROR_CODE_CHARS :: usize where "MAX_ERROR_CODE_CHARS = 128"
definition MAX_ERROR_MESSAGE_CHARS :: usize where "MAX_ERROR_MESSAGE_CHARS = 2048"
definition MAX_KEYTERM_CHARS :: usize where "MAX_KEYTERM_CHARS = 256"
definition MAX_KEYTERM_COUNT :: usize where "MAX_KEYTERM_COUNT = 100"
definition MAX_KEYTERM_TOTAL_CHARS :: usize where "MAX_KEYTERM_TOTAL_CHARS = 8192"
definition MAX_LANGUAGE_CHARS :: usize where "MAX_LANGUAGE_CHARS = 64"
definition MAX_SAFE_INTEGER :: u64 where "MAX_SAFE_INTEGER = 9007199254740991"
definition MAX_TRANSCRIPT_LIMIT :: usize where "MAX_TRANSCRIPT_LIMIT = 65536"
definition MAX_COMMAND_BYTES :: usize where "MAX_COMMAND_BYTES = 1024"

datatype ClientCommand = CommandFinalize | CommandClose

datatype LiveIdentity = DeepgramNova3 | ElevenlabsScribeV2Realtime

datatype Provider = ProviderDeepgram | ProviderElevenlabs

datatype Model = Nova3 | ScribeV2Realtime

datatype AudioFormat = Opus48Khz | PcmS16le16Khz

datatype Encoding = EncodingOpus | EncodingPcmS16le

record 'u ClientConfig =
  cc_identity :: LiveIdentity
  cc_language :: str
  cc_client_session_id :: 'u
  cc_audio_format :: AudioFormat
  cc_keyterms :: "str list"

text \<open>\<open>ConfigWire\<close>; its \<open>type\<close> and its capabilities have one value each, so the list of
  capabilities is given by its length.\<close>

record 'u ConfigWire =
  cw_provider :: Provider
  cw_model :: Model
  cw_language :: str
  cw_capabilities :: usize
  cw_channels :: u8
  cw_protocol_v :: u8
  cw_client_session_id :: 'u
  cw_encoding :: Encoding
  cw_sample_rate :: u32
  cw_keyterms :: "str list"

record TranscriptSegment =
  ts_text :: str
  ts_start_ms :: u64
  ts_duration_ms :: u64
  ts_confidence :: "float option"

datatype WireFinalizeStatus = WireFlushed | WireNoProvider | WireTimeout

datatype 'u ServerMessage =
    SmReady 'u LiveIdentity
  | SmAck u64
  | SmPartial TranscriptSegment
  | SmFinal TranscriptSegment
  | SmSegmentFinal TranscriptSegment
  | SmError str str
  | SmFinalizeComplete WireFinalizeStatus bool
  | SmUsageUpdate
  | SmResumed

datatype 'u OutboundServerMessage =
    OutReady 'u LiveIdentity
  | OutAck u64
  | OutPartial TranscriptSegment
  | OutFinal TranscriptSegment
  | OutSegmentFinal TranscriptSegment
  | OutFinalizeComplete WireFinalizeStatus bool
  | OutError str str

section \<open>Names on the wire\<close>

definition identity_wire :: "LiveIdentity \<Rightarrow> Provider \<times> Model" where
  "identity_wire identity =
     (case identity of
        DeepgramNova3 \<Rightarrow> (ProviderDeepgram, Nova3)
      | ElevenlabsScribeV2Realtime \<Rightarrow> (ProviderElevenlabs, ScribeV2Realtime))"

fun provider_name :: "Provider \<Rightarrow> string" where
  "provider_name ProviderDeepgram = ''deepgram''"
| "provider_name ProviderElevenlabs = ''elevenlabs''"

fun model_name :: "Model \<Rightarrow> string" where
  "model_name Nova3 = ''nova-3''"
| "model_name ScribeV2Realtime = ''scribe_v2_realtime''"

fun encoding_name :: "Encoding \<Rightarrow> string" where
  "encoding_name EncodingOpus = ''opus''"
| "encoding_name EncodingPcmS16le = ''pcm_s16le''"

fun finalize_name :: "WireFinalizeStatus \<Rightarrow> string" where
  "finalize_name WireFlushed = ''flushed''"
| "finalize_name WireNoProvider = ''no_provider''"
| "finalize_name WireTimeout = ''timeout''"

text \<open>A unit variant is read from its name.\<close>

definition variant :: "('a \<Rightarrow> string) \<Rightarrow> 'a list \<Rightarrow> json \<Rightarrow> 'a option" where
  "variant name variants v =
     (case variant_name v of None \<Rightarrow> None | Some s \<Rightarrow> find (\<lambda>x. lit (name x) = s) variants)"

definition provider_of_json :: "json \<Rightarrow> Provider option" where
  "provider_of_json = variant provider_name [ProviderDeepgram, ProviderElevenlabs]"

definition model_of_json :: "json \<Rightarrow> Model option" where
  "model_of_json = variant model_name [Nova3, ScribeV2Realtime]"

definition encoding_of_json :: "json \<Rightarrow> Encoding option" where
  "encoding_of_json = variant encoding_name [EncodingOpus, EncodingPcmS16le]"

definition finalize_of_json :: "json \<Rightarrow> WireFinalizeStatus option" where
  "finalize_of_json = variant finalize_name [WireFlushed, WireNoProvider, WireTimeout]"

text \<open>A field whose type has a single variant: the value must be its name.\<close>

definition tag :: "string \<Rightarrow> json \<Rightarrow> unit option" where
  "tag name v = (if variant_name v = Some (lit name) then Some () else None)"

text \<open>\<open>Vec<Capability>\<close>: the number of entries, each of which is \<open>finalize_ack\<close>.\<close>

definition capabilities_of_json :: "json \<Rightarrow> usize option" where
  "capabilities_of_json v =
     (case as_array v of
        None \<Rightarrow> None
      | Some xs \<Rightarrow> if list_all (\<lambda>x. tag ''finalize_ack'' x = Some ()) xs then Some (length xs) else None)"

section \<open>Bounds\<close>

definition deserialize_session_id :: "'u uuid_lib \<Rightarrow> json \<Rightarrow> 'u option" where
  "deserialize_session_id ul v =
     do {
       value \<leftarrow> as_str v;
       uuid \<leftarrow> uuid_parse ul value;
       if \<not> canonical_uuid_text value \<or> \<not> uuid_rfc4122 ul uuid
          \<or> \<not> (1 \<le> uuid_version ul uuid \<and> uuid_version ul uuid \<le> 8)
       then None else Some uuid
     }"

definition live_validate_language :: "str \<Rightarrow> (unit, ContractViolation) result" where
  "live_validate_language language =
     require (trim language \<noteq> [] \<and> trim language = language
              \<and> utf16_len language \<le> MAX_LANGUAGE_CHARS \<and> \<not> has_control language)
       (ContractViolation ''invalid live language'')"

fun live_keyterms_loop :: "usize \<Rightarrow> str list \<Rightarrow> (usize, ContractViolation) result" where
  "live_keyterms_loop acc [] = Ok acc"
| "live_keyterms_loop acc (keyterm # rest) =
     and_then (require (trim keyterm \<noteq> [] \<and> trim keyterm = keyterm
                        \<and> utf16_len keyterm \<le> MAX_KEYTERM_CHARS \<and> \<not> has_control keyterm)
                 (ContractViolation ''invalid live keyterm'')) (\<lambda>_.
     and_then (ok_or (usize_checked_add acc (utf16_len keyterm))
                 (ContractViolation ''live keyterms exceed total bound'')) (\<lambda>acc'.
       live_keyterms_loop acc' rest))"

definition live_contract_keyterms :: "str list \<Rightarrow> (unit, ContractViolation) result" where
  "live_contract_keyterms keyterms =
     and_then (require (length keyterms \<le> MAX_KEYTERM_COUNT)
                 (ContractViolation ''too many live keyterms'')) (\<lambda>_.
     and_then (live_keyterms_loop 0 keyterms) (\<lambda>acc.
       require (acc \<le> MAX_KEYTERM_TOTAL_CHARS)
         (ContractViolation ''live keyterms exceed total bound'')))"

definition contract_segment ::
  "str \<Rightarrow> u64 \<Rightarrow> u64 \<Rightarrow> float option \<Rightarrow> usize \<Rightarrow> (TranscriptSegment, ContractViolation) result" where
  "contract_segment t start_ms duration_ms confidence maximum =
     and_then (require (utf16_len t \<le> maximum) (ContractViolation ''live transcript exceeds bound'')) (\<lambda>_.
     and_then (require (start_ms \<le> MAX_SAFE_INTEGER \<and> duration_ms \<le> MAX_SAFE_INTEGER)
                 (ContractViolation ''live segment time exceeds safe integer'')) (\<lambda>_.
     and_then (require (valid_confidence confidence) (ContractViolation ''invalid live confidence'')) (\<lambda>_.
       Ok \<lparr>ts_text = t, ts_start_ms = start_ms, ts_duration_ms = duration_ms,
           ts_confidence = confidence\<rparr>)))"

definition validate_finalize :: "WireFinalizeStatus \<Rightarrow> bool \<Rightarrow> (unit, ContractViolation) result" where
  "validate_finalize status saw_result =
     require (\<not> ((status = WireFlushed \<and> \<not> saw_result) \<or> (status = WireNoProvider \<and> saw_result)))
       (ContractViolation ''inconsistent finalize evidence'')"

section \<open>Client frames\<close>

definition parse_client_command :: "json_text \<Rightarrow> str \<Rightarrow> (ClientCommand, ContractViolation) result" where
  "parse_client_command jt s =
     and_then (require (str_len s \<le> MAX_COMMAND_BYTES)
                 (ContractViolation ''live command exceeds byte limit'')) (\<lambda>_.
     and_then (ok_or (value_of_text jt s) (ContractViolation ''invalid live client command'')) (\<lambda>value.
     and_then (ok_or (as_object value) (ContractViolation ''invalid live client command'')) (\<lambda>object.
     and_then (require (length object = 1)
                 (ContractViolation ''live client command has extra fields'')) (\<lambda>_.
       let command = field object ''type'' as_str in
       if command = Some (lit ''finalize'') then Ok CommandFinalize
       else if command = Some (lit ''close'') then Ok CommandClose
       else Err (ContractViolation ''unsupported live client command'')))))"

definition config_fields :: "string list" where
  "config_fields =
     [''type'', ''provider'', ''model'', ''language'', ''capabilities'', ''channels'', ''protocol_v'',
      ''client_session_id'', ''encoding'', ''sample_rate'', ''keyterms'']"

definition config_wire_of_json :: "'u uuid_lib \<Rightarrow> json \<Rightarrow> 'u ConfigWire option" where
  "config_wire_of_json ul v =
     do {
       fs \<leftarrow> struct_fields config_fields v;
       _ \<leftarrow> field fs ''type'' (tag ''config'');
       provider \<leftarrow> field fs ''provider'' provider_of_json;
       model \<leftarrow> field fs ''model'' model_of_json;
       language \<leftarrow> field fs ''language'' as_str;
       capabilities \<leftarrow> field fs ''capabilities'' capabilities_of_json;
       channels \<leftarrow> field fs ''channels'' (as_bounded 256);
       protocol_v \<leftarrow> field fs ''protocol_v'' (as_bounded 256);
       client_session_id \<leftarrow> field fs ''client_session_id'' (deserialize_session_id ul);
       encoding \<leftarrow> field fs ''encoding'' encoding_of_json;
       sample_rate \<leftarrow> field fs ''sample_rate'' (as_bounded (2 ^ 32));
       keyterms \<leftarrow> default_field fs ''keyterms'' [] string_list;
       Some \<lparr>cw_provider = provider, cw_model = model, cw_language = language,
             cw_capabilities = capabilities, cw_channels = of_nat channels,
             cw_protocol_v = of_nat protocol_v, cw_client_session_id = client_session_id,
             cw_encoding = encoding, cw_sample_rate = of_nat sample_rate, cw_keyterms = keyterms\<rparr>
     }"

definition parse_client_config ::
  "json_text \<Rightarrow> 'u uuid_lib \<Rightarrow> str \<Rightarrow> ('u ClientConfig, ContractViolation) result" where
  "parse_client_config jt ul s =
     and_then (ok_or (Option.bind (of_text jt s) (config_wire_of_json ul))
                 (ContractViolation ''invalid live config JSON'')) (\<lambda>wire.
     and_then (require (cw_protocol_v wire = 2) (ContractViolation ''unsupported live protocol version'')) (\<lambda>_.
     and_then (require (cw_channels wire = 1) (ContractViolation ''live audio must be mono'')) (\<lambda>_.
     and_then (require (cw_capabilities wire = 1) (ContractViolation ''invalid live capabilities'')) (\<lambda>_.
     and_then (case (cw_provider wire, cw_model wire) of
                 (ProviderDeepgram, Nova3) \<Rightarrow> Ok DeepgramNova3
               | (ProviderElevenlabs, ScribeV2Realtime) \<Rightarrow> Ok ElevenlabsScribeV2Realtime
               | _ \<Rightarrow> Err (ContractViolation ''live provider/model identity mismatch'')) (\<lambda>identity.
     and_then (if cw_encoding wire = EncodingOpus \<and> cw_sample_rate wire = 48000 then Ok Opus48Khz
               else if cw_encoding wire = EncodingPcmS16le \<and> cw_sample_rate wire = 16000
               then Ok PcmS16le16Khz
               else Err (ContractViolation ''incompatible live audio format'')) (\<lambda>audio_format.
     and_then (live_validate_language (cw_language wire)) (\<lambda>_.
     and_then (live_contract_keyterms (cw_keyterms wire)) (\<lambda>_.
       Ok \<lparr>cc_identity = identity, cc_language = cw_language wire,
           cc_client_session_id = cw_client_session_id wire, cc_audio_format = audio_format,
           cc_keyterms = cw_keyterms wire\<rparr>))))))))"

definition config_wire_to_json :: "'u uuid_lib \<Rightarrow> 'u ConfigWire \<Rightarrow> json" where
  "config_wire_to_json ul w =
     JObject ([(lit ''type'', JString (lit ''config'')),
       (lit ''provider'', JString (lit (provider_name (cw_provider w)))),
       (lit ''model'', JString (lit (model_name (cw_model w)))),
       (lit ''language'', JString (cw_language w)),
       (lit ''capabilities'', JArray (replicate (cw_capabilities w) (JString (lit ''finalize_ack'')))),
       (lit ''channels'', JNat (ucast (cw_channels w))),
       (lit ''protocol_v'', JNat (ucast (cw_protocol_v w))),
       (lit ''client_session_id'', JString (uuid_text ul (cw_client_session_id w))),
       (lit ''encoding'', JString (lit (encoding_name (cw_encoding w)))),
       (lit ''sample_rate'', JNat (ucast (cw_sample_rate w)))] @
       (if cw_keyterms w = [] then []
        else [(lit ''keyterms'', JArray (map JString (cw_keyterms w)))]))"

text \<open>The wire form of a config, before it is written as text.\<close>

definition client_config_wire :: "'u ClientConfig \<Rightarrow> 'u ConfigWire" where
  "client_config_wire config =
     (let (encoding, sample_rate) =
            (case cc_audio_format config of
               Opus48Khz \<Rightarrow> (EncodingOpus, 48000)
             | PcmS16le16Khz \<Rightarrow> (EncodingPcmS16le, 16000))
      in \<lparr>cw_provider = fst (identity_wire (cc_identity config)),
          cw_model = snd (identity_wire (cc_identity config)),
          cw_language = cc_language config, cw_capabilities = 1, cw_channels = 1,
          cw_protocol_v = 2, cw_client_session_id = cc_client_session_id config,
          cw_encoding = encoding, cw_sample_rate = sample_rate,
          cw_keyterms = cc_keyterms config\<rparr>)"

definition serialize_client_config ::
  "json_text \<Rightarrow> 'u uuid_lib \<Rightarrow> 'u ClientConfig \<Rightarrow> (str, ContractViolation) result" where
  "serialize_client_config jt ul config =
     and_then (live_validate_language (cc_language config)) (\<lambda>_.
     and_then (live_contract_keyterms (cc_keyterms config)) (\<lambda>_.
       Ok (to_text jt (config_wire_to_json ul (client_config_wire config)))))"

section \<open>Server frames as the client reads them\<close>

definition parse_ready ::
  "'u uuid_lib \<Rightarrow> json \<Rightarrow> LiveIdentity \<Rightarrow> ('u ServerMessage, ContractViolation) result" where
  "parse_ready ul value expected =
     and_then (ok_or (do {
         fs \<leftarrow> struct_fields [''type'', ''session_id'', ''provider'', ''model''] value;
         _ \<leftarrow> field fs ''type'' (tag ''ready'');
         session_id \<leftarrow> field fs ''session_id'' (deserialize_session_id ul);
         provider \<leftarrow> field fs ''provider'' provider_of_json;
         model \<leftarrow> field fs ''model'' model_of_json;
         Some (session_id, provider, model)
       }) (ContractViolation ''invalid ready message'')) (\<lambda>(session_id, provider, model).
     and_then (require ((provider, model) = identity_wire expected)
                 (ContractViolation ''ready identity mismatch'')) (\<lambda>_.
       Ok (SmReady session_id expected)))"

definition parse_ack :: "json \<Rightarrow> ('u ServerMessage, ContractViolation) result" where
  "parse_ack value =
     and_then (ok_or (do {
         fs \<leftarrow> struct_fields [''type'', ''seq''] value;
         _ \<leftarrow> field fs ''type'' (tag ''ack'');
         field fs ''seq'' as_u64
       }) (ContractViolation ''invalid ack message'')) (\<lambda>seq.
     and_then (require (1 \<le> seq \<and> seq \<le> MAX_SAFE_INTEGER)
                 (ContractViolation ''invalid audio acknowledgement'')) (\<lambda>_.
       Ok (SmAck seq)))"

definition parse_partial :: "json \<Rightarrow> usize \<Rightarrow> ('u ServerMessage, ContractViolation) result" where
  "parse_partial value maximum =
     and_then (ok_or (do {
         fs \<leftarrow> struct_fields
           [''type'', ''text'', ''start_ms'', ''duration_ms'', ''confidence'', ''is_segment_final''] value;
         _ \<leftarrow> field fs ''type'' (tag ''partial'');
         t \<leftarrow> field fs ''text'' as_str;
         start_ms \<leftarrow> field fs ''start_ms'' as_u64;
         duration_ms \<leftarrow> field fs ''duration_ms'' as_u64;
         confidence \<leftarrow> optional_field fs ''confidence'' as_f64;
         is_segment_final \<leftarrow> default_field fs ''is_segment_final'' False as_bool;
         Some (t, start_ms, duration_ms, confidence, is_segment_final)
       }) (ContractViolation ''invalid partial message''))
       (\<lambda>(t, start_ms, duration_ms, confidence, is_segment_final).
     and_then (contract_segment t start_ms duration_ms confidence maximum) (\<lambda>segment.
       Ok (if is_segment_final then SmSegmentFinal segment else SmPartial segment)))"

definition parse_final :: "json \<Rightarrow> usize \<Rightarrow> ('u ServerMessage, ContractViolation) result" where
  "parse_final value maximum =
     and_then (ok_or (do {
         fs \<leftarrow> struct_fields [''type'', ''text'', ''start_ms'', ''duration_ms'', ''confidence''] value;
         _ \<leftarrow> field fs ''type'' (tag ''final'');
         t \<leftarrow> field fs ''text'' as_str;
         start_ms \<leftarrow> field fs ''start_ms'' as_u64;
         duration_ms \<leftarrow> field fs ''duration_ms'' as_u64;
         confidence \<leftarrow> optional_field fs ''confidence'' as_f64;
         Some (t, start_ms, duration_ms, confidence)
       }) (ContractViolation ''invalid final message'')) (\<lambda>(t, start_ms, duration_ms, confidence).
     map_ok SmFinal (contract_segment t start_ms duration_ms confidence maximum))"

definition parse_error :: "json \<Rightarrow> ('u ServerMessage, ContractViolation) result" where
  "parse_error value =
     and_then (ok_or (do {
         fs \<leftarrow> struct_fields [''type'', ''code'', ''message''] value;
         _ \<leftarrow> field fs ''type'' (tag ''error'');
         code \<leftarrow> field fs ''code'' as_str;
         message \<leftarrow> field fs ''message'' as_str;
         Some (code, message)
       }) (ContractViolation ''invalid error message'')) (\<lambda>(code, message).
     and_then (require (code \<noteq> [] \<and> utf16_len code \<le> MAX_ERROR_CODE_CHARS)
                 (ContractViolation ''invalid live error code'')) (\<lambda>_.
     and_then (require (utf16_len message \<le> MAX_ERROR_MESSAGE_CHARS)
                 (ContractViolation ''live error message exceeds bound'')) (\<lambda>_.
       Ok (SmError code message))))"

definition parse_finalize :: "json \<Rightarrow> ('u ServerMessage, ContractViolation) result" where
  "parse_finalize value =
     and_then (ok_or (do {
         fs \<leftarrow> struct_fields [''type'', ''status'', ''saw_result''] value;
         _ \<leftarrow> field fs ''type'' (tag ''finalize_complete'');
         status \<leftarrow> field fs ''status'' finalize_of_json;
         saw_result \<leftarrow> field fs ''saw_result'' as_bool;
         Some (status, saw_result)
       }) (ContractViolation ''invalid finalize acknowledgement'')) (\<lambda>(status, saw_result).
     and_then (validate_finalize status saw_result) (\<lambda>_.
       Ok (SmFinalizeComplete status saw_result)))"

definition parse_empty ::
  "json \<Rightarrow> string \<Rightarrow> 'u ServerMessage \<Rightarrow> ('u ServerMessage, ContractViolation) result" where
  "parse_empty value expected message =
     and_then (ok_or (as_object value) (ContractViolation ''server message is not an object'')) (\<lambda>object.
     and_then (require (length object = 1 \<and> field object ''type'' as_str = Some (lit expected))
                 (ContractViolation ''unexpected fields in empty server message'')) (\<lambda>_.
       Ok message))"

definition parse_server_message ::
  "json_text \<Rightarrow> 'u uuid_lib \<Rightarrow> str \<Rightarrow> LiveIdentity \<Rightarrow> usize
   \<Rightarrow> ('u ServerMessage, ContractViolation) result" where
  "parse_server_message jt ul s expected max_transcript_chars =
     and_then (require (1 \<le> max_transcript_chars \<and> max_transcript_chars \<le> MAX_TRANSCRIPT_LIMIT)
                 (ContractViolation ''invalid transcript bound'')) (\<lambda>_.
     and_then (ok_or (value_of_text jt s) (ContractViolation ''invalid live server JSON'')) (\<lambda>value.
     and_then (ok_or (Option.bind (as_object value) (\<lambda>fs. field fs ''type'' as_str))
                 (ContractViolation ''live server message has no type'')) (\<lambda>message_type.
       if message_type = lit ''ready'' then parse_ready ul value expected
       else if message_type = lit ''ack'' then parse_ack value
       else if message_type = lit ''partial'' then parse_partial value max_transcript_chars
       else if message_type = lit ''final'' then parse_final value max_transcript_chars
       else if message_type = lit ''error'' then parse_error value
       else if message_type = lit ''finalize_complete'' then parse_finalize value
       else if message_type = lit ''usage_update'' then parse_empty value ''usage_update'' SmUsageUpdate
       else if message_type = lit ''resumed'' then parse_empty value ''resumed'' SmResumed
       else Err (ContractViolation ''unsupported live server message type''))))"

section \<open>Server frames as the gateway writes them\<close>

definition OUT_MAX_TRANSCRIPT_CHARS :: usize where "OUT_MAX_TRANSCRIPT_CHARS = 65536"

definition out_validate_segment :: "TranscriptSegment \<Rightarrow> (unit, ContractViolation) result" where
  "out_validate_segment segment =
     and_then (require (utf16_len (ts_text segment) \<le> OUT_MAX_TRANSCRIPT_CHARS)
                 (ContractViolation ''live transcript exceeds bound'')) (\<lambda>_.
     and_then (require (ts_start_ms segment \<le> MAX_SAFE_INTEGER \<and> ts_duration_ms segment \<le> MAX_SAFE_INTEGER)
                 (ContractViolation ''live segment time exceeds safe integer'')) (\<lambda>_.
     and_then (require (checked_add (ts_start_ms segment) (ts_duration_ms segment) \<noteq> None)
                 (ContractViolation ''live segment timing overflow'')) (\<lambda>_.
       require (valid_confidence (ts_confidence segment)) (ContractViolation ''invalid live confidence''))))"

definition validate_session_id :: "'u uuid_lib \<Rightarrow> 'u \<Rightarrow> (unit, ContractViolation) result" where
  "validate_session_id ul session_id =
     require (uuid_rfc4122 ul session_id \<and> 1 \<le> uuid_version ul session_id \<and> uuid_version ul session_id \<le> 8)
       (ContractViolation ''invalid live session UUID'')"

text \<open>The writer of floats of \<open>serde_json\<close> emits \<open>null\<close> for a value that is not finite.\<close>

definition float_json :: "float \<Rightarrow> json" where
  "float_json f = (if is_finite f then JFloat f else JNull)"

definition segment_json :: "string \<Rightarrow> TranscriptSegment \<Rightarrow> bool option \<Rightarrow> json" where
  "segment_json message_type segment is_segment_final =
     JObject ([(lit ''type'', JString (lit message_type)), (lit ''text'', JString (ts_text segment)),
       (lit ''start_ms'', JNat (ts_start_ms segment)), (lit ''duration_ms'', JNat (ts_duration_ms segment))] @
       (case ts_confidence segment of None \<Rightarrow> [] | Some c \<Rightarrow> [(lit ''confidence'', float_json c)]) @
       (case is_segment_final of None \<Rightarrow> [] | Some b \<Rightarrow> [(lit ''is_segment_final'', JBool b)]))"

text \<open>The JSON value of a message that passes its checks.\<close>

definition server_message_json ::
  "'u uuid_lib \<Rightarrow> 'u OutboundServerMessage \<Rightarrow> (json, ContractViolation) result" where
  "server_message_json ul message =
     (case message of
        OutReady session_id identity \<Rightarrow>
          and_then (validate_session_id ul session_id) (\<lambda>_.
            let (provider, model) = identity_wire identity in
            Ok (JObject [(lit ''type'', JString (lit ''ready'')),
              (lit ''session_id'', JString (uuid_text ul session_id)),
              (lit ''provider'', JString (lit (provider_name provider))),
              (lit ''model'', JString (lit (model_name model)))]))
      | OutAck seq \<Rightarrow>
          and_then (require (1 \<le> seq \<and> seq \<le> MAX_SAFE_INTEGER)
                      (ContractViolation ''invalid audio acknowledgement'')) (\<lambda>_.
            Ok (JObject [(lit ''type'', JString (lit ''ack'')), (lit ''seq'', JNat seq)]))
      | OutPartial segment \<Rightarrow>
          and_then (out_validate_segment segment) (\<lambda>_. Ok (segment_json ''partial'' segment None))
      | OutFinal segment \<Rightarrow>
          and_then (out_validate_segment segment) (\<lambda>_. Ok (segment_json ''final'' segment None))
      | OutSegmentFinal segment \<Rightarrow>
          and_then (out_validate_segment segment) (\<lambda>_. Ok (segment_json ''partial'' segment (Some True)))
      | OutFinalizeComplete status saw_result \<Rightarrow>
          and_then (validate_finalize status saw_result) (\<lambda>_.
            Ok (JObject [(lit ''type'', JString (lit ''finalize_complete'')),
              (lit ''status'', JString (lit (finalize_name status))), (lit ''saw_result'', JBool saw_result)]))
      | OutError code text' \<Rightarrow>
          and_then (require (code \<noteq> [] \<and> utf16_len code \<le> MAX_ERROR_CODE_CHARS)
                      (ContractViolation ''invalid live error code'')) (\<lambda>_.
          and_then (require (utf16_len text' \<le> MAX_ERROR_MESSAGE_CHARS)
                      (ContractViolation ''live error message exceeds bound'')) (\<lambda>_.
            Ok (JObject [(lit ''type'', JString (lit ''error'')), (lit ''code'', JString code),
              (lit ''message'', JString text')]))))"

definition serialize_server_message ::
  "json_text \<Rightarrow> 'u uuid_lib \<Rightarrow> 'u OutboundServerMessage \<Rightarrow> (str, ContractViolation) result" where
  "serialize_server_message jt ul message = map_ok (to_text jt) (server_message_json ul message)"

section \<open>Reading back what was written\<close>

declare lit_Cons [simp del]

lemma variant_written:
  assumes "x \<in> set xs" and "inj_on name (set xs)"
  shows "variant name xs (JString (lit (name x))) = Some x"
proof -
  obtain y where y: "find (\<lambda>z. lit (name z) = lit (name x)) xs = Some y"
    using assms(1) by (cases "find (\<lambda>z. lit (name z) = lit (name x)) xs") (auto simp: find_None_iff)
  then have "name y = name x" and "y \<in> set xs" using find_SomeD [OF y] by auto
  then have "y = x" using assms by (simp add: inj_on_eq_iff)
  with y show ?thesis by (simp add: variant_def)
qed

lemma names_read_back [simp]:
  "provider_of_json (JString (lit (provider_name p))) = Some p"
  "model_of_json (JString (lit (model_name m))) = Some m"
  "encoding_of_json (JString (lit (encoding_name e))) = Some e"
  "finalize_of_json (JString (lit (finalize_name f))) = Some f"
  unfolding provider_of_json_def model_of_json_def encoding_of_json_def finalize_of_json_def
  by (rule variant_written; (cases p; cases m; cases e; cases f)?; simp)+

lemma tag_written [simp]: "tag n (JString (lit n)) = Some ()"
  by (simp add: tag_def)

lemma session_id_written:
  assumes "uuid_laws ul" and "validate_session_id ul u = Ok ()"
  shows "deserialize_session_id ul (JString (uuid_text ul u)) = Some u"
  using assms by (simp add: deserialize_session_id_def uuid_laws_def validate_session_id_def)

lemma confidence_written: "valid_confidence (Some c) \<Longrightarrow> float_json c = JFloat c"
  by (simp add: float_json_def unit_interval_finite)

text \<open>What the client sees of a message.\<close>

fun client_view :: "'u OutboundServerMessage \<Rightarrow> 'u ServerMessage" where
  "client_view (OutReady u i) = SmReady u i"
| "client_view (OutAck n) = SmAck n"
| "client_view (OutPartial s) = SmPartial s"
| "client_view (OutFinal s) = SmFinal s"
| "client_view (OutSegmentFinal s) = SmSegmentFinal s"
| "client_view (OutFinalizeComplete f b) = SmFinalizeComplete f b"
| "client_view (OutError c m) = SmError c m"

lemmas read_defs =
  parse_server_message_def value_of_text_def field_def optional_field_def default_field_def
  only_fields_def MAX_TRANSCRIPT_LIMIT_def

lemma out_validate_segment_Ok:
  assumes "out_validate_segment s = Ok ()"
  shows "contract_segment (ts_text s) (ts_start_ms s) (ts_duration_ms s) (ts_confidence s) 65536 = Ok s"
  using assms by (auto simp: out_validate_segment_def contract_segment_def OUT_MAX_TRANSCRIPT_CHARS_def)

lemma segment_written:
  assumes ok: "out_validate_segment s = Ok ()"
    and law: "of_text jt (to_text jt (segment_json ty s fl)) = Some (segment_json ty s fl)"
  shows "value_of_text jt (to_text jt (segment_json ty s fl)) = Some (segment_json ty s fl)"
proof -
  have "collapse (segment_json ty s fl) = segment_json ty s fl"
    unfolding segment_json_def
    by (rule collapse_object)
      (auto simp: float_json_def split: option.splits)
  then show ?thesis using law by (simp add: value_of_text_def)
qed

lemma parse_partial_written:
  assumes "out_validate_segment s = Ok ()"
  shows "parse_partial (segment_json ''partial'' s None) 65536 = Ok (SmPartial s)"
    and "parse_partial (segment_json ''partial'' s (Some True)) 65536 = Ok (SmSegmentFinal s)"
    and "parse_final (segment_json ''final'' s None) 65536 = Ok (SmFinal s)"
proof -
  have c: "\<forall>c. ts_confidence s = Some c \<longrightarrow> float_json c = JFloat c"
    using assms confidence_written by (auto simp: out_validate_segment_def)
  note seg = out_validate_segment_Ok [OF assms]
  show "parse_partial (segment_json ''partial'' s None) 65536 = Ok (SmPartial s)"
    using c seg by (cases "ts_confidence s") (simp_all add: parse_partial_def segment_json_def read_defs)
  show "parse_partial (segment_json ''partial'' s (Some True)) 65536 = Ok (SmSegmentFinal s)"
    using c seg by (cases "ts_confidence s") (simp_all add: parse_partial_def segment_json_def read_defs)
  show "parse_final (segment_json ''final'' s None) 65536 = Ok (SmFinal s)"
    using c seg by (cases "ts_confidence s") (simp_all add: parse_final_def segment_json_def read_defs)
qed

lemma segment_type: "\<exists>fs. segment_json ty s fl = JObject fs \<and> field fs ''type'' as_str = Some (lit ty)"
  by (simp add: segment_json_def field_def)

lemma parse_server_segment:
  assumes "value_of_text jt x = Some (segment_json ty s fl)" and "ty = ''partial'' \<or> ty = ''final''"
  shows "parse_server_message jt ul x expected 65536 =
    (if ty = ''partial'' then parse_partial (segment_json ty s fl) 65536
     else parse_final (segment_json ty s fl) 65536)"
  using assms segment_type [of ty s fl]
  by (auto simp: parse_server_message_def MAX_TRANSCRIPT_LIMIT_def)

lemma message_written:
  assumes ok: "server_message_json ul m = Ok v"
    and law: "of_text jt (to_text jt v) = Some v" and ul: "uuid_laws ul"
    and ready: "\<forall>u i. m = OutReady u i \<longrightarrow> i = expected"
  shows "parse_server_message jt ul (to_text jt v) expected 65536 = Ok (client_view m)"
proof (cases m)
  case (OutReady u i)
  obtain p n where pn: "identity_wire i = (p, n)" by (cases "identity_wire i")
  have u: "validate_session_id ul u = Ok ()" and i: "i = expected"
    and v: "v = JObject [(lit ''type'', JString (lit ''ready'')),
              (lit ''session_id'', JString (uuid_text ul u)),
              (lit ''provider'', JString (lit (provider_name p))),
              (lit ''model'', JString (lit (model_name n)))]"
    using ok ready OutReady pn by (auto simp: server_message_json_def)
  have tree: "value_of_text jt (to_text jt v) = Some v"
    using law unfolding v by (simp add: value_of_text_def)
  have ready: "parse_ready ul v i = Ok (SmReady u i)"
    using session_id_written [OF ul u] pn
    unfolding v by (simp add: parse_ready_def field_def only_fields_def)
  have "Option.bind (as_object v) (\<lambda>fs. field fs ''type'' as_str) = Some (lit ''ready'')"
    by (simp add: v field_def)
  then show ?thesis
    using tree ready i OutReady by (simp add: parse_server_message_def MAX_TRANSCRIPT_LIMIT_def)
next
  case (OutAck n)
  then have n: "1 \<le> n" "n \<le> MAX_SAFE_INTEGER"
    and v: "v = JObject [(lit ''type'', JString (lit ''ack'')), (lit ''seq'', JNat n)]"
    using ok by (auto simp: server_message_json_def)
  have "parse_ack v = Ok (SmAck n)"
    using n unfolding v by (simp add: parse_ack_def field_def only_fields_def)
  moreover have "value_of_text jt (to_text jt v) = Some v"
    using law unfolding v by (simp add: value_of_text_def)
  moreover have "Option.bind (as_object v) (\<lambda>fs. field fs ''type'' as_str) = Some (lit ''ack'')"
    by (simp add: v field_def)
  ultimately show ?thesis
    using OutAck by (simp add: parse_server_message_def MAX_TRANSCRIPT_LIMIT_def)
next
  case (OutPartial s)
  then have s: "out_validate_segment s = Ok ()" and v: "v = segment_json ''partial'' s None"
    using ok by (auto simp: server_message_json_def)
  then show ?thesis
    by (simp add: parse_server_segment [OF segment_written [OF s law [unfolded v]]]
        parse_partial_written [OF s] OutPartial)
next
  case (OutFinal s)
  then have s: "out_validate_segment s = Ok ()" and v: "v = segment_json ''final'' s None"
    using ok by (auto simp: server_message_json_def)
  then show ?thesis
    by (simp add: parse_server_segment [OF segment_written [OF s law [unfolded v]]]
        parse_partial_written [OF s] OutFinal)
next
  case (OutSegmentFinal s)
  then have s: "out_validate_segment s = Ok ()" and v: "v = segment_json ''partial'' s (Some True)"
    using ok by (auto simp: server_message_json_def)
  then show ?thesis
    by (simp add: parse_server_segment [OF segment_written [OF s law [unfolded v]]]
        parse_partial_written [OF s] OutSegmentFinal)
next
  case (OutFinalizeComplete f b)
  then have f: "validate_finalize f b = Ok ()"
    and v: "v = JObject [(lit ''type'', JString (lit ''finalize_complete'')),
              (lit ''status'', JString (lit (finalize_name f))), (lit ''saw_result'', JBool b)]"
    using ok by (auto simp: server_message_json_def)
  have "parse_finalize v = Ok (SmFinalizeComplete f b)"
    using f unfolding v by (simp add: parse_finalize_def field_def only_fields_def)
  moreover have "value_of_text jt (to_text jt v) = Some v"
    using law unfolding v by (simp add: value_of_text_def)
  moreover have "Option.bind (as_object v) (\<lambda>fs. field fs ''type'' as_str) = Some (lit ''finalize_complete'')"
    by (simp add: v field_def)
  ultimately show ?thesis
    using OutFinalizeComplete by (simp add: parse_server_message_def MAX_TRANSCRIPT_LIMIT_def)
next
  case (OutError c e)
  then have c: "c \<noteq> []" "utf16_len c \<le> MAX_ERROR_CODE_CHARS" "utf16_len e \<le> MAX_ERROR_MESSAGE_CHARS"
    and v: "v = JObject [(lit ''type'', JString (lit ''error'')), (lit ''code'', JString c),
              (lit ''message'', JString e)]"
    using ok by (auto simp: server_message_json_def)
  have "parse_error v = Ok (SmError c e)"
    using c unfolding v by (simp add: parse_error_def field_def only_fields_def)
  moreover have "value_of_text jt (to_text jt v) = Some v"
    using law unfolding v by (simp add: value_of_text_def)
  moreover have "Option.bind (as_object v) (\<lambda>fs. field fs ''type'' as_str) = Some (lit ''error'')"
    by (simp add: v field_def)
  ultimately show ?thesis
    using OutError by (simp add: parse_server_message_def MAX_TRANSCRIPT_LIMIT_def)
qed

lemma live_keyterms_loop_iff:
  "live_keyterms_loop acc ks = Ok n \<longleftrightarrow>
     (\<forall>k \<in> set ks. k \<noteq> [] \<and> trim k = k \<and> utf16_len k \<le> MAX_KEYTERM_CHARS \<and> \<not> has_control k) \<and>
     n = acc + sum_list (map utf16_len ks) \<and> (ks \<noteq> [] \<longrightarrow> n < usize_limit)"
proof (induction ks arbitrary: acc)
  case (Cons k ks)
  have "trim k \<noteq> [] \<and> trim k = k \<longleftrightarrow> k \<noteq> [] \<and> trim k = k" by metis
  then show ?case by (simp add: usize_checked_add_def Cons.IH) fastforce
qed auto

lemma as_bounded_written:
  "as_bounded 256 (JNat 1) = Some 1" "as_bounded 256 (JNat 2) = Some 2"
  "as_bounded 4294967296 (JNat 48000) = Some 48000" "as_bounded 4294967296 (JNat 16000) = Some 16000"
  by (simp_all add: as_bounded_def)

lemmas encoding_written = names_read_back(3) [of EncodingOpus, unfolded encoding_name.simps]
  names_read_back(3) [of EncodingPcmS16le, unfolded encoding_name.simps]

definition wf_config :: "'u uuid_lib \<Rightarrow> 'u ClientConfig \<Rightarrow> bool" where
  "wf_config ul c \<longleftrightarrow>
     live_validate_language (cc_language c) = Ok () \<and> live_contract_keyterms (cc_keyterms c) = Ok () \<and>
     validate_session_id ul (cc_client_session_id c) = Ok ()"

lemma config_wire_written:
  assumes "uuid_laws ul" and "validate_session_id ul (cc_client_session_id c) = Ok ()"
  shows "config_wire_of_json ul (config_wire_to_json ul (client_config_wire c)) = Some (client_config_wire c)"
proof (cases "cc_audio_format c")
  case Opus48Khz
  then show ?thesis
    using session_id_written [OF assms]
    by (auto simp: config_wire_of_json_def config_wire_to_json_def client_config_wire_def
        config_fields_def read_defs as_bounded_written encoding_written capabilities_of_json_def)
next
  case PcmS16le16Khz
  then show ?thesis
    using session_id_written [OF assms]
    by (auto simp: config_wire_of_json_def config_wire_to_json_def client_config_wire_def
        config_fields_def read_defs as_bounded_written encoding_written capabilities_of_json_def)
qed

lemma config_written:
  assumes "uuid_laws ul" and "wf_config ul c"
    and "of_text jt (to_text jt (config_wire_to_json ul (client_config_wire c)))
      = Some (config_wire_to_json ul (client_config_wire c))"
  shows "parse_client_config jt ul (to_text jt (config_wire_to_json ul (client_config_wire c))) = Ok c"
proof -
  have "config_wire_of_json ul (config_wire_to_json ul (client_config_wire c)) = Some (client_config_wire c)"
    using assms(1,2) by (intro config_wire_written) (simp_all add: wf_config_def)
  then show ?thesis
    using assms(2,3)
    by (cases "cc_identity c"; cases "cc_audio_format c")
      (simp_all add: parse_client_config_def client_config_wire_def identity_wire_def wf_config_def)
qed

lemma parse_client_config_wf:
  assumes "parse_client_config jt ul s = Ok c"
  shows "wf_config ul c"
proof -
  obtain v w where w: "config_wire_of_json ul v = Some w"
    and c: "cc_client_session_id c = cw_client_session_id w"
      "live_validate_language (cc_language c) = Ok ()" "live_contract_keyterms (cc_keyterms c) = Ok ()"
    using assms by (auto simp: parse_client_config_def bind_eq_Some_conv)
  have "\<exists>x. deserialize_session_id ul x = Some (cw_client_session_id w)"
    using w by (auto simp: config_wire_of_json_def bind_eq_Some_conv field_def)
  then have "validate_session_id ul (cw_client_session_id w) = Ok ()"
    by (auto simp: deserialize_session_id_def validate_session_id_def bind_eq_Some_conv split: if_splits)
  then show ?thesis using c by (simp add: wf_config_def)
qed

section \<open>Properties\<close>



section \<open>Witnesses\<close>

definition sample_uuid_text :: str where
  "sample_uuid_text =
     replicate 8 48 @ [45] @ replicate 4 48 @ [45] @ replicate 4 48 @ [45] @ replicate 4 48 @ [45] @
     replicate 12 48"

definition sample_uuid_lib :: "unit uuid_lib" where
  "sample_uuid_lib =
     \<lparr>uuid_text = (\<lambda>_. sample_uuid_text),
      uuid_parse = (\<lambda>s. if s = sample_uuid_text then Some () else None),
      uuid_rfc4122 = (\<lambda>_. True), uuid_version = (\<lambda>_. 4)\<rparr>"

lemma sample_uuid_laws: "uuid_laws sample_uuid_lib"
proof -
  have hex: "ascii_hexdigit 48" by (simp add: ascii_hexdigit_def ascii_digit_def)
  have "str_bytes sample_uuid_text =
      replicate 8 48 @ [45] @ replicate 4 48 @ [45] @ replicate 4 48 @ [45] @ replicate 4 48 @ [45] @
      replicate 12 48"
    by (simp add: sample_uuid_text_def utf8_char_def byte_def numeral_eq_Suc)
  then have "canonical_uuid_text sample_uuid_text"
    using hex by (simp add: canonical_uuid_text_def numeral_eq_Suc)
  then show ?thesis by (simp add: uuid_laws_def sample_uuid_lib_def)
qed

text \<open>A text level that carries one value.\<close>

definition one_value :: "json \<Rightarrow> json_text" where
  "one_value v = \<lparr>to_text = (\<lambda>_. [91]), of_text = (\<lambda>s. if s = [91] then Some v else None)\<rparr>"


definition sample_config :: "unit ClientConfig" where
  "sample_config =
     \<lparr>cc_identity = DeepgramNova3, cc_language = [101, 110], cc_client_session_id = (),
      cc_audio_format = Opus48Khz, cc_keyterms = [[97]]\<rparr>"


end
