(* ===== verification/Float64.thy ===== *)
theory Float64
  imports Rust_Float "HOL-Library.Log_Nat"
begin

text \<open>
  Rounding to binary64. The contracts convert milliseconds to seconds with
  \<open>milliseconds as f64 / 1_000.0\<close>; both operations round to the nearest float, ties to even, and
  the values are far from the overflow and underflow ranges, so rounding is a function on
  non-negative rationals: scale to an integer of 53 bits, round, scale back.
\<close>

section \<open>Definitions\<close>

text \<open>The binary exponent of a positive rational.\<close>

definition exponent :: "rat \<Rightarrow> int" where
  "exponent q =
     (let (n, d) = quotient_of q;
          k = int (floorlog 2 (nat n)) - int (floorlog 2 (nat d))
      in if 2 powi k \<le> q then k else k - 1)"

definition round_half_even :: "rat \<Rightarrow> int" where
  "round_half_even r =
     (let f = \<lfloor>r\<rfloor>; rest = r - of_int f in
      if rest < 1 / 2 then f else if rest > 1 / 2 then f + 1 else if even f then f else f + 1)"

definition f64_round :: "rat \<Rightarrow> rat" where
  "f64_round q =
     (if q \<le> 0 then 0
      else of_int (round_half_even (q / 2 powi (exponent q - 52))) * 2 powi (exponent q - 52))"

definition f64_of_u64 :: "u64 \<Rightarrow> rat" where
  "f64_of_u64 w = f64_round (of_nat (unat w))"

text \<open>\<open>milliseconds as f64 / 1_000.0\<close>.\<close>

definition f64_seconds :: "u64 \<Rightarrow> rat" where
  "f64_seconds milliseconds = f64_round (f64_of_u64 milliseconds / 1000)"

section \<open>Facts\<close>

lemma exponent_bounds:
  assumes "0 < q"
  shows "2 powi exponent q \<le> q" and "q < 2 powi (exponent q + 1)"
proof -
  obtain n d where nd: "quotient_of q = (n, d)" by (cases "quotient_of q")
  have d: "0 < d" and q: "q = of_int n / of_int d"
    using quotient_of_denom_pos [OF nd] quotient_of_div [OF nd] by auto
  have n: "0 < n" using assms d q by (simp add: zero_less_divide_iff)
  let ?fn = "floorlog 2 (nat n)" and ?fd = "floorlog 2 (nat d)"
  have N: "(2::rat) ^ (?fn - 1) \<le> of_int n" "of_int n < (2::rat) ^ ?fn" "0 < ?fn"
    and D: "(2::rat) ^ (?fd - 1) \<le> of_int d" "of_int d < (2::rat) ^ ?fd" "0 < ?fd"
  proof -
    have cast: "(2::rat) ^ (floorlog 2 (nat m) - 1) \<le> of_int m \<and> of_int m < (2::rat) ^ floorlog 2 (nat m)
        \<and> 0 < floorlog 2 (nat m)" if "0 < m" for m :: int
    proof -
      have b: "2 ^ (floorlog 2 (nat m) - 1) \<le> nat m \<and> nat m < 2 ^ floorlog 2 (nat m)"
        using floorlog_bounds [of "nat m" 2] that by simp
      then have "of_nat (2 ^ (floorlog 2 (nat m) - 1)) \<le> (of_nat (nat m) :: rat)"
        and "(of_nat (nat m) :: rat) < of_nat (2 ^ floorlog 2 (nat m))"
        by (simp_all only: of_nat_le_iff of_nat_less_iff)
      moreover have "(of_nat (nat m) :: rat) = of_int m" using that by simp
      moreover have "0 < floorlog 2 (nat m)" using that by (simp add: floorlog_def)
      ultimately show ?thesis by simp
    qed
    show "(2::rat) ^ (?fn - 1) \<le> of_int n" "of_int n < (2::rat) ^ ?fn" "0 < ?fn" using cast [OF n] by auto
    show "(2::rat) ^ (?fd - 1) \<le> of_int d" "of_int d < (2::rat) ^ ?fd" "0 < ?fd" using cast [OF d] by auto
  qed
  let ?k = "int ?fn - int ?fd"
  have p: "(2::rat) ^ (m - 1) = 2 powi (int m - 1)" if "0 < m" for m
    using that by (cases m) (simp_all add: power_int_add)
  have pn: "(2::rat) ^ m = 2 powi int m" for m by simp
  have up: "q < 2 powi (?k + 1)"
  proof -
    have "2 powi (int ?fd - 1) \<le> (of_int d :: rat)" using D(1) unfolding p [OF D(3)] .
    then have "q * 2 powi (int ?fd - 1) \<le> q * of_int d" using assms by (intro mult_left_mono) simp_all
    also have "\<dots> = of_int n" using q d by simp
    also have "\<dots> < 2 powi int ?fn" using N(2) by simp
    finally have "q * 2 powi (int ?fd - 1) < 2 powi (?k + 1) * 2 powi (int ?fd - 1)"
      by (simp add: power_int_add [symmetric] del: power_int_of_nat)
    then show ?thesis by (simp add: mult_less_cancel_right)
  qed
  have lo: "2 powi (?k - 1) < q"
  proof -
    have "(2::rat) powi (?k - 1) * of_int d < 2 powi (?k - 1) * 2 powi int ?fd"
      using D(2) unfolding pn by (intro mult_strict_left_mono) simp_all
    also have "\<dots> = 2 powi (int ?fn - 1)" by (simp add: power_int_add [symmetric] del: power_int_of_nat)
    also have "\<dots> \<le> of_int n" using N(1) unfolding p [OF N(3)] .
    also have "\<dots> = q * of_int d" using q d by simp
    finally show ?thesis using d by (simp add: mult_less_cancel_right)
  qed
  have e: "exponent q = (if 2 powi ?k \<le> q then ?k else ?k - 1)"
    by (simp add: exponent_def nd Let_def)
  show "2 powi exponent q \<le> q" using lo by (simp add: e)
  show "q < 2 powi (exponent q + 1)" using up by (auto simp: e)
qed

lemma round_half_even_near: "\<bar>of_int (round_half_even r) - r\<bar> \<le> 1 / 2"
proof -
  have "of_int \<lfloor>r\<rfloor> \<le> r" "r < of_int \<lfloor>r\<rfloor> + 1" by linarith+
  then show ?thesis by (auto simp: round_half_even_def Let_def abs_le_iff)
qed

lemma round_half_even_of_int [simp]: "round_half_even (of_int n) = n"
  by (simp add: round_half_even_def)

lemma round_half_even_mono: "r \<le> s \<Longrightarrow> round_half_even r \<le> round_half_even s"
proof -
  assume rs: "r \<le> s"
  show ?thesis
  proof (cases "\<lfloor>r\<rfloor> = \<lfloor>s\<rfloor>")
    case True
    then show ?thesis using rs by (auto simp: round_half_even_def Let_def)
  next
    case False
    then have "\<lfloor>r\<rfloor> + 1 \<le> \<lfloor>s\<rfloor>" using floor_mono [OF rs] by linarith
    moreover have "round_half_even r \<le> \<lfloor>r\<rfloor> + 1" "\<lfloor>s\<rfloor> \<le> round_half_even s"
      by (auto simp: round_half_even_def Let_def)
    ultimately show ?thesis by linarith
  qed
qed

lemma exponent_mono:
  assumes "0 < a" and "a \<le> b"
  shows "exponent a \<le> exponent b"
proof (rule ccontr)
  assume "\<not> ?thesis"
  then have "exponent b + 1 \<le> exponent a" by simp
  then have "(2::rat) powi (exponent b + 1) \<le> 2 powi exponent a" by (intro power_int_increasing) simp_all
  then show False using exponent_bounds [of a] exponent_bounds [of b] assms by linarith
qed

lemma f64_round_binade:
  assumes "0 < q"
  shows "2 powi exponent q \<le> f64_round q" and "f64_round q \<le> 2 powi (exponent q + 1)"
proof -
  let ?e = "exponent q" and ?u = "2 powi (exponent q - 52) :: rat"
  have u: "0 < ?u" by simp
  have up: "(2::rat) powi ?e = of_int (2 ^ 52) * ?u" "(2::rat) powi (?e + 1) = of_int (2 ^ 53) * ?u"
  proof -
    have "of_int (2 ^ n) * ?u = 2 powi (int n + (?e - 52))" for n
      by (simp add: power_int_add)
    from this [of 52] this [of 53] show "(2::rat) powi ?e = of_int (2 ^ 52) * ?u"
      "(2::rat) powi (?e + 1) = of_int (2 ^ 53) * ?u" by (simp_all add: algebra_simps)
  qed
  have "of_int (2 ^ 52) \<le> q / ?u" "q / ?u \<le> of_int (2 ^ 53)"
    using exponent_bounds [OF assms] up u by (simp_all only: pos_le_divide_eq pos_divide_le_eq)
  then have "2 ^ 52 \<le> round_half_even (q / ?u)" "round_half_even (q / ?u) \<le> 2 ^ 53"
    using round_half_even_mono [of "of_int (2 ^ 52)" "q / ?u"]
      round_half_even_mono [of "q / ?u" "of_int (2 ^ 53)"]
    by (simp_all only: round_half_even_of_int)
  then have "of_int (2 ^ 52) * ?u \<le> of_int (round_half_even (q / ?u)) * ?u"
    "of_int (round_half_even (q / ?u)) * ?u \<le> of_int (2 ^ 53) * ?u"
    using u by (simp_all only: mult_le_cancel_right_pos of_int_le_iff)
  then show "2 powi ?e \<le> f64_round q" "f64_round q \<le> 2 powi (?e + 1)"
    using assms up by (simp_all add: f64_round_def)
qed

lemma f64_round_nonneg: "0 \<le> f64_round q"
  by (cases "0 < q") (use f64_round_binade(1) [of q] in \<open>auto simp: f64_round_def intro: order_trans [rotated]\<close>)

lemma f64_round_mono: "a \<le> b \<Longrightarrow> f64_round a \<le> f64_round b"
proof -
  assume ab: "a \<le> b"
  show ?thesis
  proof (cases "0 < a")
    case True
    then have b: "0 < b" using ab by simp
    show ?thesis
    proof (cases "exponent a = exponent b")
      case eq: True
      have "a / 2 powi (exponent b - 52) \<le> b / 2 powi (exponent b - 52)"
        using ab by (simp add: divide_right_mono)
      then show ?thesis
        using True b eq round_half_even_mono by (simp add: f64_round_def mult_right_mono)
    next
      case False
      then have "exponent a + 1 \<le> exponent b" using exponent_mono [OF True ab] by simp
      then have "(2::rat) powi (exponent a + 1) \<le> 2 powi exponent b"
        by (intro power_int_increasing) simp_all
      then show ?thesis using f64_round_binade [OF True] f64_round_binade [OF b] by linarith
    qed
  next
    case False
    then show ?thesis using f64_round_nonneg [of b] by (simp add: f64_round_def)
  qed
qed

lemma f64_round_error:
  assumes "0 < q" and "exponent q \<le> e"
  shows "\<bar>f64_round q - q\<bar> \<le> 2 powi (e - 53)"
proof -
  let ?u = "2 powi (exponent q - 52) :: rat"
  have u: "0 < ?u" by simp
  have "f64_round q - q = (of_int (round_half_even (q / ?u)) - q / ?u) * ?u"
    using assms(1) u by (simp add: f64_round_def left_diff_distrib)
  then have "\<bar>f64_round q - q\<bar> = \<bar>of_int (round_half_even (q / ?u)) - q / ?u\<bar> * ?u"
    using u by (simp add: abs_mult)
  also have "\<dots> \<le> 1 / 2 * ?u" using round_half_even_near u by (intro mult_right_mono) auto
  also have "\<dots> = 2 powi (exponent q - 53)"
    using power_int_add [of "2::rat" "exponent q - 53" 1] by simp
  also have "\<dots> \<le> 2 powi (e - 53)" using assms(2) by (intro power_int_increasing) simp_all
  finally show ?thesis .
qed

section \<open>Seconds\<close>

lemma f64_round_nat:
  assumes "n < 2 ^ 53"
  shows "f64_round (of_nat n) = of_nat n"
proof (cases "n = 0")
  case False
  let ?q = "of_nat n :: rat"
  have q: "0 < ?q" using False by simp
  have "(2::rat) powi exponent ?q < 2 powi 53"
  proof -
    have "?q < of_nat (2 ^ 53)" using assms by (simp only: of_nat_less_iff)
    then show ?thesis using exponent_bounds(1) [OF q] by simp
  qed
  then have "exponent ?q \<le> 52"
    using power_int_increasing [of 53 "exponent ?q" "2::rat"] by fastforce
  then obtain k where k: "exponent ?q - 52 = - int k" using nonpos_int_cases [of "exponent ?q - 52"] by force
  have "?q / 2 powi (- int k) = of_int (int (n * 2 ^ k))"
    by (simp add: power_int_minus divide_inverse)
  then have "round_half_even (?q / 2 powi (- int k)) = int (n * 2 ^ k)"
    by (simp only: round_half_even_of_int)
  then show ?thesis using q by (simp add: f64_round_def k power_int_minus)
qed (simp add: f64_round_def)

lemma f64_seconds_eq:
  "unat w < 2 ^ 53 \<Longrightarrow> f64_seconds w = f64_round (of_nat (unat w) / 1000)"
  by (simp add: f64_seconds_def f64_of_u64_def f64_round_nat del: of_nat_unat)

lemma f64_seconds_nonneg [simp]: "0 \<le> f64_seconds w"
  by (simp add: f64_seconds_def f64_round_nonneg)

lemma f64_seconds_mono: "a \<le> b \<Longrightarrow> f64_seconds a \<le> f64_seconds b"
  unfolding f64_seconds_def f64_of_u64_def
  by (intro f64_round_mono divide_right_mono) (simp_all add: word_le_nat_alt del: of_nat_unat)

text \<open>Up to \<open>2 ^ 42\<close> milliseconds, more than a century, different times stay different.\<close>

lemma f64_seconds_strict:
  assumes "a < b" and "unat b \<le> 2 ^ 42"
  shows "f64_seconds a < f64_seconds b"
proof -
  let ?a = "of_nat (unat a) / 1000 :: rat" and ?b = "of_nat (unat b) / 1000 :: rat"
  have ab: "unat a < unat b" using assms(1) by (simp add: word_less_nat_alt)
  have eq: "f64_seconds a = f64_round ?a" "f64_seconds b = f64_round ?b"
    using ab assms(2) by (simp_all add: f64_seconds_eq)
  have "of_nat (unat a) + 1 \<le> (of_nat (unat b) :: rat)"
    using ab by (metis Suc_leI of_nat_Suc of_nat_le_iff add.commute)
  then have gap: "?a + 1 / 1000 \<le> ?b" by simp
  have b: "0 < ?b" using ab by (simp del: of_nat_unat)
  have "(of_nat (unat b) :: rat) \<le> of_nat (2 ^ 42)" using assms(2) by (simp only: of_nat_le_iff)
  then have "?b < 2 powi 33" by simp
  then have "(2::rat) powi exponent ?b < 2 powi 33" using exponent_bounds(1) [OF b] by linarith
  then have e: "exponent ?b \<le> 32"
    using power_int_increasing [of 33 "exponent ?b" "2::rat"] by fastforce
  have small: "(2::rat) powi (32 - 53) < 1 / 2000" by (simp add: power_int_def power_divide)
  have eb: "?b - 1 / 2000 < f64_round ?b"
    using f64_round_error [OF b e] small by linarith
  have ea: "f64_round ?a < ?a + 1 / 2000"
  proof (cases "0 < ?a")
    case True
    then have "exponent ?a \<le> 32" using exponent_mono [OF True, of ?b] gap e by linarith
    from f64_round_error [OF True this] small show ?thesis by linarith
  next
    case False
    then have "?a = 0" by (simp del: of_nat_unat)
    then show ?thesis by (simp add: f64_round_def)
  qed
  show ?thesis unfolding eq using ea eb gap by linarith
qed

end
