(* ===== verification/Contracts_Batch.thy ===== *)
theory Contracts_Batch
  imports Contracts_Live Float64 Records
begin

text \<open>
  The JSON responses of the batch API: \<^verbatim>\<open>crates/voicetext-gateway/src/contracts/batch_outbound.rs\<close>
  (what the gateway writes), \<^verbatim>\<open>contracts/batch.rs\<close> (what the client reads) and
  \<^verbatim>\<open>contracts/batch_projection.rs\<close> (from a stored result to a response).
\<close>

section \<open>Data\<close>

definition CB_MAX_ERROR_CODE_CHARS :: usize where "CB_MAX_ERROR_CODE_CHARS = 128"
definition CB_MAX_PROVIDER_REQUEST_ID_CHARS :: usize where "CB_MAX_PROVIDER_REQUEST_ID_CHARS = 256"
definition CB_MAX_READABLE_REFERENCES :: usize where "CB_MAX_READABLE_REFERENCES = 100000"
definition CB_MAX_SEGMENTS :: usize where "CB_MAX_SEGMENTS = 10000"
definition CB_MAX_TRANSCRIPT_CHARS :: usize where "CB_MAX_TRANSCRIPT_CHARS = 1000000"
definition CB_MAX_RETRY_AFTER_MS :: u64 where "CB_MAX_RETRY_AFTER_MS = 3600000"
definition CB_MAX_SAFE_INTEGER :: u64 where "CB_MAX_SAFE_INTEGER = 9007199254740991"
definition CB_MAX_BODY_BYTES :: usize where "CB_MAX_BODY_BYTES = 2 * 1024 * 1024"

datatype BatchIdentity = DeepgramNova3MultiV2 | ElevenlabsScribeV2MultiV3

fun contract_version :: "BatchIdentity \<Rightarrow> u8" where
  "contract_version DeepgramNova3MultiV2 = 2"
| "contract_version ElevenlabsScribeV2MultiV3 = 3"

fun identity_provider :: "BatchIdentity \<Rightarrow> string" where
  "identity_provider DeepgramNova3MultiV2 = ''deepgram''"
| "identity_provider ElevenlabsScribeV2MultiV3 = ''elevenlabs''"

fun identity_model :: "BatchIdentity \<Rightarrow> string" where
  "identity_model DeepgramNova3MultiV2 = ''nova-3''"
| "identity_model ElevenlabsScribeV2MultiV3 = ''scribe_v2''"

definition identity_language :: "BatchIdentity \<Rightarrow> string" where
  "identity_language i = ''multi''"

datatype BatchResponseStatus = StatusAccepted | StatusOk

datatype NextAction = Poll | Retry

fun next_action_name :: "NextAction \<Rightarrow> string" where
  "next_action_name Poll = ''poll''"
| "next_action_name Retry = ''retry''"

record Utterance =
  ut_start :: float
  ut_end :: float
  ut_transcript :: str
  ut_confidence :: "float option"

record ReadableSegment =
  rs_start :: float
  rs_end :: float
  rs_transcript :: str
  rs_source_utterance_indices :: "usize list"

record BatchTranscription =
  bt_duration_seconds :: float
  bt_utterances :: "Utterance list"
  bt_readable_segments :: "ReadableSegment list"
  bt_provider_request_id :: "str option"

datatype 'u BatchTaskResult =
    TaskPending 'u NextAction u64
  | TaskFailed 'u str
  | TaskCompleted 'u BatchTranscription

record OutboundSegment =
  os_start_millis :: u64
  os_end_millis :: u64
  os_text :: str
  os_confidence :: "float option"

record OutboundReadableSegment =
  ors_start_millis :: u64
  ors_end_millis :: u64
  ors_text :: str
  ors_source_segment_indices :: "usize list"

record OutboundTranscription =
  ot_text :: str
  ot_duration_millis :: u64
  ot_segments :: "OutboundSegment list"
  ot_readable_segments :: "OutboundReadableSegment list"
  ot_provider_request_id :: "str option"

datatype 'u OutboundBatchResponse =
    RespPending 'u NextAction u64
  | RespFailed 'u str
  | RespCompleted 'u OutboundTranscription

record SerializedBatchResponse =
  sbr_status :: BatchResponseStatus
  sbr_body :: str

section \<open>Checks of the writer\<close>

definition out_validate_error_code :: "str \<Rightarrow> (unit, ContractViolation) result" where
  "out_validate_error_code value =
     require (value \<noteq> [] \<and> utf16_len value \<le> CB_MAX_ERROR_CODE_CHARS
              \<and> list_all (\<lambda>b. ascii_uppercase b \<or> ascii_digit b \<or> b = 0x5F) (str_bytes value))
       (ContractViolation ''invalid error code'')"

definition validate_provider_request :: "str option \<Rightarrow> (unit, ContractViolation) result" where
  "validate_provider_request value =
     require (case value of
                None \<Rightarrow> True
              | Some i \<Rightarrow> i \<noteq> [] \<and> utf16_len i \<le> CB_MAX_PROVIDER_REQUEST_ID_CHARS
                  \<and> list_all printable_ascii (str_bytes i))
       (ContractViolation ''invalid provider request id'')"

fun out_segments :: "u64 \<Rightarrow> u64 \<Rightarrow> OutboundSegment list \<Rightarrow> (unit, ContractViolation) result" where
  "out_segments duration previous_end [] = Ok ()"
| "out_segments duration previous_end (segment # rest) =
     and_then (require (os_start_millis segment \<ge> previous_end
                        \<and> os_end_millis segment > os_start_millis segment
                        \<and> os_end_millis segment \<le> duration)
                 (ContractViolation ''invalid segment timeline'')) (\<lambda>_.
     and_then (require (trim (os_text segment) \<noteq> [] \<and> utf16_len (os_text segment) \<le> CB_MAX_TRANSCRIPT_CHARS)
                 (ContractViolation ''invalid segment text'')) (\<lambda>_.
     and_then (require (valid_confidence (os_confidence segment)) (ContractViolation ''invalid confidence'')) (\<lambda>_.
       out_segments duration (os_end_millis segment) rest)))"

text \<open>The loop over the sources of a readable segment; the result is the last index seen.\<close>

fun source_loop :: "usize \<Rightarrow> string \<Rightarrow> usize option \<Rightarrow> usize list \<Rightarrow> (usize option, ContractViolation) result" where
  "source_loop count message previous [] = Ok previous"
| "source_loop count message previous (index # rest) =
     and_then (require (index < count \<and> (case previous of None \<Rightarrow> True | Some p \<Rightarrow> index > p))
                 (ContractViolation message)) (\<lambda>_.
       source_loop count message (Some index) rest)"

fun out_readable_loop ::
  "u64 \<Rightarrow> usize \<Rightarrow> usize \<Rightarrow> usize \<Rightarrow> OutboundReadableSegment list
   \<Rightarrow> (usize \<times> usize, ContractViolation) result" where
  "out_readable_loop duration count references characters [] = Ok (references, characters)"
| "out_readable_loop duration count references characters (segment # rest) =
     and_then (require (ors_end_millis segment > ors_start_millis segment \<and> ors_end_millis segment \<le> duration)
                 (ContractViolation ''invalid readable segment timeline'')) (\<lambda>_.
     and_then (require (trim (ors_text segment) \<noteq> []) (ContractViolation ''invalid readable segment text'')) (\<lambda>_.
     and_then (source_loop count ''invalid readable source index'' None (ors_source_segment_indices segment))
       (\<lambda>previous.
     and_then (require (previous \<noteq> None) (ContractViolation ''readable segment has no source'')) (\<lambda>_.
     and_then (ok_or (usize_checked_add references (length (ors_source_segment_indices segment)))
                 (ContractViolation ''too many readable references'')) (\<lambda>references'.
     and_then (ok_or (usize_checked_add characters (utf16_len (ors_text segment)))
                 (ContractViolation ''too much readable text'')) (\<lambda>characters'.
       out_readable_loop duration count references' characters' rest))))))"

definition out_validate_readable :: "OutboundTranscription \<Rightarrow> (unit, ContractViolation) result" where
  "out_validate_readable result =
     and_then (require (length (ot_readable_segments result) \<le> CB_MAX_SEGMENTS)
                 (ContractViolation ''too many readable segments'')) (\<lambda>_.
     and_then (out_readable_loop (ot_duration_millis result) (length (ot_segments result)) 0 0
                 (ot_readable_segments result)) (\<lambda>(references, characters).
       require (references \<le> CB_MAX_READABLE_REFERENCES \<and> characters \<le> CB_MAX_TRANSCRIPT_CHARS)
         (ContractViolation ''readable projection exceeds bounds'')))"

definition out_validate_result ::
  "BatchIdentity \<Rightarrow> OutboundTranscription \<Rightarrow> (unit, ContractViolation) result" where
  "out_validate_result identity result =
     and_then (require (ot_duration_millis result \<le> CB_MAX_SAFE_INTEGER)
                 (ContractViolation ''duration exceeds safe integer'')) (\<lambda>_.
     and_then (require (utf16_len (ot_text result) \<le> CB_MAX_TRANSCRIPT_CHARS)
                 (ContractViolation ''batch text exceeds bound'')) (\<lambda>_.
     and_then (require (length (ot_segments result) \<le> CB_MAX_SEGMENTS)
                 (ContractViolation ''too many segments'')) (\<lambda>_.
     and_then
       (if identity = ElevenlabsScribeV2MultiV3
        then and_then (require ((ot_text result = []) = (ot_segments result = []))
                         (ContractViolation ''text and segments disagree'')) (\<lambda>_.
             and_then (require (ot_text result = [] \<or> trim (ot_text result) \<noteq> [])
                         (ContractViolation ''batch text cannot contain only whitespace'')) (\<lambda>_.
               require (ot_readable_segments result = [])
                 (ContractViolation ''v3 cannot represent readable segments'')))
        else require (ot_provider_request_id result = None)
               (ContractViolation ''v2 cannot represent provider request id'')) (\<lambda>_.
     and_then (out_segments (ot_duration_millis result) 0 (ot_segments result)) (\<lambda>_.
     and_then (validate_provider_request (ot_provider_request_id result)) (\<lambda>_.
       out_validate_readable result))))))"

section \<open>The values that are written\<close>

definition seconds :: "u64 \<Rightarrow> float" where
  "seconds milliseconds = Finite (f64_seconds milliseconds)"

definition utterance_json :: "OutboundSegment \<Rightarrow> json" where
  "utterance_json s =
     JObject ([(lit ''start'', float_json (seconds (os_start_millis s))),
       (lit ''end'', float_json (seconds (os_end_millis s))), (lit ''transcript'', JString (os_text s))] @
       (case os_confidence s of None \<Rightarrow> [] | Some c \<Rightarrow> [(lit ''confidence'', float_json c)]))"

definition readable_json :: "OutboundReadableSegment \<Rightarrow> json" where
  "readable_json s =
     JObject [(lit ''start'', float_json (seconds (ors_start_millis s))),
       (lit ''end'', float_json (seconds (ors_end_millis s))), (lit ''transcript'', JString (ors_text s)),
       (lit ''source_utterance_indices'',
        JArray (map (\<lambda>i. JNat (of_nat i)) (ors_source_segment_indices s)))]"

definition serialize_completed_v2 :: "'u uuid_lib \<Rightarrow> 'u \<Rightarrow> OutboundTranscription \<Rightarrow> json" where
  "serialize_completed_v2 ul job_id result =
     JObject [(lit ''success'', JBool True), (lit ''status'', JString (lit ''completed'')),
       (lit ''job_id'', JString (uuid_text ul job_id)),
       (lit ''result'', JObject
         [(lit ''provider'', JString (lit (identity_provider DeepgramNova3MultiV2))),
          (lit ''model'', JString (lit (identity_model DeepgramNova3MultiV2))),
          (lit ''language'', JString (lit (identity_language DeepgramNova3MultiV2))),
          (lit ''text'', JString (ot_text result)),
          (lit ''duration_seconds'', float_json (seconds (ot_duration_millis result))),
          (lit ''utterances'', JArray (map utterance_json (ot_segments result))),
          (lit ''readable_segments'', JArray (map readable_json (ot_readable_segments result)))])]"

definition segment_v3_json :: "nat \<times> OutboundSegment \<Rightarrow> json" where
  "segment_v3_json p =
     (case p of (index, s) \<Rightarrow>
        JObject [(lit ''index'', JNat (of_nat index)), (lit ''start_ms'', JNat (os_start_millis s)),
          (lit ''end_ms'', JNat (os_end_millis s)), (lit ''text'', JString (os_text s)),
          (lit ''confidence'', (case os_confidence s of None \<Rightarrow> JNull | Some c \<Rightarrow> float_json c))])"

definition envelope_v3 :: "BatchIdentity \<Rightarrow> (str \<times> json) list \<Rightarrow> json" where
  "envelope_v3 identity state =
     JObject ([(lit ''contract_version'', JNat 3),
       (lit ''provider'', JString (lit (identity_provider identity))),
       (lit ''model'', JString (lit (identity_model identity))),
       (lit ''language'', JString (lit (identity_language identity)))] @ state)"

definition serialize_completed_v3 :: "'u uuid_lib \<Rightarrow> BatchIdentity \<Rightarrow> 'u \<Rightarrow> OutboundTranscription \<Rightarrow> json" where
  "serialize_completed_v3 ul identity job_id result =
     envelope_v3 identity
       [(lit ''success'', JBool True), (lit ''status'', JString (lit ''completed'')),
        (lit ''job_id'', JString (uuid_text ul job_id)),
        (lit ''result'', JObject
          ([(lit ''result_id'', JString (uuid_text ul job_id)),
           (lit ''provider'', JString (lit (identity_provider identity))),
           (lit ''model'', JString (lit (identity_model identity))),
           (lit ''language'', JString (lit (identity_language identity))),
           (lit ''text'', JString (ot_text result)),
           (lit ''duration_ms'', JNat (ot_duration_millis result)),
           (lit ''segments'', JArray (map segment_v3_json (enumerate 0 (ot_segments result))))] @
           (case ot_provider_request_id result of
              None \<Rightarrow> []
            | Some i \<Rightarrow> [(lit ''provider_request'', JObject [(lit ''id'', JString i)])])))]"

definition batch_response_json ::
  "'u uuid_lib \<Rightarrow> BatchIdentity \<Rightarrow> 'u OutboundBatchResponse
   \<Rightarrow> (BatchResponseStatus \<times> json, ContractViolation) result" where
  "batch_response_json ul identity response =
     (case response of
        RespPending job_id next_action retry_after_ms \<Rightarrow>
          and_then (require (retry_after_ms \<le> CB_MAX_RETRY_AFTER_MS)
                      (ContractViolation ''retry delay exceeds limit'')) (\<lambda>_.
            let state = [(lit ''success'', JBool True), (lit ''status'', JString (lit ''running'')),
                  (lit ''job_id'', JString (uuid_text ul job_id)),
                  (lit ''next_action'', JString (lit (next_action_name next_action))),
                  (lit ''retry_after_ms'', JNat retry_after_ms)]
            in Ok (StatusAccepted,
                 if identity = DeepgramNova3MultiV2 then JObject state else envelope_v3 identity state))
      | RespFailed job_id error_code \<Rightarrow>
          and_then (out_validate_error_code error_code) (\<lambda>_.
            let state = [(lit ''success'', JBool False), (lit ''status'', JString (lit ''failed'')),
                  (lit ''job_id'', JString (uuid_text ul job_id)), (lit ''retryable'', JBool False),
                  (lit ''error_code'', JString error_code)]
            in Ok (StatusOk,
                 if identity = DeepgramNova3MultiV2 then JObject state else envelope_v3 identity state))
      | RespCompleted job_id result \<Rightarrow>
          and_then (out_validate_result identity result) (\<lambda>_.
            Ok (StatusOk,
                if identity = DeepgramNova3MultiV2 then serialize_completed_v2 ul job_id result
                else serialize_completed_v3 ul identity job_id result)))"

definition serialize_response ::
  "json_text \<Rightarrow> 'u uuid_lib \<Rightarrow> BatchIdentity \<Rightarrow> 'u OutboundBatchResponse
   \<Rightarrow> (SerializedBatchResponse, ContractViolation) result" where
  "serialize_response jt ul identity response =
     and_then (batch_response_json ul identity response) (\<lambda>(status, v).
     and_then (require (str_len (to_text jt v) \<le> CB_MAX_BODY_BYTES)
                 (ContractViolation ''batch response exceeds byte limit'')) (\<lambda>_.
       Ok \<lparr>sbr_status = status, sbr_body = to_text jt v\<rparr>))"

section \<open>From a stored result to a response\<close>

definition identity_for_profile :: "BatchProfile \<Rightarrow> BatchIdentity option" where
  "identity_for_profile p =
     (if bp_contract_version p = 2 \<and> bp_provider p = lit ''deepgram'' \<and> bp_model p = lit ''nova-3''
         \<and> bp_language p = lit ''multi''
      then Some DeepgramNova3MultiV2
      else if bp_contract_version p = 3 \<and> bp_provider p = lit ''elevenlabs''
         \<and> bp_model p = lit ''scribe_v2'' \<and> bp_language p = lit ''multi''
      then Some ElevenlabsScribeV2MultiV3
      else None)"

definition identity_for_result :: "BatchRecognitionResult \<Rightarrow> BatchIdentity option" where
  "identity_for_result result = identity_for_profile (brr_profile result)"

definition completed_response :: "BatchIdentity \<Rightarrow> 'u \<Rightarrow> BatchRecognitionResult \<Rightarrow> 'u OutboundBatchResponse" where
  "completed_response identity job_id result =
     RespCompleted job_id
       \<lparr>ot_text = brr_text result, ot_duration_millis = brr_duration_millis result,
        ot_segments = map (\<lambda>s. \<lparr>os_start_millis = bs_start_millis s, os_end_millis = bs_end_millis s,
            os_text = bs_text s, os_confidence = bs_confidence s\<rparr>) (brr_segments result),
        ot_readable_segments = map (\<lambda>s. \<lparr>ors_start_millis = brs_start_millis s,
            ors_end_millis = brs_end_millis s, ors_text = brs_text s,
            ors_source_segment_indices = brs_source_segment_indices s\<rparr>)
          (case brr_readable_segments result of None \<Rightarrow> [] | Some rs \<Rightarrow> rs),
        ot_provider_request_id =
          (if identity = ElevenlabsScribeV2MultiV3
           then map_option pr_id (brr_provider_reference result) else None)\<rparr>"

definition gateway_projection :: "json_text \<Rightarrow> 'u uuid_lib \<Rightarrow> projection" where
  "gateway_projection jt ul job result =
     and_then (ok_or (uuid_parse ul job) BatchResultProjectionFailure) (\<lambda>job_id.
     and_then (ok_or (identity_for_result result) BatchResultProjectionFailure) (\<lambda>identity.
       map_err (\<lambda>_. BatchResultProjectionFailure)
         (map_ok (\<lambda>_. ()) (serialize_response jt ul identity (completed_response identity job_id result)))))"

section \<open>Checks of the reader\<close>

text \<open>Comparison of finite floats; the contracts compare only after \<open>is_finite\<close>.\<close>

fun float_le :: "float \<Rightarrow> float \<Rightarrow> bool" where
  "float_le (Finite a) (Finite b) = (a \<le> b)"
| "float_le _ _ = False"

fun float_less :: "float \<Rightarrow> float \<Rightarrow> bool" where
  "float_less (Finite a) (Finite b) = (a < b)"
| "float_less _ _ = False"

definition in_validate_text :: "str \<Rightarrow> bool \<Rightarrow> (unit, ContractViolation) result" where
  "in_validate_text value allow_empty =
     require (utf16_len value \<le> CB_MAX_TRANSCRIPT_CHARS \<and> (allow_empty \<or> trim value \<noteq> []))
       (ContractViolation ''invalid transcript text'')"

definition in_validate_error_code :: "str \<Rightarrow> (unit, ContractViolation) result" where
  "in_validate_error_code value =
     require (value \<noteq> [] \<and> utf16_len value \<le> CB_MAX_ERROR_CODE_CHARS
              \<and> list_all (\<lambda>b. ascii_uppercase b \<or> ascii_digit b \<or> b = 0x5F) (str_bytes value))
       (ContractViolation ''invalid error code'')"

definition in_validate_confidence :: "float option \<Rightarrow> (unit, ContractViolation) result" where
  "in_validate_confidence value = require (valid_confidence value) (ContractViolation ''invalid confidence'')"

definition require_identity :: "str \<Rightarrow> str \<Rightarrow> str \<Rightarrow> BatchIdentity \<Rightarrow> (unit, ContractViolation) result" where
  "require_identity provider model language expected =
     require (provider = lit (identity_provider expected) \<and> model = lit (identity_model expected)
              \<and> language = lit (identity_language expected))
       (ContractViolation ''batch identity mismatch'')"

definition validate_utterance :: "Utterance \<Rightarrow> (unit, ContractViolation) result" where
  "validate_utterance u =
     and_then (require (is_finite (ut_start u) \<and> float_le (Finite 0) (ut_start u) \<and> is_finite (ut_end u)
                        \<and> float_le (ut_start u) (ut_end u))
                 (ContractViolation ''invalid utterance timeline'')) (\<lambda>_.
     and_then (in_validate_text (ut_transcript u) True) (\<lambda>_.
       in_validate_confidence (ut_confidence u)))"

fun each_utterance :: "Utterance list \<Rightarrow> (unit, ContractViolation) result" where
  "each_utterance [] = Ok ()"
| "each_utterance (u # us) = and_then (validate_utterance u) (\<lambda>_. each_utterance us)"

fun in_readable_loop ::
  "float \<Rightarrow> usize \<Rightarrow> usize \<Rightarrow> usize \<Rightarrow> ReadableSegment list \<Rightarrow> (usize \<times> usize, ContractViolation) result" where
  "in_readable_loop duration count references characters [] = Ok (references, characters)"
| "in_readable_loop duration count references characters (segment # rest) =
     and_then (in_validate_text (rs_transcript segment) False) (\<lambda>_.
     and_then (require (is_finite (rs_start segment) \<and> float_le (Finite 0) (rs_start segment)
                        \<and> is_finite (rs_end segment) \<and> float_less (rs_start segment) (rs_end segment)
                        \<and> float_le (rs_end segment) duration)
                 (ContractViolation ''invalid readable segment timeline'')) (\<lambda>_.
     and_then (require (rs_source_utterance_indices segment \<noteq> [])
                 (ContractViolation ''readable segment has no sources'')) (\<lambda>_.
     and_then (source_loop count ''invalid readable segment source'' None (rs_source_utterance_indices segment))
       (\<lambda>_.
     and_then (ok_or (usize_checked_add references (length (rs_source_utterance_indices segment)))
                 (ContractViolation ''too many readable references'')) (\<lambda>references'.
     and_then (ok_or (usize_checked_add characters (utf16_len (rs_transcript segment)))
                 (ContractViolation ''too much readable text'')) (\<lambda>characters'.
       in_readable_loop duration count references' characters' rest))))))"

definition validate_readable_segments ::
  "ReadableSegment list \<Rightarrow> float \<Rightarrow> usize \<Rightarrow> (ReadableSegment list, ContractViolation) result" where
  "validate_readable_segments segments duration utterance_count =
     and_then (require (length segments \<le> CB_MAX_SEGMENTS) (ContractViolation ''too many readable segments'')) (\<lambda>_.
     and_then (in_readable_loop duration utterance_count 0 0 segments) (\<lambda>(references, characters).
     and_then (require (references \<le> CB_MAX_READABLE_REFERENCES \<and> characters \<le> CB_MAX_TRANSCRIPT_CHARS)
                 (ContractViolation ''readable projection exceeds bounds'')) (\<lambda>_.
       Ok segments)))"

section \<open>The values that are read\<close>

definition deserialize_job_id :: "'u uuid_lib \<Rightarrow> json \<Rightarrow> 'u option" where
  "deserialize_job_id ul v =
     do {
       value \<leftarrow> as_str v;
       if canonical_uuid_text value then uuid_parse ul value else None
     }"

definition list_of_json :: "(json \<Rightarrow> 'a option) \<Rightarrow> json \<Rightarrow> 'a list option" where
  "list_of_json read v = (case as_array v of None \<Rightarrow> None | Some xs \<Rightarrow> those (map read xs))"

definition next_action_of_json :: "json \<Rightarrow> NextAction option" where
  "next_action_of_json = variant next_action_name [Poll, Retry]"

text \<open>The aliases \<open>start_ms\<close>, \<open>end_ms\<close> and \<open>text\<close> of an utterance's fields.\<close>

definition canonical_name :: "str \<Rightarrow> str" where
  "canonical_name k =
     (if k = lit ''start_ms'' then lit ''start'' else if k = lit ''end_ms'' then lit ''end''
      else if k = lit ''text'' then lit ''transcript'' else k)"

fun rename_fields :: "json \<Rightarrow> json" where
  "rename_fields (JObject fs) = JObject (map (\<lambda>(k, v). (canonical_name k, v)) fs)"
| "rename_fields v = v"

definition utterance_of_json :: "json \<Rightarrow> Utterance option" where
  "utterance_of_json v =
     do {
       fs \<leftarrow> struct_fields [''start'', ''end'', ''transcript'', ''confidence''] (rename_fields v);
       s \<leftarrow> field fs ''start'' as_f64;
       e \<leftarrow> field fs ''end'' as_f64;
       t \<leftarrow> field fs ''transcript'' as_str;
       c \<leftarrow> optional_field fs ''confidence'' as_f64;
       Some \<lparr>ut_start = s, ut_end = e, ut_transcript = t, ut_confidence = c\<rparr>
     }"

definition readable_of_json :: "json \<Rightarrow> ReadableSegment option" where
  "readable_of_json v =
     do {
       fs \<leftarrow> struct_fields [''start'', ''end'', ''transcript'', ''source_utterance_indices''] v;
       s \<leftarrow> field fs ''start'' as_f64;
       e \<leftarrow> field fs ''end'' as_f64;
       t \<leftarrow> field fs ''transcript'' as_str;
       i \<leftarrow> field fs ''source_utterance_indices'' (list_of_json (as_bounded usize_limit));
       Some \<lparr>rs_start = s, rs_end = e, rs_transcript = t, rs_source_utterance_indices = i\<rparr>
     }"

record ResultV2 =
  r2_provider :: str
  r2_model :: str
  r2_language :: str
  r2_text :: str
  r2_duration_seconds :: float
  r2_utterances :: "Utterance list"
  r2_readable_segments :: "ReadableSegment list"

definition result_v2_of_json :: "json \<Rightarrow> ResultV2 option" where
  "result_v2_of_json v =
     do {
       fs \<leftarrow> struct_fields [''provider'', ''model'', ''language'', ''text'', ''duration_seconds'',
         ''utterances'', ''readable_segments''] v;
       provider \<leftarrow> field fs ''provider'' as_str;
       model \<leftarrow> field fs ''model'' as_str;
       language \<leftarrow> field fs ''language'' as_str;
       t \<leftarrow> field fs ''text'' as_str;
       d \<leftarrow> field fs ''duration_seconds'' as_f64;
       us \<leftarrow> field fs ''utterances'' (list_of_json utterance_of_json);
       rs \<leftarrow> default_field fs ''readable_segments'' [] (list_of_json readable_of_json);
       Some \<lparr>r2_provider = provider, r2_model = model, r2_language = language, r2_text = t,
             r2_duration_seconds = d, r2_utterances = us, r2_readable_segments = rs\<rparr>
     }"

definition validate_v2_result :: "ResultV2 \<Rightarrow> (BatchTranscription, ContractViolation) result" where
  "validate_v2_result result =
     and_then (require (is_finite (r2_duration_seconds result) \<and> float_le (Finite 0) (r2_duration_seconds result))
                 (ContractViolation ''invalid duration'')) (\<lambda>_.
     and_then (require (length (r2_utterances result) \<le> CB_MAX_SEGMENTS)
                 (ContractViolation ''too many utterances'')) (\<lambda>_.
     and_then (each_utterance (r2_utterances result)) (\<lambda>_.
     and_then (validate_readable_segments (r2_readable_segments result) (r2_duration_seconds result)
                 (length (r2_utterances result))) (\<lambda>readable_segments.
       Ok \<lparr>bt_duration_seconds = r2_duration_seconds result, bt_utterances = r2_utterances result,
           bt_readable_segments = readable_segments, bt_provider_request_id = None\<rparr>))))"

definition parse_v2 ::
  "'u uuid_lib \<Rightarrow> json \<Rightarrow> BatchResponseStatus \<Rightarrow> BatchIdentity
   \<Rightarrow> ('u BatchTaskResult, ContractViolation) result" where
  "parse_v2 ul value http_status expected =
     (if http_status = StatusAccepted
      then and_then (ok_or (do {
             fs \<leftarrow> struct_fields [''success'', ''status'', ''job_id'', ''next_action'', ''retry_after_ms''] value;
             success \<leftarrow> field fs ''success'' as_bool;
             st \<leftarrow> field fs ''status'' as_str;
             job_id \<leftarrow> field fs ''job_id'' (deserialize_job_id ul);
             next_action \<leftarrow> field fs ''next_action'' next_action_of_json;
             retry_after_ms \<leftarrow> field fs ''retry_after_ms'' as_u64;
             Some (success, st, job_id, next_action, retry_after_ms)
           }) (ContractViolation ''invalid batch v2 pending response''))
           (\<lambda>(success, st, job_id, next_action, retry_after_ms).
         and_then (require (success \<and> st = lit ''running'') (ContractViolation ''invalid batch v2 state'')) (\<lambda>_.
         and_then (require (retry_after_ms \<le> CB_MAX_RETRY_AFTER_MS)
                     (ContractViolation ''retry delay exceeds limit'')) (\<lambda>_.
           Ok (TaskPending job_id next_action retry_after_ms))))
      else and_then (ok_or (do {
             fs \<leftarrow> struct_fields [''success'', ''status'', ''job_id'', ''retryable'', ''error_code'', ''result''] value;
             success \<leftarrow> field fs ''success'' as_bool;
             st \<leftarrow> field fs ''status'' as_str;
             job_id \<leftarrow> field fs ''job_id'' (deserialize_job_id ul);
             retryable \<leftarrow> optional_field fs ''retryable'' as_bool;
             error_code \<leftarrow> optional_field fs ''error_code'' as_str;
             body \<leftarrow> optional_field fs ''result'' result_v2_of_json;
             Some (success, st, job_id, retryable, error_code, body)
           }) (ContractViolation ''invalid batch v2 final response''))
           (\<lambda>(success, st, job_id, retryable, error_code, body).
         if \<not> success \<and> st = lit ''failed'' \<and> retryable = Some False
         then and_then (ok_or error_code (ContractViolation ''missing error code'')) (\<lambda>code.
              and_then (require (body = None) (ContractViolation ''failed response contains result'')) (\<lambda>_.
              and_then (in_validate_error_code code) (\<lambda>_.
                Ok (TaskFailed job_id code))))
         else
           and_then (require (success \<and> st = lit ''completed'' \<and> retryable = None \<and> error_code = None)
                       (ContractViolation ''invalid batch v2 completed state'')) (\<lambda>_.
           and_then (ok_or body (ContractViolation ''missing batch result'')) (\<lambda>result.
           and_then (require_identity (r2_provider result) (r2_model result) (r2_language result) expected) (\<lambda>_.
           and_then (in_validate_text (r2_text result) True) (\<lambda>_.
           and_then (validate_v2_result result) (\<lambda>transcription.
             Ok (TaskCompleted job_id transcription))))))))"

record SegmentV3 =
  s3_index :: usize
  s3_start_ms :: u64
  s3_end_ms :: u64
  s3_text :: str
  s3_confidence :: "float option"

record 'u ResultV3 =
  r3_result_id :: 'u
  r3_provider :: str
  r3_model :: str
  r3_language :: str
  r3_text :: str
  r3_duration_ms :: u64
  r3_segments :: "SegmentV3 list"
  r3_provider_request :: "str option"

record 'u EnvelopeV3 =
  e3_contract_version :: nat
  e3_provider :: str
  e3_model :: str
  e3_language :: str
  e3_success :: bool
  e3_status :: str
  e3_job_id :: 'u
  e3_next_action :: "NextAction option"
  e3_retry_after_ms :: "u64 option"
  e3_retryable :: "bool option"
  e3_error_code :: "str option"
  e3_result :: "'u ResultV3 option"

definition segment_v3_of_json :: "json \<Rightarrow> SegmentV3 option" where
  "segment_v3_of_json v =
     do {
       fs \<leftarrow> struct_fields [''index'', ''start_ms'', ''end_ms'', ''text'', ''confidence''] v;
       i \<leftarrow> field fs ''index'' (as_bounded usize_limit);
       s \<leftarrow> field fs ''start_ms'' as_u64;
       e \<leftarrow> field fs ''end_ms'' as_u64;
       t \<leftarrow> field fs ''text'' as_str;
       c \<leftarrow> optional_field fs ''confidence'' as_f64;
       Some \<lparr>s3_index = i, s3_start_ms = s, s3_end_ms = e, s3_text = t, s3_confidence = c\<rparr>
     }"

definition provider_request_of_json :: "json \<Rightarrow> str option" where
  "provider_request_of_json v =
     do { fs \<leftarrow> struct_fields [''id''] v; field fs ''id'' as_str }"

definition result_v3_of_json :: "'u uuid_lib \<Rightarrow> json \<Rightarrow> 'u ResultV3 option" where
  "result_v3_of_json ul v =
     do {
       fs \<leftarrow> struct_fields [''result_id'', ''provider'', ''model'', ''language'', ''text'', ''duration_ms'',
         ''segments'', ''provider_request''] v;
       result_id \<leftarrow> field fs ''result_id'' (deserialize_job_id ul);
       provider \<leftarrow> field fs ''provider'' as_str;
       model \<leftarrow> field fs ''model'' as_str;
       language \<leftarrow> field fs ''language'' as_str;
       t \<leftarrow> field fs ''text'' as_str;
       d \<leftarrow> field fs ''duration_ms'' as_u64;
       ss \<leftarrow> field fs ''segments'' (list_of_json segment_v3_of_json);
       pr \<leftarrow> optional_field fs ''provider_request'' provider_request_of_json;
       Some \<lparr>r3_result_id = result_id, r3_provider = provider, r3_model = model, r3_language = language,
             r3_text = t, r3_duration_ms = d, r3_segments = ss, r3_provider_request = pr\<rparr>
     }"

definition envelope_v3_of_json :: "'u uuid_lib \<Rightarrow> json \<Rightarrow> 'u EnvelopeV3 option" where
  "envelope_v3_of_json ul v =
     do {
       fs \<leftarrow> struct_fields [''contract_version'', ''provider'', ''model'', ''language'', ''success'',
         ''status'', ''job_id'', ''next_action'', ''retry_after_ms'', ''retryable'', ''error_code'', ''result''] v;
       version \<leftarrow> field fs ''contract_version'' (as_bounded 256);
       provider \<leftarrow> field fs ''provider'' as_str;
       model \<leftarrow> field fs ''model'' as_str;
       language \<leftarrow> field fs ''language'' as_str;
       success \<leftarrow> field fs ''success'' as_bool;
       st \<leftarrow> field fs ''status'' as_str;
       job_id \<leftarrow> field fs ''job_id'' (deserialize_job_id ul);
       next_action \<leftarrow> optional_field fs ''next_action'' next_action_of_json;
       retry_after_ms \<leftarrow> optional_field fs ''retry_after_ms'' as_u64;
       retryable \<leftarrow> optional_field fs ''retryable'' as_bool;
       error_code \<leftarrow> optional_field fs ''error_code'' as_str;
       body \<leftarrow> optional_field fs ''result'' (result_v3_of_json ul);
       Some \<lparr>e3_contract_version = version, e3_provider = provider, e3_model = model,
             e3_language = language, e3_success = success, e3_status = st, e3_job_id = job_id,
             e3_next_action = next_action, e3_retry_after_ms = retry_after_ms,
             e3_retryable = retryable, e3_error_code = error_code, e3_result = body\<rparr>
     }"

fun v3_segments ::
  "u64 \<Rightarrow> usize \<Rightarrow> u64 \<Rightarrow> SegmentV3 list \<Rightarrow> (Utterance list, ContractViolation) result" where
  "v3_segments duration expected_index previous_end [] = Ok []"
| "v3_segments duration expected_index previous_end (segment # rest) =
     and_then (require (s3_index segment = expected_index)
                 (ContractViolation ''non-contiguous segment index'')) (\<lambda>_.
     and_then (require (s3_start_ms segment \<ge> previous_end \<and> s3_end_ms segment > s3_start_ms segment
                        \<and> s3_end_ms segment \<le> duration)
                 (ContractViolation ''invalid segment timeline'')) (\<lambda>_.
     and_then (in_validate_text (s3_text segment) False) (\<lambda>_.
     and_then (in_validate_confidence (s3_confidence segment)) (\<lambda>_.
     map_ok (\<lambda>us. \<lparr>ut_start = seconds (s3_start_ms segment), ut_end = seconds (s3_end_ms segment),
                    ut_transcript = s3_text segment, ut_confidence = s3_confidence segment\<rparr> # us)
       (v3_segments duration (expected_index + 1) (s3_end_ms segment) rest)))))"

definition validate_v3_result :: "'u ResultV3 \<Rightarrow> (BatchTranscription, ContractViolation) result" where
  "validate_v3_result result =
     and_then (in_validate_text (r3_text result) True) (\<lambda>_.
     and_then (require (r3_text result = [] \<or> trim (r3_text result) \<noteq> [])
                 (ContractViolation ''batch text cannot contain only whitespace'')) (\<lambda>_.
     and_then (require (r3_duration_ms result \<le> CB_MAX_SAFE_INTEGER)
                 (ContractViolation ''duration exceeds safe integer'')) (\<lambda>_.
     and_then (require (length (r3_segments result) \<le> CB_MAX_SEGMENTS) (ContractViolation ''too many segments'')) (\<lambda>_.
     and_then (require ((r3_text result = []) = (r3_segments result = []))
                 (ContractViolation ''text and segments disagree'')) (\<lambda>_.
     and_then (v3_segments (r3_duration_ms result) 0 0 (r3_segments result)) (\<lambda>utterances.
     and_then (case r3_provider_request result of
                 None \<Rightarrow> Ok ()
               | Some i \<Rightarrow> require (i \<noteq> [] \<and> utf16_len i \<le> CB_MAX_PROVIDER_REQUEST_ID_CHARS
                                   \<and> list_all printable_ascii (str_bytes i))
                            (ContractViolation ''invalid provider request id'')) (\<lambda>_.
       Ok \<lparr>bt_duration_seconds = seconds (r3_duration_ms result), bt_utterances = utterances,
           bt_readable_segments = [], bt_provider_request_id = r3_provider_request result\<rparr>)))))))"

definition parse_v3 ::
  "'u uuid_lib \<Rightarrow> json \<Rightarrow> BatchResponseStatus \<Rightarrow> BatchIdentity
   \<Rightarrow> ('u BatchTaskResult, ContractViolation) result" where
  "parse_v3 ul value http_status expected =
     and_then (ok_or (envelope_v3_of_json ul value) (ContractViolation ''invalid batch v3 response'')) (\<lambda>response.
     and_then (require (e3_contract_version response = unat (contract_version expected))
                 (ContractViolation ''contract version mismatch'')) (\<lambda>_.
     and_then (require_identity (e3_provider response) (e3_model response) (e3_language response) expected) (\<lambda>_.
     if http_status = StatusAccepted
     then
       and_then (require (e3_success response \<and> e3_status response = lit ''running'')
                   (ContractViolation ''invalid batch v3 pending state'')) (\<lambda>_.
       and_then (require (e3_retryable response = None \<and> e3_error_code response = None \<and> e3_result response = None)
                   (ContractViolation ''pending response contains terminal fields'')) (\<lambda>_.
       and_then (ok_or (e3_retry_after_ms response) (ContractViolation ''missing retry delay'')) (\<lambda>retry_after_ms.
       and_then (require (retry_after_ms \<le> CB_MAX_RETRY_AFTER_MS)
                   (ContractViolation ''retry delay exceeds limit'')) (\<lambda>_.
       and_then (ok_or (e3_next_action response) (ContractViolation ''missing next action'')) (\<lambda>next_action.
         Ok (TaskPending (e3_job_id response) next_action retry_after_ms))))))
     else
       and_then (require (e3_next_action response = None \<and> e3_retry_after_ms response = None)
                   (ContractViolation ''terminal response contains polling fields'')) (\<lambda>_.
       if \<not> e3_success response \<and> e3_status response = lit ''failed'' \<and> e3_retryable response = Some False
       then
         and_then (require (e3_result response = None) (ContractViolation ''failed response contains result'')) (\<lambda>_.
         and_then (ok_or (e3_error_code response) (ContractViolation ''missing error code'')) (\<lambda>code.
         and_then (in_validate_error_code code) (\<lambda>_.
           Ok (TaskFailed (e3_job_id response) code))))
       else
         and_then (require (e3_success response \<and> e3_status response = lit ''completed''
                            \<and> e3_retryable response = None \<and> e3_error_code response = None)
                     (ContractViolation ''invalid batch v3 completed state'')) (\<lambda>_.
         and_then (ok_or (e3_result response) (ContractViolation ''missing batch result'')) (\<lambda>result.
         and_then (require (r3_result_id result = e3_job_id response)
                     (ContractViolation ''batch result identity mismatch'')) (\<lambda>_.
         and_then (require_identity (r3_provider result) (r3_model result) (r3_language result) expected) (\<lambda>_.
         and_then (validate_v3_result result) (\<lambda>transcription.
           Ok (TaskCompleted (e3_job_id response) transcription)))))))))) "

definition parse_response ::
  "json_text \<Rightarrow> 'u uuid_lib \<Rightarrow> str \<Rightarrow> BatchResponseStatus \<Rightarrow> BatchIdentity
   \<Rightarrow> ('u BatchTaskResult, ContractViolation) result" where
  "parse_response jt ul s http_status expected =
     (if str_len s > CB_MAX_BODY_BYTES then Err (ContractViolation ''batch response exceeds byte limit'')
      else and_then (ok_or (value_of_text jt s) (ContractViolation ''invalid batch JSON'')) (\<lambda>value.
        (case expected of
           DeepgramNova3MultiV2 \<Rightarrow> parse_v2 ul value http_status expected
         | ElevenlabsScribeV2MultiV3 \<Rightarrow> parse_v3 ul value http_status expected)))"

end
