(* ===== verification/Batch_Wire.thy ===== *)
theory Batch_Wire
  imports Contracts_Batch
begin

text \<open>
  What the batch contracts guarantee: the client reads every response the gateway writes, and a
  job that was completed under the gateway's projection can always be served, also after its
  result went through the database.
\<close>

section \<open>Reading lists and numbers back\<close>

lemma those_Some_map: "\<forall>x \<in> set xs. f x = Some (h x) \<Longrightarrow> those (map f xs) = Some (map h xs)"
  by (induction xs) auto

lemma list_of_json_map:
  "\<forall>x \<in> set xs. read (g x) = Some (h x) \<Longrightarrow> list_of_json read (JArray (map g xs)) = Some (map h xs)"
  using those_Some_map [of xs "\<lambda>x. read (g x)" h] by (simp add: list_of_json_def comp_def)

lemma as_bounded_usize: "i < 2 ^ 64 \<Longrightarrow> as_bounded usize_limit (JNat (of_nat i)) = Some i"
  by (simp add: as_bounded_def usize_limit_def unat_of_nat)

lemma next_action_written [simp]: "next_action_of_json (JString (lit (next_action_name a))) = Some a"
  unfolding next_action_of_json_def by (rule variant_written) (cases a; simp)+

lemma job_id_written: "uuid_laws ul \<Longrightarrow> deserialize_job_id ul (JString (uuid_text ul u)) = Some u"
  by (simp add: deserialize_job_id_def uuid_laws_def)

lemma float_json_seconds [simp]: "float_json (seconds m) = JFloat (seconds m)"
  by (simp add: float_json_def seconds_def)

lemma collapse_float_json [simp]: "collapse (float_json f) = float_json f"
  by (simp add: float_json_def)

lemma JArray_collapse: "\<forall>x \<in> set xs. collapse (g x) = g x \<Longrightarrow> collapse (JArray (map g xs)) = JArray (map g xs)"
  by (simp add: list_all_iff)

section \<open>Segments\<close>

definition utterance_view :: "OutboundSegment \<Rightarrow> Utterance" where
  "utterance_view s =
     \<lparr>ut_start = seconds (os_start_millis s), ut_end = seconds (os_end_millis s),
      ut_transcript = os_text s, ut_confidence = os_confidence s\<rparr>"

definition readable_view :: "OutboundReadableSegment \<Rightarrow> ReadableSegment" where
  "readable_view s =
     \<lparr>rs_start = seconds (ors_start_millis s), rs_end = seconds (ors_end_millis s),
      rs_transcript = ors_text s, rs_source_utterance_indices = ors_source_segment_indices s\<rparr>"

definition segment_v3 :: "nat \<times> OutboundSegment \<Rightarrow> SegmentV3" where
  "segment_v3 p =
     \<lparr>s3_index = fst p, s3_start_ms = os_start_millis (snd p), s3_end_ms = os_end_millis (snd p),
      s3_text = os_text (snd p), s3_confidence = os_confidence (snd p)\<rparr>"

lemma utterance_written:
  assumes "valid_confidence (os_confidence s)"
  shows "utterance_of_json (utterance_json s) = Some (utterance_view s)"
    and "collapse (utterance_json s) = utterance_json s"
proof -
  show "utterance_of_json (utterance_json s) = Some (utterance_view s)"
    using assms confidence_written
    by (cases "os_confidence s")
      (simp_all add: utterance_of_json_def utterance_json_def utterance_view_def canonical_name_def
        field_def optional_field_def only_fields_def)
  show "collapse (utterance_json s) = utterance_json s"
    using assms confidence_written
    unfolding utterance_json_def
    by (intro collapse_object) (auto split: option.splits)
qed

lemma readable_written:
  assumes "\<forall>i \<in> set (ors_source_segment_indices s). i < 2 ^ 64"
  shows "readable_of_json (readable_json s) = Some (readable_view s)"
    and "collapse (readable_json s) = readable_json s"
proof -
  have "list_of_json (as_bounded usize_limit) (JArray (map (\<lambda>i. JNat (of_nat i)) (ors_source_segment_indices s)))
      = Some (map (\<lambda>i. i) (ors_source_segment_indices s))"
    using assms as_bounded_usize by (intro list_of_json_map) simp
  then show "readable_of_json (readable_json s) = Some (readable_view s)"
    by (simp add: readable_of_json_def readable_json_def readable_view_def field_def only_fields_def)
  show "collapse (readable_json s) = readable_json s"
    unfolding readable_json_def by (intro collapse_object) auto
qed

lemma segment_v3_written:
  assumes "valid_confidence (os_confidence (snd p))" and "fst p < 2 ^ 64"
  shows "segment_v3_of_json (segment_v3_json p) = Some (segment_v3 p)"
    and "collapse (segment_v3_json p) = segment_v3_json p"
proof -
  obtain i s where p: "p = (i, s)" by (cases p)
  show "segment_v3_of_json (segment_v3_json p) = Some (segment_v3 p)"
    using assms confidence_written as_bounded_usize [of i]
    by (cases "os_confidence s")
      (simp_all add: p segment_v3_of_json_def segment_v3_json_def segment_v3_def
        field_def optional_field_def only_fields_def)
  show "collapse (segment_v3_json p) = segment_v3_json p"
    using assms confidence_written
    unfolding segment_v3_json_def p prod.case
    by (intro collapse_object) (auto simp: p split: option.splits)
qed

lemma out_segments_Ok:
  assumes "out_segments d pe ss = Ok ()"
  shows "\<forall>s \<in> set ss. valid_confidence (os_confidence s) \<and> os_start_millis s < os_end_millis s \<and>
    os_end_millis s \<le> d \<and> trim (os_text s) \<noteq> [] \<and> utf16_len (os_text s) \<le> CB_MAX_TRANSCRIPT_CHARS"
  using assms by (induction d pe ss rule: out_segments.induct) auto

lemma v3_segments_written:
  "out_segments d pe ss = Ok () \<Longrightarrow>
   v3_segments d i pe (map segment_v3 (enumerate i ss)) = Ok (map utterance_view ss)"
  by (induction d pe ss arbitrary: i rule: out_segments.induct)
    (auto simp: segment_v3_def utterance_view_def in_validate_text_def in_validate_confidence_def)

lemma each_utterance_written:
  "\<forall>s \<in> set ss. valid_confidence (os_confidence s) \<and> os_start_millis s < os_end_millis s \<and>
     utf16_len (os_text s) \<le> CB_MAX_TRANSCRIPT_CHARS \<Longrightarrow>
   each_utterance (map utterance_view ss) = Ok ()"
  by (induction ss)
    (auto simp: validate_utterance_def utterance_view_def in_validate_text_def in_validate_confidence_def
      seconds_def f64_seconds_mono)

lemma source_loop_message: "source_loop n m p is = Ok q \<Longrightarrow> source_loop n m' p is = Ok q"
  by (induction n m p "is" rule: source_loop.induct) auto

lemma source_loop_some: "source_loop n m p is = Ok q \<Longrightarrow> q \<noteq> None \<Longrightarrow> p \<noteq> None \<or> is \<noteq> []"
  by (cases "is") auto

lemma source_loop_bound: "source_loop n m p is = Ok q \<Longrightarrow> \<forall>i \<in> set is. i < n"
  by (induction n m p "is" rule: source_loop.induct) auto

lemma out_readable_sources:
  "out_readable_loop d n r c ss = Ok x \<Longrightarrow>
   \<forall>s \<in> set ss. \<forall>i \<in> set (ors_source_segment_indices s). i < n"
  by (induction d n r c ss rule: out_readable_loop.induct) (auto dest: source_loop_bound)

lemma out_readable_mono: "out_readable_loop d n r c ss = Ok (R, C) \<Longrightarrow> c \<le> C"
proof (induction d n r c ss rule: out_readable_loop.induct)
  case (2 d n r c s ss)
  then show ?case by (fastforce dest!: usize_checked_add_SomeD)
qed simp

lemma in_readable_written:
  assumes "out_readable_loop d n r c ss = Ok (R, C)" and "unat d \<le> 2 ^ 42" and "C \<le> CB_MAX_TRANSCRIPT_CHARS"
  shows "in_readable_loop (seconds d) n r c (map readable_view ss) = Ok (R, C)"
  using assms
proof (induction d n r c ss rule: out_readable_loop.induct)
  case (2 d n r c s ss)
  obtain p r' c' where s: "ors_start_millis s < ors_end_millis s" "ors_end_millis s \<le> d"
    and t: "trim (ors_text s) \<noteq> []"
    and p: "source_loop n ''invalid readable source index'' None (ors_source_segment_indices s) = Ok p" "p \<noteq> None"
    and r': "usize_checked_add r (length (ors_source_segment_indices s)) = Some r'"
    and c': "usize_checked_add c (utf16_len (ors_text s)) = Some c'"
    and rest: "out_readable_loop d n r' c' ss = Ok (R, C)"
    using "2.prems"(1) by auto
  have IH: "in_readable_loop (seconds d) n r' c' (map readable_view ss) = Ok (R, C)"
    using "2.IH" 2(3,4) s t p r' c' rest by auto
  have mono: "c' \<le> C" by (rule out_readable_mono [OF rest])
  have "utf16_len (ors_text s) \<le> CB_MAX_TRANSCRIPT_CHARS"
    using mono usize_checked_add_SomeD [OF c'] "2.prems"(3) by simp
  moreover have "unat (ors_end_millis s) \<le> 2 ^ 42"
    using s(2) "2.prems"(2) by (simp add: word_le_nat_alt)
  moreover have "ors_source_segment_indices s \<noteq> []" using source_loop_some [OF p(1)] p(2) by simp
  ultimately show ?case
    using s t source_loop_message [OF p(1)] r' c' IH
    by (auto simp: readable_view_def [of s] in_validate_text_def seconds_def f64_seconds_mono f64_seconds_strict)
qed simp

section \<open>Whole responses\<close>

definition transcription_view :: "OutboundTranscription \<Rightarrow> BatchTranscription" where
  "transcription_view t =
     \<lparr>bt_duration_seconds = seconds (ot_duration_millis t),
      bt_utterances = map utterance_view (ot_segments t),
      bt_readable_segments = map readable_view (ot_readable_segments t),
      bt_provider_request_id = ot_provider_request_id t\<rparr>"

fun task_view :: "'u OutboundBatchResponse \<Rightarrow> 'u BatchTaskResult" where
  "task_view (RespPending j a r) = TaskPending j a r"
| "task_view (RespFailed j c) = TaskFailed j c"
| "task_view (RespCompleted j t) = TaskCompleted j (transcription_view t)"

lemma out_validate_result_Ok:
  assumes "out_validate_result i t = Ok ()"
  shows "ot_duration_millis t \<le> CB_MAX_SAFE_INTEGER" and "utf16_len (ot_text t) \<le> CB_MAX_TRANSCRIPT_CHARS"
    and "length (ot_segments t) \<le> CB_MAX_SEGMENTS"
    and "out_segments (ot_duration_millis t) 0 (ot_segments t) = Ok ()"
    and "validate_provider_request (ot_provider_request_id t) = Ok ()"
    and "out_validate_readable t = Ok ()"
  using assms by (auto simp: out_validate_result_def)

lemma validate_v2_written:
  assumes "out_validate_result DeepgramNova3MultiV2 t = Ok ()"
    and "ot_readable_segments t = [] \<or> unat (ot_duration_millis t) \<le> 2 ^ 42"
    and r: "r2_duration_seconds r = seconds (ot_duration_millis t)"
      "r2_utterances r = map utterance_view (ot_segments t)"
      "r2_readable_segments r = map readable_view (ot_readable_segments t)"
  shows "validate_v2_result r = Ok (transcription_view t)"
proof -
  note ok = out_validate_result_Ok [OF assms(1)]
  have id: "ot_provider_request_id t = None"
    using assms(1) by (auto simp: out_validate_result_def)
  have utts: "each_utterance (map utterance_view (ot_segments t)) = Ok ()"
    using out_segments_Ok [OF ok(4)] by (intro each_utterance_written) auto
  obtain R C where loop: "out_readable_loop (ot_duration_millis t) (length (ot_segments t)) 0 0
      (ot_readable_segments t) = Ok (R, C)"
    and bounds: "R \<le> CB_MAX_READABLE_REFERENCES" "C \<le> CB_MAX_TRANSCRIPT_CHARS"
      "length (ot_readable_segments t) \<le> CB_MAX_SEGMENTS"
    using ok(6) by (auto simp: out_validate_readable_def)
  have "in_readable_loop (seconds (ot_duration_millis t)) (length (ot_segments t)) 0 0
      (map readable_view (ot_readable_segments t)) = Ok (R, C)"
    using assms(2) in_readable_written [OF loop _ bounds(2)] loop by (cases "ot_readable_segments t") auto
  then have "validate_readable_segments (map readable_view (ot_readable_segments t))
      (seconds (ot_duration_millis t)) (length (ot_segments t)) = Ok (map readable_view (ot_readable_segments t))"
    using bounds by (simp add: validate_readable_segments_def)
  then show ?thesis
    using utts ok(3) id by (simp add: validate_v2_result_def r transcription_view_def seconds_def)
qed

lemma result_v2_written:
  assumes "out_validate_result DeepgramNova3MultiV2 t = Ok ()"
  defines "us \<equiv> JArray (map utterance_json (ot_segments t))"
    and "rs \<equiv> JArray (map readable_json (ot_readable_segments t))"
  shows "list_of_json utterance_of_json us = Some (map utterance_view (ot_segments t))"
    and "list_of_json readable_of_json rs = Some (map readable_view (ot_readable_segments t))"
    and "collapse us = us" and "collapse rs = rs"
proof -
  note ok = out_validate_result_Ok [OF assms(1)]
  have c: "\<forall>s \<in> set (ot_segments t). valid_confidence (os_confidence s)"
    using out_segments_Ok [OF ok(4)] by blast
  have "\<forall>s \<in> set (ot_readable_segments t). \<forall>i \<in> set (ors_source_segment_indices s). i < length (ot_segments t)"
    using ok(6) out_readable_sources by (fastforce simp: out_validate_readable_def)
  then have i: "\<forall>s \<in> set (ot_readable_segments t). \<forall>i \<in> set (ors_source_segment_indices s). i < 2 ^ 64"
    using ok(3) by (fastforce simp: CB_MAX_SEGMENTS_def)
  show "list_of_json utterance_of_json us = Some (map utterance_view (ot_segments t))"
    and "list_of_json readable_of_json rs = Some (map readable_view (ot_readable_segments t))"
    unfolding us_def rs_def using c i utterance_written(1) readable_written(1)
    by (auto intro!: list_of_json_map)
  show "collapse us = us" and "collapse rs = rs"
    unfolding us_def rs_def using c i utterance_written(2) readable_written(2)
    by (auto intro!: JArray_collapse)
qed

lemma completed_v2_written:
  assumes "out_validate_result DeepgramNova3MultiV2 t = Ok ()" and "uuid_laws ul"
    and "ot_readable_segments t = [] \<or> unat (ot_duration_millis t) \<le> 2 ^ 42"
  shows "parse_v2 ul (serialize_completed_v2 ul j t) StatusOk DeepgramNova3MultiV2
      = Ok (TaskCompleted j (transcription_view t))"
    and "collapse (serialize_completed_v2 ul j t) = serialize_completed_v2 ul j t"
proof -
  note w = result_v2_written [OF assms(1)] and ok = out_validate_result_Ok [OF assms(1)]
  let ?body = "JObject
         [(lit ''provider'', JString (lit (identity_provider DeepgramNova3MultiV2))),
          (lit ''model'', JString (lit (identity_model DeepgramNova3MultiV2))),
          (lit ''language'', JString (lit (identity_language DeepgramNova3MultiV2))),
          (lit ''text'', JString (ot_text t)),
          (lit ''duration_seconds'', float_json (seconds (ot_duration_millis t))),
          (lit ''utterances'', JArray (map utterance_json (ot_segments t))),
          (lit ''readable_segments'', JArray (map readable_json (ot_readable_segments t)))]"
  let ?r = "\<lparr>r2_provider = lit (identity_provider DeepgramNova3MultiV2),
      r2_model = lit (identity_model DeepgramNova3MultiV2),
      r2_language = lit (identity_language DeepgramNova3MultiV2), r2_text = ot_text t,
      r2_duration_seconds = seconds (ot_duration_millis t),
      r2_utterances = map utterance_view (ot_segments t),
      r2_readable_segments = map readable_view (ot_readable_segments t)\<rparr>"
  have read: "result_v2_of_json ?body = Some ?r"
    using w(1,2) by (simp add: result_v2_of_json_def field_def default_field_def only_fields_def)
  have valid: "validate_v2_result ?r = Ok (transcription_view t)"
    by (rule validate_v2_written [OF assms(1,3)]) simp_all
  show "parse_v2 ul (serialize_completed_v2 ul j t) StatusOk DeepgramNova3MultiV2
      = Ok (TaskCompleted j (transcription_view t))"
    using read valid job_id_written [OF assms(2), of j] ok(2)
    by (simp add: parse_v2_def serialize_completed_v2_def field_def optional_field_def only_fields_def
        require_identity_def in_validate_text_def)
  have "collapse ?body = ?body"
    by (rule collapse_object) (use w(3,4) in auto)
  then show "collapse (serialize_completed_v2 ul j t) = serialize_completed_v2 ul j t"
    unfolding serialize_completed_v2_def by (intro collapse_object) auto
qed

lemma identity_fields [simp]:
  "identity_provider i = identity_provider j \<longleftrightarrow> i = j" "identity_model i = identity_model j \<longleftrightarrow> i = j"
  by (cases i; cases j; simp)+

lemma segments_v3_written:
  assumes "out_validate_result ElevenlabsScribeV2MultiV3 t = Ok ()"
  defines "ss \<equiv> JArray (map segment_v3_json (enumerate 0 (ot_segments t)))"
  shows "list_of_json segment_v3_of_json ss = Some (map segment_v3 (enumerate 0 (ot_segments t)))"
    and "collapse ss = ss"
proof -
  note ok = out_validate_result_Ok [OF assms(1)]
  have "valid_confidence (os_confidence (snd p)) \<and> fst p < 2 ^ 64"
    if "p \<in> set (enumerate 0 (ot_segments t))" for p
  proof -
    have "snd p \<in> set (ot_segments t)" and "fst p < length (ot_segments t)"
      using that nth_mem [of "fst p" "ot_segments t"] by (auto simp: in_set_enumerate_eq)
    then show ?thesis
      using out_segments_Ok [OF ok(4)] ok(3) by (auto simp: CB_MAX_SEGMENTS_def)
  qed
  then show "list_of_json segment_v3_of_json ss = Some (map segment_v3 (enumerate 0 (ot_segments t)))"
    and "collapse ss = ss"
    unfolding ss_def using segment_v3_written
    by (auto intro!: list_of_json_map JArray_collapse simp del: prod.collapse)
qed

lemma validate_v3_written:
  assumes "out_validate_result ElevenlabsScribeV2MultiV3 t = Ok ()"
    and "r3_text r = ot_text t" and "r3_duration_ms r = ot_duration_millis t"
    and "r3_segments r = map segment_v3 (enumerate 0 (ot_segments t))"
    and "r3_provider_request r = ot_provider_request_id t"
  shows "validate_v3_result r = Ok (transcription_view t)"
proof -
  note ok = out_validate_result_Ok [OF assms(1)]
  have e: "(ot_text t = []) = (ot_segments t = [])" "ot_text t = [] \<or> trim (ot_text t) \<noteq> []"
    "ot_readable_segments t = []"
    using assms(1) by (auto simp: out_validate_result_def)
  have segs: "v3_segments (ot_duration_millis t) 0 0 (map segment_v3 (enumerate 0 (ot_segments t)))
      = Ok (map utterance_view (ot_segments t))"
    by (rule v3_segments_written [OF ok(4)])
  have empty: "(enumerate 0 (ot_segments t) = []) = (ot_segments t = [])"
    by (metis length_0_conv length_enumerate)
  show ?thesis
    using ok e segs empty
    by (cases "ot_provider_request_id t")
      (auto simp: validate_v3_result_def assms(2-) in_validate_text_def transcription_view_def
        validate_provider_request_def)
qed

lemma completed_v3_written:
  assumes "out_validate_result ElevenlabsScribeV2MultiV3 t = Ok ()" and "uuid_laws ul"
  shows "parse_v3 ul (serialize_completed_v3 ul ElevenlabsScribeV2MultiV3 j t) StatusOk
      ElevenlabsScribeV2MultiV3 = Ok (TaskCompleted j (transcription_view t))"
    and "collapse (serialize_completed_v3 ul ElevenlabsScribeV2MultiV3 j t)
      = serialize_completed_v3 ul ElevenlabsScribeV2MultiV3 j t"
proof -
  note w = segments_v3_written [OF assms(1)]
  let ?i = ElevenlabsScribeV2MultiV3
  let ?body = "JObject
          ([(lit ''result_id'', JString (uuid_text ul j)),
           (lit ''provider'', JString (lit (identity_provider ?i))),
           (lit ''model'', JString (lit (identity_model ?i))),
           (lit ''language'', JString (lit (identity_language ?i))),
           (lit ''text'', JString (ot_text t)),
           (lit ''duration_ms'', JNat (ot_duration_millis t)),
           (lit ''segments'', JArray (map segment_v3_json (enumerate 0 (ot_segments t))))] @
           (case ot_provider_request_id t of
              None \<Rightarrow> []
            | Some i \<Rightarrow> [(lit ''provider_request'', JObject [(lit ''id'', JString i)])]))"
  let ?r = "\<lparr>r3_result_id = j, r3_provider = lit (identity_provider ?i), r3_model = lit (identity_model ?i),
      r3_language = lit (identity_language ?i), r3_text = ot_text t, r3_duration_ms = ot_duration_millis t,
      r3_segments = map segment_v3 (enumerate 0 (ot_segments t)),
      r3_provider_request = ot_provider_request_id t\<rparr>"
  note read_simps = field_def optional_field_def only_fields_def
  have read: "result_v3_of_json ul ?body = Some ?r"
    using w(1) job_id_written [OF assms(2), of j]
    by (cases "ot_provider_request_id t")
      (simp_all add: result_v3_of_json_def read_simps provider_request_of_json_def)
  have valid: "validate_v3_result ?r = Ok (transcription_view t)"
    by (rule validate_v3_written [OF assms(1)]) simp_all
  have env: "envelope_v3_of_json ul (serialize_completed_v3 ul ?i j t) =
      Some \<lparr>e3_contract_version = 3, e3_provider = lit (identity_provider ?i), e3_model = lit (identity_model ?i),
        e3_language = lit (identity_language ?i), e3_success = True, e3_status = lit ''completed'',
        e3_job_id = j, e3_next_action = None, e3_retry_after_ms = None, e3_retryable = None,
        e3_error_code = None, e3_result = Some ?r\<rparr>"
    using read job_id_written [OF assms(2), of j]
    by (simp add: envelope_v3_of_json_def serialize_completed_v3_def envelope_v3_def read_simps
        as_bounded_def del: identity_provider.simps identity_model.simps)
  show "parse_v3 ul (serialize_completed_v3 ul ?i j t) StatusOk ?i = Ok (TaskCompleted j (transcription_view t))"
    using valid by (simp add: parse_v3_def env require_identity_def)
  have "collapse ?body = ?body"
    by (rule collapse_object) (use w(2) in \<open>auto split: option.splits\<close>)
  then show "collapse (serialize_completed_v3 ul ?i j t) = serialize_completed_v3 ul ?i j t"
    unfolding serialize_completed_v3_def envelope_v3_def
    by (intro collapse_object) auto
qed

definition pending_state :: "'u uuid_lib \<Rightarrow> 'u \<Rightarrow> NextAction \<Rightarrow> u64 \<Rightarrow> (str \<times> json) list" where
  "pending_state ul j a n =
     [(lit ''success'', JBool True), (lit ''status'', JString (lit ''running'')),
      (lit ''job_id'', JString (uuid_text ul j)),
      (lit ''next_action'', JString (lit (next_action_name a))), (lit ''retry_after_ms'', JNat n)]"

definition failed_state :: "'u uuid_lib \<Rightarrow> 'u \<Rightarrow> str \<Rightarrow> (str \<times> json) list" where
  "failed_state ul j c =
     [(lit ''success'', JBool False), (lit ''status'', JString (lit ''failed'')),
      (lit ''job_id'', JString (uuid_text ul j)), (lit ''retryable'', JBool False),
      (lit ''error_code'', JString c)]"

lemma pending_written:
  assumes "uuid_laws ul" and "n \<le> CB_MAX_RETRY_AFTER_MS"
  shows "parse_v2 ul (JObject (pending_state ul j a n)) StatusAccepted DeepgramNova3MultiV2
      = Ok (TaskPending j a n)"
    and "parse_v3 ul (envelope_v3 ElevenlabsScribeV2MultiV3 (pending_state ul j a n)) StatusAccepted
      ElevenlabsScribeV2MultiV3 = Ok (TaskPending j a n)"
proof -
  note id = job_id_written [OF assms(1), of j]
  show "parse_v2 ul (JObject (pending_state ul j a n)) StatusAccepted DeepgramNova3MultiV2
      = Ok (TaskPending j a n)"
    using id assms(2) by (simp add: parse_v2_def pending_state_def field_def only_fields_def)
  have env: "envelope_v3_of_json ul (envelope_v3 ElevenlabsScribeV2MultiV3 (pending_state ul j a n)) =
      Some \<lparr>e3_contract_version = 3, e3_provider = lit ''elevenlabs'', e3_model = lit ''scribe_v2'',
        e3_language = lit ''multi'', e3_success = True, e3_status = lit ''running'', e3_job_id = j,
        e3_next_action = Some a, e3_retry_after_ms = Some n, e3_retryable = None,
        e3_error_code = None, e3_result = None\<rparr>"
    using id by (simp add: envelope_v3_of_json_def envelope_v3_def pending_state_def field_def
        optional_field_def only_fields_def as_bounded_def identity_language_def)
  show "parse_v3 ul (envelope_v3 ElevenlabsScribeV2MultiV3 (pending_state ul j a n)) StatusAccepted
      ElevenlabsScribeV2MultiV3 = Ok (TaskPending j a n)"
    using assms(2) by (simp add: parse_v3_def env require_identity_def identity_language_def)
qed

lemma failed_written:
  assumes "uuid_laws ul" and "out_validate_error_code c = Ok ()"
  shows "parse_v2 ul (JObject (failed_state ul j c)) StatusOk DeepgramNova3MultiV2 = Ok (TaskFailed j c)"
    and "parse_v3 ul (envelope_v3 ElevenlabsScribeV2MultiV3 (failed_state ul j c)) StatusOk
      ElevenlabsScribeV2MultiV3 = Ok (TaskFailed j c)"
proof -
  note id = job_id_written [OF assms(1), of j]
  have c: "in_validate_error_code c = Ok ()"
    using assms(2) by (simp add: in_validate_error_code_def out_validate_error_code_def)
  show "parse_v2 ul (JObject (failed_state ul j c)) StatusOk DeepgramNova3MultiV2 = Ok (TaskFailed j c)"
    using id c by (simp add: parse_v2_def failed_state_def field_def optional_field_def only_fields_def)
  have env: "envelope_v3_of_json ul (envelope_v3 ElevenlabsScribeV2MultiV3 (failed_state ul j c)) =
      Some \<lparr>e3_contract_version = 3, e3_provider = lit ''elevenlabs'', e3_model = lit ''scribe_v2'',
        e3_language = lit ''multi'', e3_success = False, e3_status = lit ''failed'', e3_job_id = j,
        e3_next_action = None, e3_retry_after_ms = None, e3_retryable = Some False,
        e3_error_code = Some c, e3_result = None\<rparr>"
    using id by (simp add: envelope_v3_of_json_def envelope_v3_def failed_state_def field_def
        optional_field_def only_fields_def as_bounded_def identity_language_def)
  show "parse_v3 ul (envelope_v3 ElevenlabsScribeV2MultiV3 (failed_state ul j c)) StatusOk
      ElevenlabsScribeV2MultiV3 = Ok (TaskFailed j c)"
    using c by (simp add: parse_v3_def env require_identity_def identity_language_def)
qed

lemma states_collapse:
  "collapse (JObject (pending_state ul j a n)) = JObject (pending_state ul j a n)"
  "collapse (envelope_v3 i (pending_state ul j a n)) = envelope_v3 i (pending_state ul j a n)"
  "collapse (JObject (failed_state ul j c)) = JObject (failed_state ul j c)"
  "collapse (envelope_v3 i (failed_state ul j c)) = envelope_v3 i (failed_state ul j c)"
  unfolding envelope_v3_def
  by (rule collapse_object; simp add: pending_state_def failed_state_def)+

lemma response_written:
  assumes "batch_response_json ul i r = Ok (st, v)" and "uuid_laws ul"
    and "\<forall>j t. r = RespCompleted j t \<longrightarrow> ot_readable_segments t = [] \<or> unat (ot_duration_millis t) \<le> 2 ^ 42"
  shows "(case i of DeepgramNova3MultiV2 \<Rightarrow> parse_v2 ul v st i
     | ElevenlabsScribeV2MultiV3 \<Rightarrow> parse_v3 ul v st i) = Ok (task_view r) \<and> collapse v = v"
proof (cases r)
  case (RespPending j a n)
  then have "n \<le> CB_MAX_RETRY_AFTER_MS" "st = StatusAccepted"
    "v = (if i = DeepgramNova3MultiV2 then JObject (pending_state ul j a n)
          else envelope_v3 i (pending_state ul j a n))"
    using assms(1) by (auto simp: batch_response_json_def pending_state_def Let_def)
  then show ?thesis
    using RespPending pending_written [OF assms(2)] states_collapse by (cases i) simp_all
next
  case (RespFailed j c)
  then have "out_validate_error_code c = Ok ()" "st = StatusOk"
    "v = (if i = DeepgramNova3MultiV2 then JObject (failed_state ul j c)
          else envelope_v3 i (failed_state ul j c))"
    using assms(1) by (auto simp: batch_response_json_def failed_state_def Let_def)
  then show ?thesis
    using RespFailed failed_written [OF assms(2)] states_collapse by (cases i) simp_all
next
  case (RespCompleted j t)
  then have ok: "out_validate_result i t = Ok ()" and st: "st = StatusOk"
    and v: "v = (if i = DeepgramNova3MultiV2 then serialize_completed_v2 ul j t
                 else serialize_completed_v3 ul i j t)"
    using assms(1) by (auto simp: batch_response_json_def)
  show ?thesis
  proof (cases i)
    case DeepgramNova3MultiV2
    then show ?thesis
      using completed_v2_written [OF ok [unfolded DeepgramNova3MultiV2] assms(2)] assms(3) RespCompleted st v
      by simp
  next
    case ElevenlabsScribeV2MultiV3
    then show ?thesis
      using completed_v3_written [OF ok [unfolded ElevenlabsScribeV2MultiV3] assms(2)] RespCompleted st v
      by simp
  qed
qed

section \<open>Responses as texts\<close>

lemma response_text:
  assumes "batch_response_json ul i r = Ok (st, v)" and "str_len (to_text jt v) \<le> CB_MAX_BODY_BYTES"
  shows "serialize_response jt ul i r = Ok \<lparr>sbr_status = st, sbr_body = to_text jt v\<rparr>"
  using assms by (simp add: serialize_response_def)

lemma response_text_parts:
  assumes "serialize_response jt ul i r = Ok b"
  obtains st v where "batch_response_json ul i r = Ok (st, v)"
    and "str_len (to_text jt v) \<le> CB_MAX_BODY_BYTES"
    and "b = \<lparr>sbr_status = st, sbr_body = to_text jt v\<rparr>"
  using assms by (auto simp: serialize_response_def)


definition pending_sample :: json where
  "pending_sample = JObject (pending_state sample_uuid_lib () Poll 1000)"

lemma pending_sample_json:
  "batch_response_json sample_uuid_lib DeepgramNova3MultiV2 (RespPending () Poll 1000)
   = Ok (StatusAccepted, pending_sample)"
  by (simp add: batch_response_json_def pending_sample_def pending_state_def CB_MAX_RETRY_AFTER_MS_def)


end
