(* ===== verification/Ogg_Opus.thy ===== *)
theory Ogg_Opus
  imports Prelude
begin

text \<open>
  Validation of complete single-stream Ogg Opus uploads:
  \<^verbatim>\<open>crates/voicetext-audio/src/ogg_opus.rs\<close>. The packet reader of the crate \<open>ogg\<close> is an argument:
  for an input it gives the results of successive \<open>read_packet\<close> calls, up to the first \<open>None\<close>. The
  packet inspection of \<open>libopus\<close> is an argument too.
\<close>

unbundle bit_operations_syntax

section \<open>Constants and data\<close>

definition SAMPLE_RATE_HZ :: u32 where "SAMPLE_RATE_HZ = 48000"
definition MAX_PACKET_BYTES :: usize where "MAX_PACKET_BYTES = 1275"
definition MAX_SAMPLES_PER_PACKET :: usize where "MAX_SAMPLES_PER_PACKET = 5760"
definition MAX_OGG_OPUS_BYTES :: usize where "MAX_OGG_OPUS_BYTES = 64 * 1024 * 1024"
definition MAX_OPUS_TAGS_BYTES :: usize where "MAX_OPUS_TAGS_BYTES = 1024 * 1024"
definition MAX_TAG_FIELD_BYTES :: usize where "MAX_TAG_FIELD_BYTES = 64 * 1024"
definition MAX_TAG_COUNT :: u32 where "MAX_TAG_COUNT = 4096"
definition MAX_PRE_SKIP_SAMPLES :: u16 where "MAX_PRE_SKIP_SAMPLES = 48000"

definition OPUS_HEAD_MAGIC :: "u8 list" where
  "OPUS_HEAD_MAGIC = [79, 112, 117, 115, 72, 101, 97, 100]"

definition OPUS_TAGS_MAGIC :: "u8 list" where
  "OPUS_TAGS_MAGIC = [79, 112, 117, 115, 84, 97, 103, 115]"

definition OGG_MAGIC :: "u8 list" where
  "OGG_MAGIC = [79, 103, 103, 83]"

definition NO_GRANULE_POSITION :: u64 where "NO_GRANULE_POSITION = - 1"

record ValidatedOggOpus =
  vo_pre_skip_samples :: u16
  vo_duration_samples :: u64
  vo_duration_millis :: u64
  vo_audio_packet_count :: u32

datatype OggOpusValidationError =
    InvalidSize | InvalidContainer | InvalidLogicalStream | InvalidIdentificationHeader
  | InvalidCommentHeader | InvalidAudioPacket | InvalidGranulePosition | MissingEndOfStream

record ContainerSummary =
  cs_serial :: u32
  cs_final_granule :: u64

text \<open>What the reader tells about a packet.\<close>

record Packet =
  pk_data :: "u8 list"
  pk_stream_serial :: u32
  pk_first_in_stream :: bool
  pk_last_in_stream :: bool
  pk_first_in_page :: bool
  pk_last_in_page :: bool
  pk_absgp_page :: u64

section \<open>Little-endian integers\<close>

definition from_le_bytes :: "u8 list \<Rightarrow> 'a::len word" where
  "from_le_bytes bs = foldr (\<lambda>b n. ucast b + 256 * n) bs 0"

definition read_u16_le :: "u8 list \<Rightarrow> u16" where
  "read_u16_le bytes = from_le_bytes (take 2 bytes)"

definition read_u32_le :: "u8 list \<Rightarrow> u32" where
  "read_u32_le bytes = from_le_bytes (take 4 bytes)"

definition read_u64_le :: "u8 list \<Rightarrow> u64" where
  "read_u64_le bytes = from_le_bytes (take 8 bytes)"

definition slice :: "usize \<Rightarrow> usize \<Rightarrow> 'a list \<Rightarrow> 'a list" where
  "slice a b xs = take (b - a) (drop a xs)"

text \<open>\<open>offset.checked_add(n).filter(|end| *end <= len)\<close>\<close>

definition end_within :: "usize \<Rightarrow> usize \<Rightarrow> usize \<Rightarrow> usize option" where
  "end_within offset n len =
     (case usize_checked_add offset n of
        Some e \<Rightarrow> if e \<le> len then Some e else None
      | None \<Rightarrow> None)"

section \<open>The container\<close>

record scan_state =
  sc_serial :: "u32 option"
  sc_expected_sequence :: u32
  sc_previous_granule :: u64
  sc_saw_position :: bool
  sc_final_granule :: "u64 option"

definition scan_start :: scan_state where
  "scan_start =
     \<lparr>sc_serial = None, sc_expected_sequence = 0, sc_previous_granule = 0, sc_saw_position = False,
      sc_final_granule = None\<rparr>"

definition scan_serial :: "u32 option \<Rightarrow> u8 \<Rightarrow> u32 \<Rightarrow> (u32, OggOpusValidationError) result" where
  "scan_serial serial flags page_serial =
     (case serial of
        None \<Rightarrow> if flags AND 0x02 \<noteq> 0 \<and> flags AND 0x01 = 0 then Ok page_serial
                else Err InvalidLogicalStream
      | Some value \<Rightarrow> if value = page_serial \<and> flags AND 0x02 = 0 then Ok value
                      else Err InvalidLogicalStream)"

text \<open>One page: the offset after it and the scan state, in the order of the source's checks.\<close>

definition scan_page ::
  "u8 list \<Rightarrow> usize \<Rightarrow> scan_state \<Rightarrow> (usize \<times> scan_state, OggOpusValidationError) result" where
  "scan_page input offset st =
     and_then (ok_or (end_within offset 27 (length input)) InvalidContainer) (\<lambda>header_end.
     let header = slice offset header_end input in
     if take 4 header \<noteq> OGG_MAGIC \<or> header ! 4 \<noteq> 0 \<or> (header ! 5) AND NOT 0x07 \<noteq> 0
     then Err InvalidContainer
     else
     let flags = header ! 5;
         granule = read_u64_le (slice 6 14 header);
         page_serial = read_u32_le (slice 14 18 header);
         sequence = read_u32_le (slice 18 22 header);
         segment_count = unat (header ! 26)
     in
     and_then (ok_or (end_within header_end segment_count (length input)) InvalidContainer) (\<lambda>table_end.
     let segments = slice header_end table_end input;
         body_len = sum_list (map unat segments)
     in
     and_then (ok_or (end_within table_end body_len (length input)) InvalidContainer) (\<lambda>offset'.
     let has_completed_packet = list_ex (\<lambda>v. v < 255) segments in
     if has_completed_packet = (granule = NO_GRANULE_POSITION) then Err InvalidGranulePosition
     else
     and_then (scan_serial (sc_serial st) flags page_serial) (\<lambda>serial.
     if sequence \<noteq> sc_expected_sequence st then Err InvalidContainer
     else
     and_then (ok_or (checked_add (sc_expected_sequence st) 1) InvalidContainer) (\<lambda>expected.
     if granule \<noteq> NO_GRANULE_POSITION \<and> sc_saw_position st \<and> granule < sc_previous_granule st
     then Err InvalidGranulePosition
     else
     let st' = st\<lparr>sc_serial := Some serial, sc_expected_sequence := expected,
                  sc_previous_granule :=
                    (if granule \<noteq> NO_GRANULE_POSITION then granule else sc_previous_granule st),
                  sc_saw_position := (sc_saw_position st \<or> granule \<noteq> NO_GRANULE_POSITION)\<rparr>
     in
     if flags AND 0x04 \<noteq> 0
     then (if offset' \<noteq> length input \<or> granule = NO_GRANULE_POSITION then Err InvalidLogicalStream
           else Ok (offset', st'\<lparr>sc_final_granule := Some granule\<rparr>))
     else Ok (offset', st'))))))"

lemma end_within_Some_iff:
  "end_within offset n len = Some e \<longleftrightarrow> e = offset + n \<and> e < usize_limit \<and> e \<le> len"
  by (auto simp: end_within_def usize_checked_add_def)

lemma scan_page_advances: "scan_page input offset st = Ok (offset', st') \<Longrightarrow> offset + 27 \<le> offset'"
  unfolding scan_page_def and_then_Ok_iff ok_or_Ok_iff Let_def
  by (auto simp: end_within_Some_iff split: if_splits)

function scan_loop ::
  "u8 list \<Rightarrow> usize \<Rightarrow> scan_state \<Rightarrow> (scan_state, OggOpusValidationError) result" where
  "scan_loop input offset st =
     (if offset < length input
      then (case scan_page input offset st of
              Err e \<Rightarrow> Err e
            | Ok (offset', st') \<Rightarrow> scan_loop input offset' st')
      else Ok st)"
  by pat_completeness auto
termination
  by (relation "measure (\<lambda>(input, offset, _). length input - offset)")
    (auto dest!: scan_page_advances)

declare scan_loop.simps [simp del]

definition scan_container :: "u8 list \<Rightarrow> (ContainerSummary, OggOpusValidationError) result" where
  "scan_container input =
     (if input = [] \<or> length input > MAX_OGG_OPUS_BYTES then Err InvalidSize
      else and_then (scan_loop input 0 scan_start) (\<lambda>st.
           and_then (ok_or (sc_serial st) InvalidContainer) (\<lambda>serial.
           and_then (ok_or (sc_final_granule st) MissingEndOfStream) (\<lambda>final_granule.
             Ok \<lparr>cs_serial = serial, cs_final_granule = final_granule\<rparr>))))"

section \<open>Headers\<close>

definition validate_identification_header :: "u8 list \<Rightarrow> (u16, OggOpusValidationError) result" where
  "validate_identification_header data =
     (if length data \<noteq> 19 \<or> take 8 data \<noteq> OPUS_HEAD_MAGIC \<or> data ! 8 \<noteq> 1
         \<or> \<not> (data ! 9 = 1 \<or> data ! 9 = 2) \<or> data ! 18 \<noteq> 0
      then Err InvalidIdentificationHeader
      else let pre_skip = read_u16_le (slice 10 12 data) in
        if pre_skip > MAX_PRE_SKIP_SAMPLES then Err InvalidIdentificationHeader else Ok pre_skip)"

text \<open>The offset is threaded through the calls.\<close>

definition read_u32_at :: "u8 list \<Rightarrow> usize \<Rightarrow> (u32 \<times> usize, OggOpusValidationError) result" where
  "read_u32_at data offset =
     and_then (ok_or (end_within offset 4 (length data)) InvalidCommentHeader) (\<lambda>e.
       Ok (read_u32_le (slice offset e data), e))"

definition read_bounded_tag_length ::
  "u8 list \<Rightarrow> usize \<Rightarrow> (usize \<times> usize, OggOpusValidationError) result" where
  "read_bounded_tag_length data offset =
     and_then (read_u32_at data offset) (\<lambda>(v, offset').
       if unat v > MAX_TAG_FIELD_BYTES then Err InvalidCommentHeader else Ok (unat v, offset'))"

definition skip_field :: "u8 list \<Rightarrow> usize \<Rightarrow> (usize, OggOpusValidationError) result" where
  "skip_field data offset =
     and_then (read_bounded_tag_length data offset) (\<lambda>(len, offset').
       ok_or (end_within offset' len (length data)) InvalidCommentHeader)"

fun skip_comments :: "nat \<Rightarrow> u8 list \<Rightarrow> usize \<Rightarrow> (unit, OggOpusValidationError) result" where
  "skip_comments 0 data offset = Ok ()"
| "skip_comments (Suc n) data offset = and_then (skip_field data offset) (skip_comments n data)"

definition validate_comment_header :: "u8 list \<Rightarrow> (unit, OggOpusValidationError) result" where
  "validate_comment_header data =
     (if length data < 16 \<or> length data > MAX_OPUS_TAGS_BYTES \<or> take 8 data \<noteq> OPUS_TAGS_MAGIC
      then Err InvalidCommentHeader
      else and_then (skip_field data 8) (\<lambda>offset.
           and_then (read_u32_at data offset) (\<lambda>(count, offset').
             if count > MAX_TAG_COUNT then Err InvalidCommentHeader
             else skip_comments (unat count) data offset')))"

section \<open>Audio timing\<close>

type_synonym packet_samples = "u8 list \<Rightarrow> u32 \<Rightarrow> (usize, unit) result"

record AudioTiming =
  at_pre_skip :: u16
  at_packet_count :: u32
  at_page_samples :: u64
  at_previous_page_granule :: "u64 option"
  at_saw_eos :: bool

definition timing_new :: "u16 \<Rightarrow> AudioTiming" where
  "timing_new pre_skip =
     \<lparr>at_pre_skip = pre_skip, at_packet_count = 0, at_page_samples = 0,
      at_previous_page_granule = None, at_saw_eos = False\<rparr>"

definition validate_page_granule ::
  "AudioTiming \<Rightarrow> Packet \<Rightarrow> (AudioTiming, OggOpusValidationError) result" where
  "validate_page_granule self packet =
     (let granule = pk_absgp_page packet in
      if granule = NO_GRANULE_POSITION then Err InvalidGranulePosition
      else and_then
        (case at_previous_page_granule self of
           None \<Rightarrow>
             if pk_last_in_stream packet
             then (if granule < ucast (at_pre_skip self) \<or> granule > at_page_samples self
                   then Err InvalidGranulePosition else Ok ())
             else (if granule \<noteq> at_page_samples self then Err InvalidGranulePosition else Ok ())
         | Some previous \<Rightarrow>
             and_then (ok_or (checked_add previous (at_page_samples self)) InvalidGranulePosition) (\<lambda>maximum.
               if pk_last_in_stream packet \<and> (granule \<le> previous \<or> granule > maximum)
               then Err InvalidGranulePosition
               else if \<not> pk_last_in_stream packet \<and> granule \<noteq> maximum
               then Err InvalidGranulePosition
               else Ok ()))
        (\<lambda>_. Ok (self\<lparr>at_previous_page_granule := Some granule\<rparr>)))"

definition timing_accept ::
  "packet_samples \<Rightarrow> AudioTiming \<Rightarrow> Packet \<Rightarrow> (AudioTiming, OggOpusValidationError) result" where
  "timing_accept get_nb_samples self packet =
     (if at_saw_eos self \<or> pk_data packet = [] \<or> length (pk_data packet) > MAX_PACKET_BYTES
      then Err InvalidAudioPacket
      else and_then (map_err (\<lambda>_. InvalidAudioPacket) (get_nb_samples (pk_data packet) SAMPLE_RATE_HZ))
        (\<lambda>samples.
      if samples = 0 \<or> samples > MAX_SAMPLES_PER_PACKET then Err InvalidAudioPacket
      else
      let page_samples = (if pk_first_in_page packet then 0 else at_page_samples self) in
      and_then (ok_or (checked_add page_samples (of_nat samples)) InvalidGranulePosition) (\<lambda>page_samples'.
      and_then (ok_or (checked_add (at_packet_count self) 1) InvalidAudioPacket) (\<lambda>packet_count.
      let self' = self\<lparr>at_page_samples := page_samples', at_packet_count := packet_count\<rparr> in
      and_then (if pk_last_in_page packet then validate_page_granule self' packet else Ok self')
        (\<lambda>self''. Ok (self''\<lparr>at_saw_eos := pk_last_in_stream packet\<rparr>))))))"

definition timing_finish ::
  "AudioTiming \<Rightarrow> u64 \<Rightarrow> (ValidatedOggOpus, OggOpusValidationError) result" where
  "timing_finish self final_granule =
     (if at_packet_count self = 0 then Err InvalidAudioPacket
      else if \<not> at_saw_eos self then Err MissingEndOfStream
      else if at_previous_page_granule self \<noteq> Some final_granule then Err InvalidGranulePosition
      else
      and_then (ok_or (case checked_sub final_granule (ucast (at_pre_skip self)) of
                         Some duration \<Rightarrow> if duration > 0 then Some duration else None
                       | None \<Rightarrow> None) InvalidGranulePosition) (\<lambda>duration_samples.
      and_then (ok_or (map_option (\<lambda>value. value div ucast SAMPLE_RATE_HZ)
                  (Option.bind (checked_mul duration_samples 1000)
                     (\<lambda>value. checked_add value (ucast SAMPLE_RATE_HZ - 1)))) InvalidGranulePosition)
        (\<lambda>duration_millis.
      Ok \<lparr>vo_pre_skip_samples = at_pre_skip self, vo_duration_samples = duration_samples,
          vo_duration_millis = duration_millis, vo_audio_packet_count = at_packet_count self\<rparr>)))"

section \<open>The whole upload\<close>

type_synonym packet_reader = "u8 list \<Rightarrow> (Packet, unit) result list"

fun next_packet ::
  "(Packet, unit) result list \<Rightarrow> OggOpusValidationError
   \<Rightarrow> (Packet \<times> (Packet, unit) result list, OggOpusValidationError) result" where
  "next_packet [] missing = Err missing"
| "next_packet (Err _ # reader) missing = Err InvalidContainer"
| "next_packet (Ok packet # reader) missing = Ok (packet, reader)"

fun audio_loop ::
  "packet_samples \<Rightarrow> u32 \<Rightarrow> AudioTiming \<Rightarrow> (Packet, unit) result list
   \<Rightarrow> (AudioTiming, OggOpusValidationError) result" where
  "audio_loop get_nb_samples serial timing [] = Ok timing"
| "audio_loop get_nb_samples serial timing (Err _ # reader) = Err InvalidContainer"
| "audio_loop get_nb_samples serial timing (Ok packet # reader) =
     (if pk_stream_serial packet \<noteq> serial \<or> pk_first_in_stream packet then Err InvalidLogicalStream
      else and_then (timing_accept get_nb_samples timing packet)
             (\<lambda>timing'. audio_loop get_nb_samples serial timing' reader))"

definition validate_complete_ogg_opus ::
  "packet_reader \<Rightarrow> packet_samples \<Rightarrow> u8 list \<Rightarrow> (ValidatedOggOpus, OggOpusValidationError) result" where
  "validate_complete_ogg_opus read_packets get_nb_samples input =
     and_then (scan_container input) (\<lambda>container.
     and_then (next_packet (read_packets input) InvalidIdentificationHeader) (\<lambda>(head, reader).
     if pk_stream_serial head \<noteq> cs_serial container \<or> \<not> pk_first_in_stream head
        \<or> \<not> pk_first_in_page head \<or> \<not> pk_last_in_page head \<or> pk_last_in_stream head
        \<or> pk_absgp_page head \<noteq> 0
     then Err InvalidIdentificationHeader
     else and_then (validate_identification_header (pk_data head)) (\<lambda>pre_skip.
     and_then (next_packet reader InvalidCommentHeader) (\<lambda>(tags, reader').
     if pk_stream_serial tags \<noteq> cs_serial container \<or> pk_first_in_stream tags
        \<or> \<not> pk_last_in_page tags \<or> pk_last_in_stream tags \<or> pk_absgp_page tags \<noteq> 0
     then Err InvalidCommentHeader
     else and_then (validate_comment_header (pk_data tags)) (\<lambda>_.
     and_then (audio_loop get_nb_samples (cs_serial container) (timing_new pre_skip) reader') (\<lambda>timing.
       timing_finish timing (cs_final_granule container)))))))"

section \<open>Where the duration comes from\<close>

fun ok_values :: "('a, 'e) result list \<Rightarrow> 'a list" where
  "ok_values [] = []"
| "ok_values (Ok x # rs) = x # ok_values rs"
| "ok_values (Err _ # rs) = []"

definition samples_of :: "packet_samples \<Rightarrow> Packet \<Rightarrow> nat" where
  "samples_of nb p = (case nb (pk_data p) SAMPLE_RATE_HZ of Ok n \<Rightarrow> n | Err _ \<Rightarrow> 0)"

definition total_samples :: "packet_samples \<Rightarrow> Packet list \<Rightarrow> nat" where
  "total_samples nb ps = sum_list (map (samples_of nb) ps)"

text \<open>The packets of the pages that are complete in a prefix of the stream.\<close>

definition completed :: "Packet list \<Rightarrow> Packet list" where
  "completed ps = rev (dropWhile (\<lambda>p. \<not> pk_last_in_page p) (rev ps))"

text \<open>What the reader documents about pages: the packet after the last one of a page is the first
  one of its page.\<close>

definition page_framed :: "Packet list \<Rightarrow> bool" where
  "page_framed ps \<longleftrightarrow> successively (\<lambda>p q. pk_first_in_page q = pk_last_in_page p) ps"

lemma completed_simps [simp]:
  "completed [] = []"
  "completed (ps @ [p]) = (if pk_last_in_page p then ps @ [p] else completed ps)"
  by (simp_all add: completed_def)

lemma total_samples_simps [simp]:
  "total_samples nb [] = 0"
  "total_samples nb (ps @ qs) = total_samples nb ps + total_samples nb qs"
  "total_samples nb (p # ps) = samples_of nb p + total_samples nb ps"
  by (simp_all add: total_samples_def)

lemma completed_le: "total_samples nb (completed ps) \<le> total_samples nb ps"
  by (induction ps rule: rev_induct) auto

definition granule_of :: "AudioTiming \<Rightarrow> nat" where
  "granule_of t = (case at_previous_page_granule t of None \<Rightarrow> 0 | Some g \<Rightarrow> unat g)"

definition timing_inv :: "packet_samples \<Rightarrow> u16 \<Rightarrow> Packet list \<Rightarrow> AudioTiming \<Rightarrow> bool" where
  "timing_inv nb pre ps t \<longleftrightarrow>
     at_pre_skip t = pre \<and> unat (at_packet_count t) = length ps \<and>
     at_saw_eos t = (ps \<noteq> [] \<and> pk_last_in_stream (last ps)) \<and>
     list_all (\<lambda>p. 0 < samples_of nb p \<and> samples_of nb p \<le> MAX_SAMPLES_PER_PACKET) ps \<and>
     (if at_saw_eos t
      then total_samples nb (completed (butlast ps)) \<le> granule_of t \<and>
           granule_of t \<le> total_samples nb ps
      else granule_of t = total_samples nb (completed ps) \<and>
           (ps = [] \<or> \<not> pk_last_in_page (last ps) \<longrightarrow>
              granule_of t + unat (at_page_samples t) = total_samples nb ps))"

lemma timing_inv_new [simp]: "timing_inv nb pre [] (timing_new pre)"
  by (simp add: timing_inv_def timing_new_def granule_of_def)

lemma validate_page_granule_Ok:
  assumes "validate_page_granule t p = Ok t'"
  shows "t' = t\<lparr>at_previous_page_granule := Some (pk_absgp_page p)\<rparr>"
    and "if pk_last_in_stream p
         then granule_of t \<le> granule_of t' \<and> granule_of t' \<le> granule_of t + unat (at_page_samples t)
         else granule_of t' = granule_of t + unat (at_page_samples t)"
  using assms
  by (auto simp: validate_page_granule_def Let_def granule_of_def word_le_nat_alt word_less_nat_alt
      word_unat_eq_iff split: option.splits if_splits dest!: checked_add_SomeD(2))

text \<open>The parts of an accepted packet.\<close>

lemma timing_accept_parts:
  assumes "timing_accept nb t p = Ok t'"
  obtains ps' pc t2 where
    "\<not> at_saw_eos t" and "0 < samples_of nb p" and "samples_of nb p \<le> MAX_SAMPLES_PER_PACKET"
    and "unat ps' = (if pk_first_in_page p then 0 else unat (at_page_samples t)) + samples_of nb p"
    and "unat pc = unat (at_packet_count t) + 1"
    and "(if pk_last_in_page p
          then validate_page_granule (t\<lparr>at_page_samples := ps', at_packet_count := pc\<rparr>) p = Ok t2
          else t2 = t\<lparr>at_page_samples := ps', at_packet_count := pc\<rparr>)"
    and "t' = t2\<lparr>at_saw_eos := pk_last_in_stream p\<rparr>"
proof -
  let ?base = "if pk_first_in_page p then 0 else at_page_samples t"
  from assms obtain n ps' pc t2 where eos: "\<not> at_saw_eos t"
    and nb: "nb (pk_data p) SAMPLE_RATE_HZ = Ok n" and n: "n \<noteq> 0" "n \<le> MAX_SAMPLES_PER_PACKET"
    and ps': "checked_add ?base (of_nat n) = Some ps'" and pc: "checked_add (at_packet_count t) 1 = Some pc"
    and t2: "(if pk_last_in_page p
          then validate_page_granule (t\<lparr>at_page_samples := ps', at_packet_count := pc\<rparr>) p
          else Ok (t\<lparr>at_page_samples := ps', at_packet_count := pc\<rparr>)) = Ok t2"
    and t': "t' = t2\<lparr>at_saw_eos := pk_last_in_stream p\<rparr>"
    by (cases "pk_last_in_page p"; cases "pk_first_in_page p";
        auto simp: timing_accept_def Let_def split: if_splits)
  have "unat (of_nat n :: u64) = n" using n by (simp add: MAX_SAMPLES_PER_PACKET_def unat_of_nat)
  then show ?thesis
    using that [of ps' pc t2] eos nb n checked_add_SomeD(2) [OF ps'] checked_add_SomeD(2) [OF pc] t2 t'
    by (auto simp: samples_of_def split: if_splits)
qed

lemma timing_accept_inv:
  assumes acc: "timing_accept nb t p = Ok t'" and inv: "timing_inv nb pre ps t"
    and framed: "ps \<noteq> [] \<Longrightarrow> pk_first_in_page p = pk_last_in_page (last ps)"
  shows "timing_inv nb pre (ps @ [p]) t'"
proof -
  obtain ps' pc t2 where eos: "\<not> at_saw_eos t"
    and n: "0 < samples_of nb p" "samples_of nb p \<le> MAX_SAMPLES_PER_PACKET"
    and ps': "unat ps' = (if pk_first_in_page p then 0 else unat (at_page_samples t)) + samples_of nb p"
    and pc: "unat pc = unat (at_packet_count t) + 1"
    and t2: "(if pk_last_in_page p
          then validate_page_granule (t\<lparr>at_page_samples := ps', at_packet_count := pc\<rparr>) p = Ok t2
          else t2 = t\<lparr>at_page_samples := ps', at_packet_count := pc\<rparr>)"
    and t': "t' = t2\<lparr>at_saw_eos := pk_last_in_stream p\<rparr>"
    using acc by (rule timing_accept_parts)
  have g: "granule_of t = total_samples nb (completed ps)"
    and open_page: "ps = [] \<or> \<not> pk_last_in_page (last ps) \<Longrightarrow>
      granule_of t + unat (at_page_samples t) = total_samples nb ps"
    using inv eos by (auto simp: timing_inv_def)
  have closed: "completed ps = ps" if "ps \<noteq> []" "pk_last_in_page (last ps)"
    using that by (cases ps rule: rev_cases) auto
  have page: "granule_of t + unat ps' = total_samples nb (ps @ [p])"
  proof (cases "ps = []")
    case True
    with g open_page ps' show ?thesis by (simp add: completed_def split: if_splits)
  next
    case False
    then show ?thesis
      using g open_page framed [OF False] closed [OF False] ps' by (cases "pk_last_in_page (last ps)") simp_all
  qed
  show ?thesis
  proof (cases "pk_last_in_page p")
    case True
    then have v: "validate_page_granule (t\<lparr>at_page_samples := ps', at_packet_count := pc\<rparr>) p = Ok t2"
      using t2 by simp
    show ?thesis
      using inv n pc t' True g page validate_page_granule_Ok [OF v]
      by (auto simp: timing_inv_def granule_of_def split: if_splits)
  next
    case False
    then have "t' = t\<lparr>at_page_samples := ps', at_packet_count := pc, at_saw_eos := pk_last_in_stream p\<rparr>"
      using t2 t' by simp
    then show ?thesis
      using inv n pc False g page completed_le [of nb ps]
      by (auto simp: timing_inv_def granule_of_def split: if_splits)
  qed
qed

lemma audio_loop_inv:
  "audio_loop nb serial t rs = Ok t' \<Longrightarrow> timing_inv nb pre ps t \<Longrightarrow> page_framed (ps @ ok_values rs) \<Longrightarrow>
     timing_inv nb pre (ps @ ok_values rs) t'"
proof (induction nb serial t rs arbitrary: ps rule: audio_loop.induct)
  case (3 nb serial t p rs)
  then obtain t1 where acc: "timing_accept nb t p = Ok t1" and rest: "audio_loop nb serial t1 rs = Ok t'"
    and ok: "\<not> (pk_stream_serial p \<noteq> serial \<or> pk_first_in_stream p)"
    by (auto split: if_splits)
  have "timing_inv nb pre (ps @ [p]) t1"
    using acc 3(3) by (rule timing_accept_inv)
      (use 3(4) in \<open>auto simp: page_framed_def successively_append_iff\<close>)
  from 3(1) [OF ok rest this] 3(4) show ?case by simp
qed auto

lemma ceil_millis:
  assumes "checked_mul (d :: u64) 1000 = Some a" and "checked_add a (ucast SAMPLE_RATE_HZ - 1) = Some b"
  shows "unat (b div ucast SAMPLE_RATE_HZ) = (unat d * 1000 + 47999) div 48000"
  using checked_mul_SomeD [OF assms(1)] checked_add_SomeD(2) [OF assms(2)]
  by (simp add: SAMPLE_RATE_HZ_def unat_div)

lemma timing_finish_Ok:
  assumes "timing_finish t final = Ok v"
  shows "at_saw_eos t" and "at_previous_page_granule t = Some final"
    and "vo_pre_skip_samples v = at_pre_skip t" and "vo_audio_packet_count v = at_packet_count t"
    and "unat final = unat (at_pre_skip t) + unat (vo_duration_samples v)"
    and "0 < unat (vo_duration_samples v)"
    and "unat (vo_duration_millis v) = (unat (vo_duration_samples v) * 1000 + 47999) div 48000"
proof -
  from assms obtain d a b where eos: "at_saw_eos t" and pg: "at_previous_page_granule t = Some final"
    and d: "checked_sub final (ucast (at_pre_skip t)) = Some d" "0 < d"
    and m: "checked_mul d 1000 = Some a" "checked_add a (ucast SAMPLE_RATE_HZ - 1) = Some b"
    and v: "v = \<lparr>vo_pre_skip_samples = at_pre_skip t, vo_duration_samples = d,
      vo_duration_millis = b div ucast SAMPLE_RATE_HZ, vo_audio_packet_count = at_packet_count t\<rparr>"
    by (auto simp: timing_finish_def Option.bind_eq_Some_conv split: if_splits option.splits)
  have "unat (ucast (at_pre_skip t) :: u64) = unat (at_pre_skip t)" by (rule unat_ucast_widen) simp
  moreover have "0 < unat d" using d(2) by (simp add: word_less_nat_alt)
  ultimately show "at_saw_eos t" "at_previous_page_granule t = Some final"
    "vo_pre_skip_samples v = at_pre_skip t" "vo_audio_packet_count v = at_packet_count t"
    "unat final = unat (at_pre_skip t) + unat (vo_duration_samples v)"
    "0 < unat (vo_duration_samples v)"
    "unat (vo_duration_millis v) = (unat (vo_duration_samples v) * 1000 + 47999) div 48000"
    using eos pg v checked_sub_SomeD [OF d(1)] ceil_millis [OF m]
    by (simp_all add: word_le_nat_alt)
qed

lemma validate_ogg_parts:
  assumes "validate_complete_ogg_opus rd nb input = Ok v"
  obtains container head tags reader pre t where "scan_container input = Ok container"
    and "rd input = Ok head # Ok tags # reader"
    and "audio_loop nb (cs_serial container) (timing_new pre) reader = Ok t"
    and "timing_finish t (cs_final_granule container) = Ok v"
proof -
  have next_Ok: "rs = Ok p # rs'" if "next_packet rs e = Ok (p, rs')" for rs e p rs'
    using that by (cases "(rs, e)" rule: next_packet.cases) auto
  from assms obtain container head reader0 tags reader pre t
    where "scan_container input = Ok container"
      "next_packet (rd input) InvalidIdentificationHeader = Ok (head, reader0)"
      "next_packet reader0 InvalidCommentHeader = Ok (tags, reader)"
      "audio_loop nb (cs_serial container) (timing_new pre) reader = Ok t"
      "timing_finish t (cs_final_granule container) = Ok v"
    by (auto simp: validate_complete_ogg_opus_def split: if_splits)
  then show ?thesis using that next_Ok by blast
qed

text \<open>C33: The authoritative duration of an accepted upload is the audio that is in it. Pre-skip plus
  duration lies between the samples of all audio packets on the pages before the last one and the
  samples of all audio packets: only the final page may be trimmed, nothing can be claimed that is
  not there. The duration is positive, every packet carries at most 5760 samples, the packet count
  is the number of audio packets, and the milliseconds are the duration rounded up. The reader is
  assumed to flag a packet as the first of a page exactly when the one before it ended its page.\<close>

theorem ogg_duration_is_audio:
  assumes "validate_complete_ogg_opus rd nb input = Ok v"
    and "page_framed (drop 2 (ok_values (rd input)))"
  shows "total_samples nb (completed (butlast (drop 2 (ok_values (rd input)))))
           \<le> unat (vo_pre_skip_samples v) + unat (vo_duration_samples v) \<and>
         unat (vo_pre_skip_samples v) + unat (vo_duration_samples v)
           \<le> total_samples nb (drop 2 (ok_values (rd input))) \<and>
         total_samples nb (drop 2 (ok_values (rd input))) \<le> 5760 * unat (vo_audio_packet_count v) \<and>
         unat (vo_audio_packet_count v) = length (drop 2 (ok_values (rd input))) \<and>
         0 < unat (vo_duration_samples v) \<and>
         unat (vo_duration_millis v) = (unat (vo_duration_samples v) * 1000 + 47999) div 48000"
proof -
  obtain container head tags reader pre t
    where scan: "scan_container input = Ok container" and rd: "rd input = Ok head # Ok tags # reader"
      and loop: "audio_loop nb (cs_serial container) (timing_new pre) reader = Ok t"
      and fin: "timing_finish t (cs_final_granule container) = Ok v"
    using assms(1) by (rule validate_ogg_parts)
  have inv: "timing_inv nb pre (ok_values reader) t"
    using audio_loop_inv [OF loop timing_inv_new] assms(2) rd by simp
  have "total_samples nb ps \<le> 5760 * length ps" if "\<forall>p \<in> set ps. samples_of nb p \<le> 5760" for ps
    using that by (induction ps) auto
  then show ?thesis
    using inv timing_finish_Ok [OF fin] rd
    by (auto simp: timing_inv_def granule_of_def list_all_iff MAX_SAMPLES_PER_PACKET_def)
qed

text \<open>A one-page container, and a reader that finds the two headers and two packets of 20 ms in it.\<close>

definition sample_ogg :: "u8 list" where
  "sample_ogg =
     OGG_MAGIC @ [0, 6] @ [128, 7, 0, 0, 0, 0, 0, 0] @ [9, 0, 0, 0] @ [0, 0, 0, 0] @ [0, 0, 0, 0] @ [1] @ [0]"

definition sample_head :: "u8 list" where
  "sample_head = OPUS_HEAD_MAGIC @ [1, 1, 0x38, 0x01, 0x80, 0xBB, 0, 0, 0, 0, 0]"

definition sample_tags :: "u8 list" where
  "sample_tags = OPUS_TAGS_MAGIC @ [0, 0, 0, 0] @ [0, 0, 0, 0]"

definition sample_reader :: packet_reader where
  "sample_reader _ =
     [Ok \<lparr>pk_data = sample_head, pk_stream_serial = 9, pk_first_in_stream = True,
          pk_last_in_stream = False, pk_first_in_page = True, pk_last_in_page = True, pk_absgp_page = 0\<rparr>,
      Ok \<lparr>pk_data = sample_tags, pk_stream_serial = 9, pk_first_in_stream = False,
          pk_last_in_stream = False, pk_first_in_page = True, pk_last_in_page = True, pk_absgp_page = 0\<rparr>,
      Ok \<lparr>pk_data = [252], pk_stream_serial = 9, pk_first_in_stream = False,
          pk_last_in_stream = False, pk_first_in_page = True, pk_last_in_page = False, pk_absgp_page = 1920\<rparr>,
      Ok \<lparr>pk_data = [252], pk_stream_serial = 9, pk_first_in_stream = False,
          pk_last_in_stream = True, pk_first_in_page = False, pk_last_in_page = True, pk_absgp_page = 1920\<rparr>]"

lemma sample_ogg_scanned: "scan_container sample_ogg = Ok \<lparr>cs_serial = 9, cs_final_granule = 1920\<rparr>"
proof -
  have "scan_page sample_ogg 0 scan_start =
      Ok (28, \<lparr>sc_serial = Some 9, sc_expected_sequence = 1, sc_previous_granule = 1920,
        sc_saw_position = True, sc_final_granule = Some 1920\<rparr>)"
    by (simp add: scan_page_def sample_ogg_def OGG_MAGIC_def end_within_def usize_checked_add_def
        usize_limit_def slice_def Let_def read_u64_le_def read_u32_le_def from_le_bytes_def
        NO_GRANULE_POSITION_def scan_serial_def scan_start_def checked_add_def)
  then have "scan_loop sample_ogg 0 scan_start =
      Ok \<lparr>sc_serial = Some 9, sc_expected_sequence = 1, sc_previous_granule = 1920,
        sc_saw_position = True, sc_final_granule = Some 1920\<rparr>"
    by (simp add: scan_loop.simps sample_ogg_def OGG_MAGIC_def)
  then show ?thesis by (simp add: scan_container_def sample_ogg_def OGG_MAGIC_def MAX_OGG_OPUS_BYTES_def)
qed

lemma sample_headers:
  "validate_identification_header sample_head = Ok 312" "validate_comment_header sample_tags = Ok ()"
  by (simp_all add: validate_identification_header_def validate_comment_header_def sample_head_def
      sample_tags_def OPUS_HEAD_MAGIC_def OPUS_TAGS_MAGIC_def slice_def read_u16_le_def read_u32_le_def
      from_le_bytes_def MAX_PRE_SKIP_SAMPLES_def MAX_OPUS_TAGS_BYTES_def skip_field_def
      read_bounded_tag_length_def read_u32_at_def end_within_def usize_checked_add_def usize_limit_def
      MAX_TAG_COUNT_def word_less_nat_alt)

lemma sample_ogg_validates:
  "validate_complete_ogg_opus sample_reader (\<lambda>_ _. Ok 960) sample_ogg =
     Ok \<lparr>vo_pre_skip_samples = 312, vo_duration_samples = 1608, vo_duration_millis = 34,
         vo_audio_packet_count = 2\<rparr>"
  by (simp add: validate_complete_ogg_opus_def sample_ogg_scanned sample_headers sample_reader_def
      timing_new_def timing_accept_def validate_page_granule_def timing_finish_def Let_def
      MAX_PACKET_BYTES_def MAX_SAMPLES_PER_PACKET_def NO_GRANULE_POSITION_def rust_arith
      SAMPLE_RATE_HZ_def)

theorem ogg_duration_is_audio_witness:
  "\<exists>v. validate_complete_ogg_opus sample_reader (\<lambda>_ _. Ok 960) sample_ogg = Ok v \<and>
     unat (vo_pre_skip_samples v) + unat (vo_duration_samples v) \<le> 1920"
proof -
  have "page_framed (drop 2 (ok_values (sample_reader sample_ogg)))"
    by (simp add: sample_reader_def page_framed_def)
  moreover have "total_samples (\<lambda>_ _. Ok 960) (drop 2 (ok_values (sample_reader sample_ogg))) = 1920"
    by (simp add: sample_reader_def samples_of_def)
  ultimately show ?thesis
    using ogg_duration_is_audio [OF sample_ogg_validates] sample_ogg_validates
    by (metis (no_types, lifting))
qed

end
