(* ===== verification/Ogg_Container.thy ===== *)
theory Ogg_Container
  imports Ogg_Opus
begin

text \<open>
  What the container scan of an upload accepts, stated without offsets: a reference definition of
  Ogg pages and of a chain of pages that is one logical stream, and the proof that the scan of
  \<^verbatim>\<open>ogg_opus.rs\<close> accepts exactly the concatenations of such pages.
\<close>

section \<open>Pages and their bytes\<close>

fun le_digits :: "nat \<Rightarrow> nat \<Rightarrow> u8 list" where
  "le_digits 0 k = []"
| "le_digits (Suc n) k = of_nat k # le_digits n (k div 256)"

definition le_bytes :: "nat \<Rightarrow> 'a::len word \<Rightarrow> u8 list" where
  "le_bytes n w = le_digits n (unat w)"

record Page =
  pg_flags :: u8
  pg_granule :: u64
  pg_serial :: u32
  pg_sequence :: u32
  pg_checksum :: "u8 list"
  pg_segments :: "u8 list"
  pg_body :: "u8 list"

definition page_bytes :: "Page \<Rightarrow> u8 list" where
  "page_bytes pg =
     OGG_MAGIC @ [0, pg_flags pg] @ le_bytes 8 (pg_granule pg) @ le_bytes 4 (pg_serial pg)
     @ le_bytes 4 (pg_sequence pg) @ pg_checksum pg @ [of_nat (length (pg_segments pg))]
     @ pg_segments pg @ pg_body pg"

definition positioned :: "Page \<Rightarrow> bool" where
  "positioned pg \<longleftrightarrow> pg_granule pg \<noteq> NO_GRANULE_POSITION"

definition wf_page :: "Page \<Rightarrow> bool" where
  "wf_page pg \<longleftrightarrow>
     pg_flags pg AND NOT 0x07 = 0 \<and> length (pg_checksum pg) = 4 \<and> length (pg_segments pg) < 256 \<and>
     length (pg_body pg) = sum_list (map unat (pg_segments pg)) \<and>
     (positioned pg \<longleftrightarrow> (\<exists>v \<in> set (pg_segments pg). v < 255))"

lemma length_le_digits [simp]: "length (le_digits n k) = n"
  by (induction n k rule: le_digits.induct) auto

lemma length_le_bytes [simp]: "length (le_bytes n w) = n"
  by (simp add: le_bytes_def)

fun le_value :: "u8 list \<Rightarrow> nat" where
  "le_value [] = 0"
| "le_value (b # bs) = unat b + 256 * le_value bs"

lemma le_value_bound: "le_value bs < 256 ^ length bs"
proof (induction bs)
  case (Cons b bs)
  have "unat b < 256" using unsigned_less [of b, where 'a = nat] by simp
  with Cons show ?case by simp
qed simp

lemma le_digits_value: "le_digits (length bs) (le_value bs) = bs"
proof (induction bs)
  case (Cons b bs)
  have b: "unat b < 256" using unsigned_less [of b, where 'a = nat] by simp
  have "(of_nat (unat b + 256 * le_value bs) :: u8) = of_nat (unat b) + of_nat 256 * of_nat (le_value bs)"
    by (simp only: of_nat_add of_nat_mult)
  also have "(of_nat 256 :: u8) = 0" by simp
  finally show ?case using Cons b by simp
qed simp

lemma le_value_digits: "le_value (le_digits n k) = k mod 256 ^ n"
proof (induction n k rule: le_digits.induct)
  case (2 n k)
  have "unat (of_nat k :: u8) = k mod 256" by (simp add: unat_of_nat)
  then show ?case using 2 by (simp add: mod_mult2_eq)
qed simp

lemma from_le_bytes_value: "(from_le_bytes bs :: 'a::len word) = of_nat (le_value bs)"
proof (induction bs)
  case (Cons b bs)
  have "(ucast b :: 'a word) = of_nat (unat b)" by simp
  with Cons show ?case by (simp add: from_le_bytes_def)
qed (simp add: from_le_bytes_def)

lemma from_le_bytes_written:
  assumes "LENGTH('a) = 8 * n"
  shows "from_le_bytes (le_bytes n (w :: 'a::len word)) = w"
proof -
  have "(256 :: nat) ^ n = 2 ^ LENGTH('a)" using assms by (simp add: power_mult)
  then have "unat w mod 256 ^ n = unat w" using unsigned_less [of w, where 'a = nat] by simp
  then show ?thesis by (simp add: le_bytes_def from_le_bytes_value le_value_digits)
qed

lemma le_bytes_read:
  assumes "LENGTH('a) = 8 * n" and "length bs = n"
  shows "le_bytes n (from_le_bytes bs :: 'a::len word) = bs"
proof -
  have "(256 :: nat) ^ n = 2 ^ LENGTH('a)" using assms(1) by (simp add: power_mult)
  then have "le_value bs < 2 ^ LENGTH('a)" using le_value_bound [of bs] assms(2) by simp
  then have "unat (of_nat (le_value bs) :: 'a word) = le_value bs" by (simp add: unat_of_nat)
  then show ?thesis using le_digits_value [of bs] assms(2) by (simp add: le_bytes_def from_le_bytes_value)
qed

section \<open>A page at an offset\<close>

text \<open>What the scan does with a page once it is cut out of the input.\<close>

definition page_step :: "bool \<Rightarrow> scan_state \<Rightarrow> Page \<Rightarrow> (scan_state, OggOpusValidationError) result" where
  "page_step at_end st pg =
     and_then (scan_serial (sc_serial st) (pg_flags pg) (pg_serial pg)) (\<lambda>serial.
     if pg_sequence pg \<noteq> sc_expected_sequence st then Err InvalidContainer
     else
     and_then (ok_or (checked_add (sc_expected_sequence st) 1) InvalidContainer) (\<lambda>expected.
     if positioned pg \<and> sc_saw_position st \<and> pg_granule pg < sc_previous_granule st
     then Err InvalidGranulePosition
     else
     let st' = st\<lparr>sc_serial := Some serial, sc_expected_sequence := expected,
                  sc_previous_granule := (if positioned pg then pg_granule pg else sc_previous_granule st),
                  sc_saw_position := (sc_saw_position st \<or> positioned pg)\<rparr>
     in
     if pg_flags pg AND 0x04 \<noteq> 0
     then (if \<not> at_end \<or> \<not> positioned pg then Err InvalidLogicalStream
           else Ok (st'\<lparr>sc_final_granule := Some (pg_granule pg)\<rparr>))
     else Ok st'))"

lemma page_header:
  assumes "wf_page pg"
  shows "take 4 (page_bytes pg @ post) = OGG_MAGIC" and "(page_bytes pg @ post) ! 4 = 0"
    and "(page_bytes pg @ post) ! 5 = pg_flags pg"
    and "slice 6 14 (page_bytes pg @ post) = le_bytes 8 (pg_granule pg)"
    and "slice 14 18 (page_bytes pg @ post) = le_bytes 4 (pg_serial pg)"
    and "slice 18 22 (page_bytes pg @ post) = le_bytes 4 (pg_sequence pg)"
    and "unat ((page_bytes pg @ post) ! 26) = length (pg_segments pg)"
    and "slice 27 (27 + length (pg_segments pg)) (page_bytes pg @ post) = pg_segments pg"
    and "length (page_bytes pg) = 27 + length (pg_segments pg) + sum_list (map unat (pg_segments pg))"
  using assms
  by (simp_all add: page_bytes_def wf_page_def OGG_MAGIC_def slice_def nth_append unat_of_nat)

lemma slice_take: "b \<le> n \<Longrightarrow> slice a b (take n xs) = slice a b xs"
  by (simp add: slice_def drop_take min_def)

lemma drop_split: "a \<le> b \<Longrightarrow> drop a xs = slice a b xs @ drop b xs"
  by (simp add: slice_def) (metis append_take_drop_id drop_drop le_add_diff_inverse2)

lemma slice_drop: "slice (offset + a) (offset + b) xs = slice a b (drop offset xs)"
  by (simp add: slice_def add.commute)

lemma length_slice: "b \<le> length xs \<Longrightarrow> length (slice a b xs) = b - a"
  by (simp add: slice_def)

text \<open>The checks of one iteration, over the input from the offset on.\<close>

definition cut_ok :: "u8 list \<Rightarrow> bool" where
  "cut_ok xs \<longleftrightarrow>
     27 \<le> length xs \<and> take 4 xs = OGG_MAGIC \<and> xs ! 4 = 0 \<and> (xs ! 5) AND NOT 0x07 = 0 \<and>
     27 + unat (xs ! 26) \<le> length xs \<and>
     27 + unat (xs ! 26) + sum_list (map unat (slice 27 (27 + unat (xs ! 26)) xs)) \<le> length xs"

definition page_at :: "u8 list \<Rightarrow> Page" where
  "page_at xs =
     (let n = unat (xs ! 26); segments = slice 27 (27 + n) xs in
      \<lparr>pg_flags = xs ! 5, pg_granule = read_u64_le (slice 6 14 xs), pg_serial = read_u32_le (slice 14 18 xs),
       pg_sequence = read_u32_le (slice 18 22 xs), pg_checksum = slice 22 26 xs,
       pg_segments = segments,
       pg_body = slice (27 + n) (27 + n + sum_list (map unat segments)) xs\<rparr>)"

lemma scan_page_cut:
  assumes "cut_ok (drop offset input)" and "length input < usize_limit" and "offset \<le> length input"
  shows "scan_page input offset st =
     (let pg = page_at (drop offset input); end_at = offset + 27 + length (pg_segments pg) + length (pg_body pg) in
      if positioned pg \<noteq> (\<exists>v \<in> set (pg_segments pg). v < 255) then Err InvalidGranulePosition
      else map_ok (\<lambda>st'. (end_at, st')) (page_step (end_at = length input) st pg))"
proof -
  let ?xs = "drop offset input"
  let ?n = "unat (?xs ! 26)"
  let ?segments = "slice 27 (27 + ?n) ?xs"
  let ?body = "sum_list (map unat ?segments)"
  have len: "offset + 27 \<le> length input" "offset + 27 + ?n \<le> length input"
    "offset + 27 + ?n + ?body \<le> length input"
    using assms(1,3) by (auto simp: cut_ok_def)
  have header: "slice offset (offset + 27) input = take 27 ?xs" by (simp add: slice_def)
  have segs: "slice (offset + 27) (offset + 27 + ?n) input = ?segments"
    using slice_drop [of offset 27 "27 + ?n" input] by (simp add: add.assoc)
  have sizes: "length ?segments = ?n" "length (slice (27 + ?n) (27 + ?n + ?body) ?xs) = ?body"
    using len by (simp_all add: length_slice)
  have ends: "end_within offset 27 (length input) = Some (offset + 27)"
    "end_within (offset + 27) ?n (length input) = Some (offset + 27 + ?n)"
    "end_within (offset + 27 + ?n) ?body (length input) = Some (offset + 27 + ?n + ?body)"
    using len assms(2) by (simp_all add: end_within_Some_iff)
  show ?thesis
    using assms(1) unfolding cut_ok_def scan_page_def
    by (cases "scan_serial (sc_serial st) (?xs ! 5) (read_u32_le (slice 14 18 ?xs))";
        cases "checked_add (sc_expected_sequence st) 1";
        auto simp: ends header segs slice_take page_at_def Let_def positioned_def page_step_def sizes
          list_ex_iff)
qed

lemma scan_page_Ok_cut:
  assumes "scan_page input offset st = Ok r"
  shows "cut_ok (drop offset input)" and "offset \<le> length input"
proof -
  let ?xs = "drop offset input"
  from assms have a: "offset + 27 \<le> length input" "take 4 (take 27 ?xs) = OGG_MAGIC" "take 27 ?xs ! 4 = 0"
    "(take 27 ?xs ! 5) AND NOT 0x07 = 0"
    by (auto simp: scan_page_def end_within_Some_iff Let_def slice_def split: if_splits)
  have h: "slice offset (offset + 27) input = take 27 ?xs" by (simp add: slice_def)
  have segs: "slice (offset + 27) (offset + 27 + n) input = slice 27 (27 + n) ?xs" for n
    using slice_drop [of offset 27 "27 + n" input] by (simp add: add.assoc)
  from assms a have "offset + 27 + unat (?xs ! 26) \<le> length input"
    "offset + 27 + unat (?xs ! 26) + sum_list (map unat (slice 27 (27 + unat (?xs ! 26)) ?xs)) \<le> length input"
    by (auto simp: scan_page_def end_within_Some_iff Let_def h segs split: if_splits)
  with a show "cut_ok ?xs" "offset \<le> length input" by (auto simp: cut_ok_def)
qed

lemma page_at_printed:
  assumes "wf_page pg"
  shows "cut_ok (page_bytes pg @ post)" and "page_at (page_bytes pg @ post) = pg"
proof -
  let ?xs = "page_bytes pg @ post"
  have c: "slice 22 26 ?xs = pg_checksum pg" and tail: "drop 27 ?xs = pg_segments pg @ pg_body pg @ post"
    using assms by (simp_all add: page_bytes_def wf_page_def OGG_MAGIC_def slice_def)
  have d: "slice (27 + length (pg_segments pg)) (27 + length (pg_segments pg) + length (pg_body pg)) ?xs = pg_body pg"
    unfolding add.assoc slice_drop tail by (simp add: slice_def)
  have b: "length (pg_body pg) = sum_list (map unat (pg_segments pg))" "pg_flags pg AND NOT 0x07 = 0"
    using assms by (simp_all add: wf_page_def)
  show "cut_ok ?xs" using page_header [OF assms] b by (simp add: cut_ok_def)
  show "page_at ?xs = pg"
    using c d b(1) by (simp add: page_at_def page_header [OF assms] Let_def read_u64_le_def read_u32_le_def
        from_le_bytes_written)
qed

lemma page_at_bytes:
  assumes "cut_ok xs"
  shows "xs = page_bytes (page_at xs)
           @ drop (27 + length (pg_segments (page_at xs)) + length (pg_body (page_at xs))) xs"
    and "length (pg_segments (page_at xs)) = unat (xs ! 26)"
    and "wf_page (page_at xs) \<longleftrightarrow>
           (positioned (page_at xs) \<longleftrightarrow> (\<exists>v \<in> set (pg_segments (page_at xs)). v < 255))"
proof -
  let ?n = "unat (xs ! 26)"
  let ?m = "sum_list (map unat (slice 27 (27 + ?n) xs))"
  have len: "27 \<le> length xs" "27 + ?n \<le> length xs" "27 + ?n + ?m \<le> length xs"
    and magic: "take 4 xs = OGG_MAGIC" "xs ! 4 = 0" and fl: "(xs ! 5) AND NOT 0x07 = 0"
    using assms by (simp_all add: cut_ok_def)
  have sizes: "length (slice 27 (27 + ?n) xs) = ?n" "length (slice (27 + ?n) (27 + ?n + ?m) xs) = ?m"
    using len by (simp_all add: length_slice)
  have n: "?n < 256" using unsigned_less [of "xs ! 26", where 'a = nat] by simp
  have rd: "le_bytes 8 (read_u64_le (slice 6 14 xs)) = slice 6 14 xs"
    "le_bytes 4 (read_u32_le (slice 14 18 xs)) = slice 14 18 xs"
    "le_bytes 4 (read_u32_le (slice 18 22 xs)) = slice 18 22 xs"
    using len by (simp_all add: read_u64_le_def read_u32_le_def le_bytes_read length_slice)
  have "xs = take 4 xs @ [xs ! 4, xs ! 5] @ drop 6 xs"
    using len Cons_nth_drop_Suc [of 4 xs] Cons_nth_drop_Suc [of 5 xs] append_take_drop_id [of 4 xs] by simp
  also have "drop 6 xs = slice 6 14 xs @ slice 14 18 xs @ slice 18 22 xs @ slice 22 26 xs @ drop 26 xs"
    using drop_split [of 6 14 xs] drop_split [of 14 18 xs] drop_split [of 18 22 xs] drop_split [of 22 26 xs]
    by simp
  also have "drop 26 xs = [xs ! 26] @ slice 27 (27 + ?n) xs @ slice (27 + ?n) (27 + ?n + ?m) xs
      @ drop (27 + ?n + ?m) xs"
    using len Cons_nth_drop_Suc [of 26 xs] drop_split [of 27 "27 + ?n" xs]
      drop_split [of "27 + ?n" "27 + ?n + ?m" xs] by simp
  finally show "xs = page_bytes (page_at xs)
           @ drop (27 + length (pg_segments (page_at xs)) + length (pg_body (page_at xs))) xs"
    using magic sizes rd by (simp add: page_bytes_def page_at_def Let_def)
  show "length (pg_segments (page_at xs)) = ?n" using sizes by (simp add: page_at_def Let_def)
  show "wf_page (page_at xs) \<longleftrightarrow>
           (positioned (page_at xs) \<longleftrightarrow> (\<exists>v \<in> set (pg_segments (page_at xs)). v < 255))"
    using sizes n fl len by (simp add: wf_page_def page_at_def Let_def length_slice)
qed

section \<open>Chains of pages\<close>

fun scan_pages :: "scan_state \<Rightarrow> Page list \<Rightarrow> (scan_state, OggOpusValidationError) result" where
  "scan_pages st [] = Ok st"
| "scan_pages st (pg # pgs) = and_then (page_step (pgs = []) st pg) (\<lambda>st'. scan_pages st' pgs)"

lemma page_bytes_not_Nil [simp]: "page_bytes pg \<noteq> []"
  by (simp add: page_bytes_def)

lemma scan_loop_pages:
  assumes "length input < usize_limit" and "offset \<le> length input" and "list_all wf_page pages"
    and "drop offset input = concat (map page_bytes pages)"
  shows "scan_loop input offset st = scan_pages st pages"
  using assms
proof (induction pages arbitrary: offset st)
  case (Cons pg pgs)
  let ?e = "offset + length (page_bytes pg)"
  have wf: "wf_page pg" "list_all wf_page pgs" using Cons.prems by simp_all
  have xs: "drop offset input = page_bytes pg @ concat (map page_bytes pgs)" using Cons.prems by simp
  have "length (drop offset input) = length (page_bytes pg) + length (concat (map page_bytes pgs))"
    by (simp only: xs length_append)
  then have len: "length input = ?e + length (concat (map page_bytes pgs))"
    using Cons.prems(2) by (simp del: length_concat)
  have rest: "drop ?e input = concat (map page_bytes pgs)"
    using xs by (metis add.commute append_eq_conv_conj drop_drop)
  have e: "offset + 27 + length (pg_segments pg) + length (pg_body pg) = ?e"
    using page_header(9) [OF wf(1)] wf(1) by (simp add: wf_page_def)
  have at_end: "?e = length input \<longleftrightarrow> pgs = []" using len by (cases pgs) auto
  have step: "scan_page input offset st = map_ok (\<lambda>st'. (?e, st')) (page_step (pgs = []) st pg)"
  proof -
    have cut: "cut_ok (drop offset input)" "page_at (drop offset input) = pg"
      unfolding xs using page_at_printed [OF wf(1)] by simp_all
    have "positioned pg \<longleftrightarrow> (\<exists>v \<in> set (pg_segments pg). v < 255)" using wf(1) by (simp add: wf_page_def)
    then show ?thesis
      unfolding scan_page_cut [OF cut(1) Cons.prems(1,2)] Let_def cut(2) e at_end by simp
  qed
  have lt: "offset < length input" using len page_header(9) [OF wf(1)] by simp
  show ?case
  proof (cases "page_step (pgs = []) st pg")
    case (Ok st')
    then show ?thesis
      using Cons.IH [of ?e st'] Cons.prems(1) wf(2) rest len lt step
      by (simp add: scan_loop.simps [of input offset])
  next
    case (Err x)
    then show ?thesis using step lt by (simp add: scan_loop.simps [of input offset])
  qed
qed (simp add: scan_loop.simps)

lemma scan_loop_Ok_pages:
  "scan_loop input offset st = Ok st' \<Longrightarrow> length input < usize_limit \<Longrightarrow>
     \<exists>pages. list_all wf_page pages \<and> drop offset input = concat (map page_bytes pages)"
proof (induction input offset st rule: scan_loop.induct)
  case (1 input offset st)
  show ?case
  proof (cases "offset < length input")
    case True
    then obtain e st1 where p: "scan_page input offset st = Ok (e, st1)"
      and r: "scan_loop input e st1 = Ok st'"
      using 1(2) by (auto simp: scan_loop.simps [of input offset] split: result.splits)
    let ?pg = "page_at (drop offset input)"
    note cut = scan_page_Ok_cut [OF p]
    let ?e = "offset + 27 + length (pg_segments ?pg) + length (pg_body ?pg)"
    have "(if positioned ?pg \<noteq> (\<exists>v \<in> set (pg_segments ?pg). v < 255) then Err InvalidGranulePosition
        else map_ok (\<lambda>st'. (?e, st')) (page_step (?e = length input) st ?pg)) = Ok (e, st1)"
      using scan_page_cut [OF cut(1) 1(3) cut(2), of st] p by (simp only: Let_def)
    then have e: "e = ?e" and w: "positioned ?pg \<longleftrightarrow> (\<exists>v \<in> set (pg_segments ?pg). v < 255)"
      by (simp_all split: if_splits)
    obtain pages where pages: "list_all wf_page pages" "drop e input = concat (map page_bytes pages)"
      using 1(1) [OF True p refl r 1(3)] by blast
    have "drop offset input = page_bytes ?pg @ drop e input"
      using page_at_bytes(1) [OF cut(1)] e by (simp add: add.commute add.left_commute)
    then show ?thesis
      using pages page_at_bytes(3) [OF cut(1)] w by (intro exI [of _ "?pg # pages"]) simp
  qed (auto intro: exI [of _ "[]"])
qed

section \<open>One logical stream\<close>

definition begins_stream :: "Page \<Rightarrow> bool" where "begins_stream pg \<longleftrightarrow> pg_flags pg AND 0x02 \<noteq> 0"
definition ends_stream :: "Page \<Rightarrow> bool" where "ends_stream pg \<longleftrightarrow> pg_flags pg AND 0x04 \<noteq> 0"
definition continues_packet :: "Page \<Rightarrow> bool" where "continues_packet pg \<longleftrightarrow> pg_flags pg AND 0x01 \<noteq> 0"

definition single_stream :: "Page list \<Rightarrow> u32 \<Rightarrow> u64 \<Rightarrow> bool" where
  "single_stream pages serial final \<longleftrightarrow>
     pages \<noteq> [] \<and> \<not> continues_packet (hd pages) \<and>
     (\<forall>i < length pages.
        pg_serial (pages ! i) = serial \<and> unat (pg_sequence (pages ! i)) = i \<and>
        (begins_stream (pages ! i) \<longleftrightarrow> i = 0) \<and> (ends_stream (pages ! i) \<longleftrightarrow> Suc i = length pages)) \<and>
     sorted (map pg_granule (filter positioned pages)) \<and>
     positioned (last pages) \<and> pg_granule (last pages) = final"

definition next_state :: "scan_state \<Rightarrow> Page \<Rightarrow> u32 \<Rightarrow> scan_state" where
  "next_state st pg serial =
     \<lparr>sc_serial = Some serial, sc_expected_sequence = sc_expected_sequence st + 1,
      sc_previous_granule = (if positioned pg then pg_granule pg else sc_previous_granule st),
      sc_saw_position = (sc_saw_position st \<or> positioned pg),
      sc_final_granule = (if ends_stream pg then Some (pg_granule pg) else sc_final_granule st)\<rparr>"

lemma page_step_Ok_iff:
  assumes "Suc (unat (sc_expected_sequence st)) < 2 ^ 32"
  shows "page_step at_end st pg = Ok st' \<longleftrightarrow>
    (\<exists>serial. scan_serial (sc_serial st) (pg_flags pg) (pg_serial pg) = Ok serial \<and>
       pg_sequence pg = sc_expected_sequence st \<and>
       (positioned pg \<and> sc_saw_position st \<longrightarrow> sc_previous_granule st \<le> pg_granule pg) \<and>
       (ends_stream pg \<longrightarrow> at_end \<and> positioned pg) \<and> st' = next_state st pg serial)"
proof -
  have "checked_add (sc_expected_sequence st) 1 = Some (sc_expected_sequence st + 1)"
    using assms by (simp add: checked_add_def)
  then show ?thesis
    by (cases st; cases "scan_serial (sc_serial st) (pg_flags pg) (pg_serial pg)")
      (auto simp: page_step_def next_state_def ends_stream_def Let_def not_less split: if_splits)
qed

lemma scan_serial_Ok_iff:
  "scan_serial serial (pg_flags pg) (pg_serial pg) = Ok s \<longleftrightarrow>
     s = pg_serial pg \<and>
     (case serial of None \<Rightarrow> begins_stream pg \<and> \<not> continues_packet pg
      | Some v \<Rightarrow> v = pg_serial pg \<and> \<not> begins_stream pg)"
  by (auto simp: scan_serial_def begins_stream_def continues_packet_def split: option.splits if_splits)

text \<open>The pages after the first, from page number \<open>k\<close> on.\<close>

definition stream_tail :: "u32 \<Rightarrow> nat \<Rightarrow> Page list \<Rightarrow> bool" where
  "stream_tail serial k pages \<longleftrightarrow>
     (\<forall>i < length pages.
        pg_serial (pages ! i) = serial \<and> unat (pg_sequence (pages ! i)) = k + i \<and>
        \<not> begins_stream (pages ! i) \<and> (ends_stream (pages ! i) \<longleftrightarrow> Suc i = length pages)) \<and>
     sorted (map pg_granule (filter positioned pages)) \<and>
     (pages \<noteq> [] \<longrightarrow> positioned (last pages))"

lemma stream_tail_simps [simp]:
  "stream_tail serial k []"
  "stream_tail serial k (pg # pgs) \<longleftrightarrow>
     pg_serial pg = serial \<and> unat (pg_sequence pg) = k \<and> \<not> begins_stream pg \<and>
     (ends_stream pg \<longleftrightarrow> pgs = []) \<and> (pgs = [] \<longrightarrow> positioned pg) \<and>
     (positioned pg \<longrightarrow> (\<forall>q \<in> set pgs. positioned q \<longrightarrow> pg_granule pg \<le> pg_granule q)) \<and>
     stream_tail serial (Suc k) pgs"
  by (auto simp: stream_tail_def All_less_Suc2)

lemma scan_pages_tail:
  assumes "sc_serial st = Some serial" and "unat (sc_expected_sequence st) = k"
    and "k + length pages < 2 ^ 32" and "sc_final_granule st = None" and "pages \<noteq> []"
  shows "(\<exists>st'. scan_pages st pages = Ok st' \<and> sc_serial st' = Some s \<and> sc_final_granule st' = Some f) \<longleftrightarrow>
    s = serial \<and> stream_tail serial k pages \<and> f = pg_granule (last pages) \<and>
    (sc_saw_position st \<longrightarrow> (\<forall>q \<in> set pages. positioned q \<longrightarrow> sc_previous_granule st \<le> pg_granule q))"
  using assms
proof (induction pages arbitrary: st k)
  case (Cons pg pgs)
  have k: "Suc (unat (sc_expected_sequence st)) < 2 ^ 32" using Cons.prems by simp
  have next_k: "unat (sc_expected_sequence st + 1) = Suc k"
    using Cons.prems by (simp add: unat_word_ariths)
  have seq: "pg_sequence pg = sc_expected_sequence st \<longleftrightarrow> unat (pg_sequence pg) = k"
    using Cons.prems(2) by (auto simp: word_unat_eq_iff)
  let ?st = "next_state st pg serial"
  have step: "page_step (pgs = []) st pg = Ok st' \<longleftrightarrow>
      pg_serial pg = serial \<and> \<not> begins_stream pg \<and> unat (pg_sequence pg) = k \<and>
      (positioned pg \<and> sc_saw_position st \<longrightarrow> sc_previous_granule st \<le> pg_granule pg) \<and>
      (ends_stream pg \<longrightarrow> pgs = [] \<and> positioned pg) \<and> st' = ?st" for st'
    unfolding page_step_Ok_iff [OF k] scan_serial_Ok_iff seq using Cons.prems(1) by auto
  show ?case
  proof (cases "pgs = []")
    case True
    then show ?thesis
      using step Cons.prems(4) by (auto simp: next_state_def)
  next
    case False
    have ih: "(\<exists>st'. scan_pages ?st pgs = Ok st' \<and> sc_serial st' = Some s \<and> sc_final_granule st' = Some f) \<longleftrightarrow>
      s = serial \<and> stream_tail serial (Suc k) pgs \<and> f = pg_granule (last pgs) \<and>
      (sc_saw_position ?st \<longrightarrow> (\<forall>q \<in> set pgs. positioned q \<longrightarrow> sc_previous_granule ?st \<le> pg_granule q))"
      if "\<not> ends_stream pg"
      using Cons.IH [of ?st "Suc k"] Cons.prems False next_k that by (simp add: next_state_def)
    have "(\<exists>st'. scan_pages st (pg # pgs) = Ok st' \<and> sc_serial st' = Some s \<and> sc_final_granule st' = Some f) \<longleftrightarrow>
      page_step (pgs = []) st pg = Ok ?st \<and>
      (\<exists>st'. scan_pages ?st pgs = Ok st' \<and> sc_serial st' = Some s \<and> sc_final_granule st' = Some f)"
      using step by auto
    also have "\<dots> \<longleftrightarrow> page_step (pgs = []) st pg = Ok ?st \<and> \<not> ends_stream pg \<and>
      s = serial \<and> stream_tail serial (Suc k) pgs \<and> f = pg_granule (last pgs) \<and>
      (sc_saw_position ?st \<longrightarrow> (\<forall>q \<in> set pgs. positioned q \<longrightarrow> sc_previous_granule ?st \<le> pg_granule q))"
      using ih step False by blast
    also have "\<dots> \<longleftrightarrow> s = serial \<and> stream_tail serial k (pg # pgs) \<and> f = pg_granule (last (pg # pgs)) \<and>
      (sc_saw_position st \<longrightarrow> (\<forall>q \<in> set (pg # pgs). positioned q \<longrightarrow> sc_previous_granule st \<le> pg_granule q))"
      using step False by (auto simp: next_state_def) (blast intro: order_trans)
    finally show ?thesis .
  qed
qed simp

lemma single_stream_Cons:
  "single_stream (pg # pgs) serial final \<longleftrightarrow>
     pg_serial pg = serial \<and> unat (pg_sequence pg) = 0 \<and> begins_stream pg \<and> \<not> continues_packet pg \<and>
     (ends_stream pg \<longleftrightarrow> pgs = []) \<and> (pgs = [] \<longrightarrow> positioned pg) \<and>
     (positioned pg \<longrightarrow> (\<forall>q \<in> set pgs. positioned q \<longrightarrow> pg_granule pg \<le> pg_granule q)) \<and>
     stream_tail serial 1 pgs \<and> pg_granule (last (pg # pgs)) = final"
  by (auto simp: single_stream_def stream_tail_def All_less_Suc2)

lemma scan_pages_start:
  assumes "length pages < 2 ^ 32"
  shows "(\<exists>st. scan_pages scan_start pages = Ok st \<and> sc_serial st = Some s \<and> sc_final_granule st = Some f)
    \<longleftrightarrow> single_stream pages s f"
proof (cases pages)
  case (Cons pg pgs)
  let ?st = "next_state scan_start pg (pg_serial pg)"
  have step: "page_step (pgs = []) scan_start pg = Ok st' \<longleftrightarrow>
      begins_stream pg \<and> \<not> continues_packet pg \<and> unat (pg_sequence pg) = 0 \<and>
      (ends_stream pg \<longrightarrow> pgs = [] \<and> positioned pg) \<and> st' = ?st" for st'
    by (subst page_step_Ok_iff) (auto simp: scan_serial_Ok_iff scan_start_def unat_eq_0)
  show ?thesis
  proof (cases "pgs = []")
    case True
    with Cons step show ?thesis
      by (auto simp: single_stream_Cons next_state_def scan_start_def)
  next
    case False
    have tail: "(\<exists>st'. scan_pages ?st pgs = Ok st' \<and> sc_serial st' = Some s \<and> sc_final_granule st' = Some f) \<longleftrightarrow>
      s = pg_serial pg \<and> stream_tail (pg_serial pg) 1 pgs \<and> f = pg_granule (last pgs) \<and>
      (sc_saw_position ?st \<longrightarrow> (\<forall>q \<in> set pgs. positioned q \<longrightarrow> sc_previous_granule ?st \<le> pg_granule q))"
      if "\<not> ends_stream pg"
      using scan_pages_tail [of ?st "pg_serial pg" 1 pgs s f] False that assms Cons
      by (simp add: next_state_def scan_start_def)
    have "(\<exists>st. scan_pages scan_start pages = Ok st \<and> sc_serial st = Some s \<and> sc_final_granule st = Some f)
      \<longleftrightarrow> page_step (pgs = []) scan_start pg = Ok ?st \<and>
        (\<exists>st'. scan_pages ?st pgs = Ok st' \<and> sc_serial st' = Some s \<and> sc_final_granule st' = Some f)"
      using step Cons by auto
    also have "\<dots> \<longleftrightarrow> single_stream pages s f"
      using step False tail Cons by (auto simp: single_stream_Cons next_state_def scan_start_def)
    finally show ?thesis .
  qed
qed (simp add: single_stream_def scan_start_def)

lemma pages_length: "list_all wf_page pages \<Longrightarrow> 27 * length pages \<le> length (concat (map page_bytes pages))"
  by (induction pages) (auto simp: page_header(9))

text \<open>C32: The container scan accepts exactly one complete logical stream: an input of at most 64 MiB
  is accepted with a serial number and a final position exactly when it is the concatenation,
  without a gap or a remainder, of well-formed Ogg pages that all carry that serial number, are
  numbered from zero without a hole, of which the first and no other begins the stream and does
  not continue a packet, the last and no other ends it, whose positions never decrease, and whose
  last position is the final one.\<close>

theorem ogg_container_exact:
  "scan_container input = Ok c \<longleftrightarrow>
     length input \<le> 64 * 1024 * 1024 \<and>
     (\<exists>pages. list_all wf_page pages \<and> input = concat (map page_bytes pages) \<and>
        single_stream pages (cs_serial c) (cs_final_granule c))"
proof (cases "input = [] \<or> length input > MAX_OGG_OPUS_BYTES")
  case True
  have "pages = []" if "concat (map page_bytes pages) = []" for pages using that by (cases pages) auto
  then have "input \<noteq> [] \<or> \<not> (\<exists>pages. input = concat (map page_bytes pages) \<and>
      single_stream pages (cs_serial c) (cs_final_granule c))"
    by (metis single_stream_def)
  with True show ?thesis by (auto simp: scan_container_def MAX_OGG_OPUS_BYTES_def)
next
  case False
  then have len: "length input \<le> 64 * 1024 * 1024" "length input < usize_limit"
    by (auto simp: MAX_OGG_OPUS_BYTES_def usize_limit_def)
  have "scan_container input = Ok c \<longleftrightarrow>
      (\<exists>st. scan_loop input 0 scan_start = Ok st \<and> sc_serial st = Some (cs_serial c) \<and>
            sc_final_granule st = Some (cs_final_granule c))"
    using False by (cases c) (auto simp: scan_container_def)
  also have "\<dots> \<longleftrightarrow> (\<exists>pages. list_all wf_page pages \<and> input = concat (map page_bytes pages) \<and>
      (\<exists>st. scan_pages scan_start pages = Ok st \<and> sc_serial st = Some (cs_serial c) \<and>
            sc_final_granule st = Some (cs_final_granule c)))"
    using scan_loop_Ok_pages [of input 0 scan_start] scan_loop_pages [of input 0 _ scan_start] len(2)
    by (metis drop0 le0)
  also have "\<dots> \<longleftrightarrow> (\<exists>pages. list_all wf_page pages \<and> input = concat (map page_bytes pages) \<and>
      single_stream pages (cs_serial c) (cs_final_granule c))"
  proof -
    have "length pages < 2 ^ 32" if "list_all wf_page pages" "input = concat (map page_bytes pages)" for pages
      using pages_length [OF that(1)] that(2) len(1) by simp
    then show ?thesis using scan_pages_start by metis
  qed
  finally show ?thesis using len(1) by simp
qed

end
