(* ===== verification/Discord_Opus.thy ===== *)
theory Discord_Opus
  imports Ogg_Opus Float64 Live_Coordinator
begin

text \<open>
  Decoding of client audio: \<^verbatim>\<open>crates/voicetext-audio/src/discord_opus.rs\<close>, and \<open>decode_audio\<close> of
  \<^verbatim>\<open>crates/voicetext-gateway/src/server/live.rs\<close>, which calls it before the coordinator sees a frame.
  \<open>libopus\<close> is an argument: its packet inspection, its decoder, which writes into the sample buffer
  it is given, and its initialisation.
\<close>

section \<open>The decoder\<close>

type_synonym i16 = "16 word"

definition MAX_PCM_BYTES_PER_PACKET :: usize where
  "MAX_PCM_BYTES_PER_PACKET = MAX_SAMPLES_PER_PACKET * 2"

record ('d, 'c) libopus =
  opus_new :: "u32 \<Rightarrow> ('d, 'c) result"
  opus_get_nb_samples :: "'d \<Rightarrow> u8 list \<Rightarrow> (usize, 'c) result"
  opus_decode :: "'d \<Rightarrow> u8 list \<Rightarrow> i16 list \<Rightarrow> 'd \<times> i16 list \<times> (usize, 'c) result"

record DecodedPcmFrame =
  df_pcm_s16le :: "u8 list"
  df_samples :: usize
  df_duration_ms :: float

datatype 'c DiscordOpusDecoderInitError = RuntimeUnavailable 'c

datatype 'c DiscordOpusDecodeError =
    EmptyPacket
  | PacketTooLarge usize usize
  | InvalidPacketMetadata 'c
  | InvalidSampleCount usize usize
  | DecodeFailed 'c
  | DecodedSampleCountMismatch usize usize

record 'd DiscordOpusDecoder =
  dd_decoder :: 'd
  dd_samples :: "i16 list"

definition decoder_new ::
  "('d, 'c) libopus \<Rightarrow> ('d DiscordOpusDecoder, 'c DiscordOpusDecoderInitError) result" where
  "decoder_new lib =
     and_then (map_err RuntimeUnavailable (opus_new lib SAMPLE_RATE_HZ)) (\<lambda>decoder.
       Ok \<lparr>dd_decoder = decoder, dd_samples = replicate MAX_SAMPLES_PER_PACKET 0\<rparr>)"

definition runtime_available :: "('d, 'c) libopus \<Rightarrow> bool" where
  "runtime_available lib = is_ok (decoder_new lib)"

definition i16_to_le_bytes :: "i16 \<Rightarrow> u8 list" where
  "i16_to_le_bytes w = [ucast w, ucast (drop_bit 8 w)]"

definition decode ::
  "('d, 'c) libopus \<Rightarrow> 'd DiscordOpusDecoder \<Rightarrow> u8 list
   \<Rightarrow> 'd DiscordOpusDecoder \<times> (DecodedPcmFrame, 'c DiscordOpusDecodeError) result" where
  "decode lib self packet =
     (if packet = [] then (self, Err EmptyPacket)
      else if length packet > MAX_PACKET_BYTES
      then (self, Err (PacketTooLarge (length packet) MAX_PACKET_BYTES))
      else case opus_get_nb_samples lib (dd_decoder self) packet of
        Err c \<Rightarrow> (self, Err (InvalidPacketMetadata c))
      | Ok expected_samples \<Rightarrow>
          if expected_samples = 0 \<or> expected_samples > MAX_SAMPLES_PER_PACKET
          then (self, Err (InvalidSampleCount expected_samples MAX_SAMPLES_PER_PACKET))
          else case opus_decode lib (dd_decoder self) packet (dd_samples self) of
            (decoder, samples, Err c) \<Rightarrow>
              (\<lparr>dd_decoder = decoder, dd_samples = samples\<rparr>, Err (DecodeFailed c))
          | (decoder, samples, Ok decoded_samples) \<Rightarrow>
              let self' = \<lparr>dd_decoder = decoder, dd_samples = samples\<rparr> in
              if decoded_samples \<noteq> expected_samples
              then (self', Err (DecodedSampleCountMismatch expected_samples decoded_samples))
              else if 2 ^ 32 \<le> decoded_samples
              then (self', Err (InvalidSampleCount decoded_samples MAX_SAMPLES_PER_PACKET))
              else (self', Ok
                \<lparr>df_pcm_s16le = concat (map i16_to_le_bytes (take decoded_samples samples)),
                 df_samples = decoded_samples,
                 df_duration_ms = Finite (f64_round (f64_round (of_nat decoded_samples * 1000) / 48000))\<rparr>))"

section \<open>The frame a session writes\<close>

datatype decode_failure = InvalidAudio

definition decode_audio ::
  "('d, 'c) libopus \<Rightarrow> 'd DiscordOpusDecoder option \<Rightarrow> u8 list
   \<Rightarrow> 'd DiscordOpusDecoder option \<times> (u8 list, decode_failure) result" where
  "decode_audio lib decoder frame =
     (case decoder of
        Some d \<Rightarrow> (case decode lib d frame of
            (d', r) \<Rightarrow> (Some d', map_err (\<lambda>_. InvalidAudio) (map_ok df_pcm_s16le r)))
      | None \<Rightarrow> if frame \<noteq> [] \<and> even (length frame) then (None, Ok frame) else (None, Err InvalidAudio))"

text \<open>A decoder writes into the buffer it is given, it does not resize it.\<close>

definition keeps_buffer :: "('d, 'c) libopus \<Rightarrow> bool" where
  "keeps_buffer lib \<longleftrightarrow> (\<forall>d packet buffer. length (fst (snd (opus_decode lib d packet buffer))) = length buffer)"

definition wf_decoder :: "'d DiscordOpusDecoder \<Rightarrow> bool" where
  "wf_decoder d \<longleftrightarrow> length (dd_samples d) = MAX_SAMPLES_PER_PACKET"

lemma decoder_new_wf: "decoder_new lib = Ok d \<Longrightarrow> wf_decoder d"
  by (auto simp: decoder_new_def wf_decoder_def)

lemma length_pcm [simp]: "length (concat (map i16_to_le_bytes xs)) = 2 * length xs"
  by (induction xs) (auto simp: i16_to_le_bytes_def)

lemma decode_keeps_wf:
  assumes "keeps_buffer lib" and "wf_decoder d"
  shows "wf_decoder (fst (decode lib d packet))"
proof -
  have "length (fst (snd (opus_decode lib (dd_decoder d) packet (dd_samples d)))) = MAX_SAMPLES_PER_PACKET"
    using assms by (simp add: keeps_buffer_def wf_decoder_def)
  then show ?thesis
    using assms(2) by (auto simp: decode_def wf_decoder_def Let_def split: result.splits prod.splits)
qed

lemma decode_Ok:
  assumes "decode lib d packet = (d', Ok frame)" and "keeps_buffer lib" and "wf_decoder d"
  shows "length (df_pcm_s16le frame) = 2 * df_samples frame"
    and "0 < df_samples frame" and "df_samples frame \<le> MAX_SAMPLES_PER_PACKET"
proof -
  have "length (fst (snd (opus_decode lib (dd_decoder d) packet (dd_samples d)))) = MAX_SAMPLES_PER_PACKET"
    using assms(2,3) by (simp add: keeps_buffer_def wf_decoder_def)
  then show "length (df_pcm_s16le frame) = 2 * df_samples frame" "0 < df_samples frame"
    "df_samples frame \<le> MAX_SAMPLES_PER_PACKET"
    using assms(1) by (auto simp: decode_def Let_def min_def split: if_splits result.splits prod.splits)
qed

section \<open>Decoded audio is never refused\<close>

lemma prepare_audio_write_total:
  assumes "tl_bytes_per_sample_frame t = 2" and "0 < tl_sample_rate_hz t"
    and "0 < n" and "even n" and "n \<le> 2 ^ 16" and "unat (tl_accepted_sample_frames t) \<le> 2 ^ 52"
  shows "\<exists>p. prepare_audio_write t n = Ok p"
proof -
  let ?len = "of_nat n :: u64"
  have len: "unat ?len = n" using assms(5) by (simp add: unat_of_nat)
  have m: "?len mod 2 = 0" using len assms(4) by (simp add: word_unat_eq_iff unat_mod)
  have d: "unat (?len div 2) = n div 2" using len by (simp add: unat_div)
  have "unat (tl_accepted_sample_frames t) + n div 2 \<le> 2 ^ 53" using assms(5,6) by simp
  then obtain total where add: "checked_add (tl_accepted_sample_frames t) (?len div 2) = Some total"
    and total: "unat total \<le> 2 ^ 53"
    using d checked_add_SomeD(2) by (fastforce simp: checked_add_def unat_word_ariths)
  have "checked_mul total 1000 = Some (total * 1000)" using total by (simp add: checked_mul_def)
  moreover have "tl_sample_rate_hz t \<noteq> 0" using assms(2) by simp
  ultimately show ?thesis
    using assms(1,3,5) m add
    by (simp add: prepare_audio_write_def usize_limit_def checked_horizon_millis_def checked_div_def Let_def)
qed



end
