(* ===== verification/Profiles.thy ===== *)
theory Profiles
  imports Contracts_Batch Capabilities
begin

text \<open>
  The registry of configured recognizers: \<^verbatim>\<open>crates/voicetext-gateway/src/profiles.rs\<close>. A recognizer
  is a value of an arbitrary type together with the capability descriptor it advertises; the
  \<open>expect\<close> on a descriptor outside the closed matrix is the error value \<open>RegistryPanic\<close>.
\<close>

section \<open>The registry\<close>

record ('b, 'l) ProfileRegistry =
  deepgram_batch :: "'b option"
  elevenlabs_batch :: "'b option"
  deepgram_live :: "'l option"
  elevenlabs_live :: "'l option"

datatype registry_panic = RegistryPanic

definition registry_new :: "('b, 'l) ProfileRegistry" where
  "registry_new =
     \<lparr>deepgram_batch = None, elevenlabs_batch = None, deepgram_live = None, elevenlabs_live = None\<rparr>"

definition batch_identity :: "BatchCapabilityDescriptor \<Rightarrow> BatchIdentity option" where
  "batch_identity descriptor =
     find (\<lambda>identity.
         bcd_contract_version descriptor = ucast (contract_version identity)
         \<and> bcd_provider descriptor = lit (identity_provider identity)
         \<and> bcd_model descriptor = lit (identity_model identity)
         \<and> bcd_language descriptor = lit (identity_language identity))
       [DeepgramNova3MultiV2, ElevenlabsScribeV2MultiV3]"

definition live_identity :: "LiveCapabilityDescriptor \<Rightarrow> LiveIdentity option" where
  "live_identity descriptor =
     (if lcd_protocol_version descriptor = 2 \<and> lcd_provider descriptor = lit ''deepgram''
         \<and> lcd_model descriptor = lit ''nova-3''
      then Some DeepgramNova3
      else if lcd_protocol_version descriptor = 2 \<and> lcd_provider descriptor = lit ''elevenlabs''
         \<and> lcd_model descriptor = lit ''scribe_v2_realtime''
      then Some ElevenlabsScribeV2Realtime
      else None)"

definition with_batch ::
  "('b \<Rightarrow> BatchCapabilityDescriptor) \<Rightarrow> ('b, 'l) ProfileRegistry \<Rightarrow> 'b
   \<Rightarrow> (('b, 'l) ProfileRegistry, registry_panic) result" where
  "with_batch capabilities self recognizer =
     (case batch_identity (capabilities recognizer) of
        None \<Rightarrow> Err RegistryPanic
      | Some DeepgramNova3MultiV2 \<Rightarrow> Ok (self\<lparr>deepgram_batch := Some recognizer\<rparr>)
      | Some ElevenlabsScribeV2MultiV3 \<Rightarrow> Ok (self\<lparr>elevenlabs_batch := Some recognizer\<rparr>))"

definition with_live ::
  "('l \<Rightarrow> LiveCapabilityDescriptor) \<Rightarrow> ('b, 'l) ProfileRegistry \<Rightarrow> 'l
   \<Rightarrow> (('b, 'l) ProfileRegistry, registry_panic) result" where
  "with_live capabilities self recognizer =
     (case live_identity (capabilities recognizer) of
        None \<Rightarrow> Err RegistryPanic
      | Some DeepgramNova3 \<Rightarrow> Ok (self\<lparr>deepgram_live := Some recognizer\<rparr>)
      | Some ElevenlabsScribeV2Realtime \<Rightarrow> Ok (self\<lparr>elevenlabs_live := Some recognizer\<rparr>))"

fun registry_batch :: "('b, 'l) ProfileRegistry \<Rightarrow> BatchIdentity \<Rightarrow> 'b option" where
  "registry_batch self DeepgramNova3MultiV2 = deepgram_batch self"
| "registry_batch self ElevenlabsScribeV2MultiV3 = elevenlabs_batch self"

definition batch_descriptor ::
  "('b \<Rightarrow> BatchCapabilityDescriptor) \<Rightarrow> ('b, 'l) ProfileRegistry \<Rightarrow> BatchIdentity
   \<Rightarrow> BatchCapabilityDescriptor option" where
  "batch_descriptor capabilities self identity = map_option capabilities (registry_batch self identity)"

fun registry_live :: "('b, 'l) ProfileRegistry \<Rightarrow> LiveIdentity \<Rightarrow> 'l option" where
  "registry_live self DeepgramNova3 = deepgram_live self"
| "registry_live self ElevenlabsScribeV2Realtime = elevenlabs_live self"

definition live_descriptor ::
  "('l \<Rightarrow> LiveCapabilityDescriptor) \<Rightarrow> ('b, 'l) ProfileRegistry \<Rightarrow> LiveIdentity
   \<Rightarrow> LiveCapabilityDescriptor option" where
  "live_descriptor capabilities self identity = map_option capabilities (registry_live self identity)"

definition is_operational :: "('b, 'l) ProfileRegistry \<Rightarrow> bool" where
  "is_operational self \<longleftrightarrow>
     (deepgram_batch self \<noteq> None \<or> elevenlabs_batch self \<noteq> None)
     \<and> (deepgram_live self \<noteq> None \<or> elevenlabs_live self \<noteq> None)"

section \<open>Composition\<close>

datatype ('b, 'l) binding = BindBatch 'b | BindLive 'l

text \<open>The calls composition makes, in order, from the empty registry.\<close>

fun compose ::
  "('b \<Rightarrow> BatchCapabilityDescriptor) \<Rightarrow> ('l \<Rightarrow> LiveCapabilityDescriptor) \<Rightarrow> ('b, 'l) binding list
   \<Rightarrow> ('b, 'l) ProfileRegistry \<Rightarrow> (('b, 'l) ProfileRegistry, registry_panic) result" where
  "compose bc lc [] reg = Ok reg"
| "compose bc lc (BindBatch b # bs) reg = and_then (with_batch bc reg b) (compose bc lc bs)"
| "compose bc lc (BindLive l # bs) reg = and_then (with_live lc reg l) (compose bc lc bs)"

fun batch_bound :: "('b, 'l) binding list \<Rightarrow> 'b list" where
  "batch_bound [] = []"
| "batch_bound (BindBatch b # bs) = b # batch_bound bs"
| "batch_bound (BindLive l # bs) = batch_bound bs"

fun live_bound :: "('b, 'l) binding list \<Rightarrow> 'l list" where
  "live_bound [] = []"
| "live_bound (BindBatch b # bs) = live_bound bs"
| "live_bound (BindLive l # bs) = l # live_bound bs"

text \<open>The specification of a slot: the most recent binding that advertises it.\<close>

definition most_recent :: "('a \<Rightarrow> bool) \<Rightarrow> 'a list \<Rightarrow> 'a option \<Rightarrow> 'a option" where
  "most_recent P xs d = (case find P (rev xs) of None \<Rightarrow> d | Some x \<Rightarrow> Some x)"

lemma find_append: "find P (xs @ ys) = (case find P xs of None \<Rightarrow> find P ys | Some x \<Rightarrow> Some x)"
  by (induction xs) auto

lemma most_recent_simps [simp]:
  "most_recent P [] d = d"
  "most_recent P (x # xs) d = most_recent P xs (if P x then Some x else d)"
  by (auto simp: most_recent_def find_append split: option.splits)

lemma with_batch_slot:
  assumes "with_batch bc reg b = Ok reg'"
  shows "registry_batch reg' i = (if batch_identity (bc b) = Some i then Some b else registry_batch reg i)"
    and "registry_live reg' j = registry_live reg j"
  using assms by (cases i; cases j; auto simp: with_batch_def split: option.splits BatchIdentity.splits)+

lemma with_live_slot:
  assumes "with_live lc reg l = Ok reg'"
  shows "registry_live reg' j = (if live_identity (lc l) = Some j then Some l else registry_live reg j)"
    and "registry_batch reg' i = registry_batch reg i"
  using assms by (cases i; cases j; auto simp: with_live_def split: option.splits LiveIdentity.splits)+

lemma compose_slots:
  "compose bc lc bs reg = Ok reg' \<Longrightarrow>
     registry_batch reg' i =
       most_recent (\<lambda>b. batch_identity (bc b) = Some i) (batch_bound bs) (registry_batch reg i) \<and>
     registry_live reg' j =
       most_recent (\<lambda>l. live_identity (lc l) = Some j) (live_bound bs) (registry_live reg j)"
  by (induction bc lc bs reg rule: compose.induct)
    (auto simp: with_batch_slot with_live_slot)


definition sample_descriptor :: BatchCapabilityDescriptor where
  "sample_descriptor =
     \<lparr>bcd_contract_version = 2, bcd_provider = lit ''deepgram'', bcd_model = lit ''nova-3'',
      bcd_language = lit ''multi'', bcd_timestamps = BatchSegmentTimestamps,
      bcd_timestamp_provenance = ProviderNative, bcd_finalized_events = TerminalTranscript,
      bcd_language_hints = FixedHint (lit ''multi''), bcd_diarization = False, bcd_key_terms = True,
      bcd_input_formats = [OggOpus],
      bcd_provider_limits =
        \<lparr>bpl_maximum_public_input_bytes = 1, bpl_maximum_input_bytes = 1, bpl_maximum_key_terms = 0,
         bpl_maximum_key_term_bytes = 0, bpl_maximum_key_term_characters = None,
         bpl_key_term_character_unit = None, bpl_maximum_key_term_words = None,
         bpl_normalize_key_term_whitespace = False, bpl_restricted_key_term_punctuation = False\<rparr>\<rparr>"

lemma sample_descriptor_identity: "batch_identity sample_descriptor = Some DeepgramNova3MultiV2"
  by (simp add: batch_identity_def sample_descriptor_def identity_language_def)


end
