(* ===== verification/Gateway_Http.thy ===== *)
theory Gateway_Http
  imports Identity Json
begin

text \<open>
  The HTTP boundary that every handler shares: error responses
  (\<^verbatim>\<open>crates/voicetext-gateway/src/server/error.rs\<close>), bearer authentication (\<^verbatim>\<open>auth.rs\<close>) and the
  machine secret it compares with (\<^verbatim>\<open>secret.rs\<close>, without the file that holds it). Header names of
  an \<open>http::HeaderMap\<close> are in lower case; the map is the list of its entries. SHA-256 is an
  argument.
\<close>

section \<open>Headers and responses\<close>

type_synonym StatusCode = u16
type_synonym HeaderMap = "(string \<times> u8 list) list"

record HttpResponse =
  hr_status :: StatusCode
  hr_headers :: HeaderMap
  hr_body :: str

definition get_all :: "HeaderMap \<Rightarrow> string \<Rightarrow> u8 list list" where
  "get_all headers name = map snd (filter (\<lambda>p. fst p = name) headers)"

text \<open>\<open>HeaderValue::to_str\<close>: visible ASCII, space and tab.\<close>

definition header_to_str :: "u8 list \<Rightarrow> str option" where
  "header_to_str value =
     (if list_all (\<lambda>b. 32 \<le> b \<and> b < 127 \<or> b = 9) value then Some (map unat value) else None)"

section \<open>Errors\<close>

record GatewayHttpError =
  ghe_status :: StatusCode
  ghe_code :: string
  ghe_retry_after_seconds :: "u64 option"

definition error_new :: "StatusCode \<Rightarrow> string \<Rightarrow> GatewayHttpError" where
  "error_new status_code code =
     \<lparr>ghe_status = status_code, ghe_code = code, ghe_retry_after_seconds = None\<rparr>"

definition with_retry_after :: "GatewayHttpError \<Rightarrow> u64 \<Rightarrow> GatewayHttpError" where
  "with_retry_after self seconds = self\<lparr>ghe_retry_after_seconds := Some seconds\<rparr>"

definition bad_request :: "string \<Rightarrow> GatewayHttpError" where
  "bad_request code = error_new 400 code"

definition conflict :: GatewayHttpError where
  "conflict = error_new 409 ''IDEMPOTENCY_CONFLICT''"

definition not_found :: GatewayHttpError where
  "not_found = error_new 404 ''JOB_NOT_FOUND''"

definition unsupported_profile :: GatewayHttpError where
  "unsupported_profile = error_new 422 ''PROFILE_NOT_CONFIGURED''"

definition http_unavailable :: "string \<Rightarrow> GatewayHttpError" where
  "http_unavailable code = with_retry_after (error_new 503 code) 1"

definition rate_limited :: GatewayHttpError where
  "rate_limited = with_retry_after (error_new 429 ''RATE_LIMIT_EXCEEDED'') 1"

datatype AuthenticationError = AuthMissing | AuthMultiple | AuthMalformed | InvalidCredentials

definition unauthorized :: "AuthenticationError \<Rightarrow> GatewayHttpError" where
  "unauthorized _ = error_new 401 ''UNAUTHORIZED''"

definition error_into_response :: "json_text \<Rightarrow> GatewayHttpError \<Rightarrow> HttpResponse" where
  "error_into_response jt self =
     \<lparr>hr_status = ghe_status self,
      hr_headers =
        (''content-type'', str_bytes (lit ''application/json''))
        # (''x-voicetext-error-code'', str_bytes (lit (ghe_code self)))
        # (case ghe_retry_after_seconds self of
             Some seconds \<Rightarrow> [(''retry-after'', str_bytes (decimal (unat seconds)))]
           | None \<Rightarrow> []),
      hr_body = to_text jt (JObject [(lit ''error_code'', JString (lit (ghe_code self)))])\<rparr>"

section \<open>Machine secrets\<close>

definition MIN_MACHINE_TOKEN_BYTES :: usize where "MIN_MACHINE_TOKEN_BYTES = 32"

datatype SecretError = TooShort usize | InvalidCharacter

datatype MachineSecret = MachineSecret (secret_digest: "u8 list")

definition visible_ascii :: "u8 \<Rightarrow> bool" where
  "visible_ascii b \<longleftrightarrow> 33 \<le> b \<and> b \<le> 126"

definition validate_token :: "u8 list \<Rightarrow> (unit, SecretError) result" where
  "validate_token token =
     (if length token < MIN_MACHINE_TOKEN_BYTES then Err (TooShort MIN_MACHINE_TOKEN_BYTES)
      else if list_ex (\<lambda>b. \<not> visible_ascii b) token then Err InvalidCharacter
      else Ok ())"

definition from_token :: "(u8 list \<Rightarrow> u8 list) \<Rightarrow> u8 list \<Rightarrow> (MachineSecret, SecretError) result" where
  "from_token sha256 token = and_then (validate_token token) (\<lambda>_. Ok (MachineSecret (sha256 token)))"

definition verifies :: "(u8 list \<Rightarrow> u8 list) \<Rightarrow> MachineSecret \<Rightarrow> u8 list \<Rightarrow> bool" where
  "verifies sha256 self candidate \<longleftrightarrow> secret_digest self = sha256 candidate"

section \<open>Bearer authentication\<close>

definition BEARER_PREFIX :: "u8 list" where
  "BEARER_PREFIX = str_bytes (lit ''Bearer '')"

definition parse_bearer :: "u8 list \<Rightarrow> (u8 list, AuthenticationError) result" where
  "parse_bearer value =
     and_then (ok_or (strip_prefix BEARER_PREFIX value) AuthMalformed) (\<lambda>token.
       if token = [] \<or> list_ex (\<lambda>b. \<not> visible_ascii b) token then Err AuthMalformed else Ok token)"

definition authenticate ::
  "(u8 list \<Rightarrow> u8 list) \<Rightarrow> HeaderMap \<Rightarrow> MachineSecret \<Rightarrow> (unit, AuthenticationError) result" where
  "authenticate sha256 headers expected =
     (case get_all headers ''authorization'' of
        [] \<Rightarrow> Err AuthMissing
      | [value] \<Rightarrow> and_then (parse_bearer value) (\<lambda>candidate.
          if \<not> verifies sha256 expected candidate then Err InvalidCredentials else Ok ())
      | _ \<Rightarrow> Err AuthMultiple)"

lemma parse_bearer_Ok_iff:
  "parse_bearer value = Ok token \<longleftrightarrow>
     value = BEARER_PREFIX @ token \<and> token \<noteq> [] \<and> list_all visible_ascii token"
  by (auto simp: parse_bearer_def strip_prefix_Some_iff list_ex_iff list_all_iff)

lemma authenticate_Ok_iff:
  "authenticate sha256 headers expected = Ok () \<longleftrightarrow>
     (\<exists>token. get_all headers ''authorization'' = [BEARER_PREFIX @ token] \<and> token \<noteq> [] \<and>
        list_all visible_ascii token \<and> sha256 token = secret_digest expected)"
proof (cases "\<exists>value. get_all headers ''authorization'' = [value]")
  case True
  then obtain v where v: "get_all headers ''authorization'' = [v]" by blast
  have "authenticate sha256 headers expected = Ok () \<longleftrightarrow>
      (\<exists>token. parse_bearer v = Ok token \<and> verifies sha256 expected token)"
    by (cases "parse_bearer v") (simp_all add: authenticate_def v)
  then show ?thesis using v by (auto simp: parse_bearer_Ok_iff verifies_def)
next
  case False
  then show ?thesis by (auto simp: authenticate_def split: list.splits)
qed

lemma from_token_Ok_iff:
  "from_token sha256 token = Ok secret \<longleftrightarrow>
     MIN_MACHINE_TOKEN_BYTES \<le> length token \<and> list_all visible_ascii token \<and>
     secret = MachineSecret (sha256 token)"
  by (auto simp: from_token_def validate_token_def list_ex_iff list_all_iff not_less)

text \<open>C35: A request is authenticated exactly when it carries one \<open>Authorization\<close> header, and that
  header is the word \<open>Bearer\<close>, one space and the configured token: no missing, repeated, padded,
  differently capitalised or other token is let in, and the configured token is never refused. The
  hypothesis is that no other token has the digest of the configured one.\<close>

theorem authentication_exact:
  assumes secret: "from_token sha256 token = Ok secret"
    and no_collision: "\<forall>t. sha256 t = sha256 token \<longrightarrow> t = token"
  shows "authenticate sha256 headers secret = Ok () \<longleftrightarrow>
           get_all headers ''authorization'' = [BEARER_PREFIX @ token]"
  using secret no_collision
  by (auto simp: from_token_Ok_iff authenticate_Ok_iff MIN_MACHINE_TOKEN_BYTES_def)

definition sample_token :: "u8 list" where
  "sample_token = replicate 32 97"

theorem authentication_exact_witness:
  "authenticate (\<lambda>t. t) [(''authorization'', BEARER_PREFIX @ sample_token)] (MachineSecret sample_token) = Ok ()"
proof -
  have "from_token (\<lambda>t. t) sample_token = Ok (MachineSecret sample_token)"
    by (simp add: from_token_Ok_iff sample_token_def MIN_MACHINE_TOKEN_BYTES_def visible_ascii_def
        list_all_iff)
  from authentication_exact [OF this] show ?thesis by (simp add: get_all_def)
qed

end
