(* ===== verification/Gateway_State.thy ===== *)
theory Gateway_State
  imports Profiles Gateway_Http Ports
begin

text \<open>
  The state one gateway process shares between requests: the counters of
  \<^verbatim>\<open>crates/voicetext-gateway/src/server/metrics.rs\<close> (without their text rendering) and, of
  \<^verbatim>\<open>server/state.rs\<close>, the limits, the admission slots, the registered batch tasks and the two
  lifecycle flags. A semaphore is the number of its free permits; a permit that goes out of scope
  is given back. A registered task is recorded with the profile whose permits it holds until it
  ends. Counters are \<open>AtomicU64\<close>, which wrap.
\<close>

section \<open>Metrics\<close>

record GatewayMetrics =
  gm_batch_requests :: u64
  gm_batch_conflicts :: u64
  gm_batch_failures :: u64
  gm_batch_admission_rejections :: u64
  gm_batch_inflight :: u64
  gm_batch_provider_effects :: u64
  gm_batch_provider_effects_persisted :: u64
  gm_batch_provider_effects_persistence_unknown :: u64
  gm_batch_outcome_unknown :: u64
  gm_batch_known_terminal_failures :: u64
  gm_batch_retryable_outcomes :: u64
  gm_batch_recovery_executed :: u64
  gm_batch_recovery_unknown :: u64
  gm_spool_terminal_removed :: u64
  gm_spool_orphan_removed :: u64
  gm_spool_used_bytes :: u64
  gm_spool_capacity_bytes :: u64
  gm_live_sessions :: u64
  gm_live_frames :: u64
  gm_live_failures :: u64
  gm_qualification_observation_failures :: u64

definition metrics_new :: GatewayMetrics where
  "metrics_new =
     \<lparr>gm_batch_requests = 0,
      gm_batch_conflicts = 0,
      gm_batch_failures = 0,
      gm_batch_admission_rejections = 0,
      gm_batch_inflight = 0,
      gm_batch_provider_effects = 0,
      gm_batch_provider_effects_persisted = 0,
      gm_batch_provider_effects_persistence_unknown = 0,
      gm_batch_outcome_unknown = 0,
      gm_batch_known_terminal_failures = 0,
      gm_batch_retryable_outcomes = 0,
      gm_batch_recovery_executed = 0,
      gm_batch_recovery_unknown = 0,
      gm_spool_terminal_removed = 0,
      gm_spool_orphan_removed = 0,
      gm_spool_used_bytes = 0,
      gm_spool_capacity_bytes = 0,
      gm_live_sessions = 0,
      gm_live_frames = 0,
      gm_live_failures = 0,
      gm_qualification_observation_failures = 0\<rparr>"

definition batch_request :: "GatewayMetrics \<Rightarrow> GatewayMetrics" where
  "batch_request m = m\<lparr>gm_batch_requests := gm_batch_requests m + 1\<rparr>"

definition batch_conflict :: "GatewayMetrics \<Rightarrow> GatewayMetrics" where
  "batch_conflict m = m\<lparr>gm_batch_conflicts := gm_batch_conflicts m + 1\<rparr>"

definition count_batch_failure :: "GatewayMetrics \<Rightarrow> GatewayMetrics" where
  "count_batch_failure m = m\<lparr>gm_batch_failures := gm_batch_failures m + 1\<rparr>"

definition batch_admission_rejection :: "GatewayMetrics \<Rightarrow> GatewayMetrics" where
  "batch_admission_rejection m = m\<lparr>gm_batch_admission_rejections := gm_batch_admission_rejections m + 1\<rparr>"

definition batch_execution_started :: "GatewayMetrics \<Rightarrow> GatewayMetrics" where
  "batch_execution_started m = m\<lparr>gm_batch_inflight := gm_batch_inflight m + 1\<rparr>"

definition batch_provider_effect_started :: "GatewayMetrics \<Rightarrow> GatewayMetrics" where
  "batch_provider_effect_started m = m\<lparr>gm_batch_provider_effects := gm_batch_provider_effects m + 1\<rparr>"

definition batch_provider_effect_persisted :: "GatewayMetrics \<Rightarrow> GatewayMetrics" where
  "batch_provider_effect_persisted m = m\<lparr>gm_batch_provider_effects_persisted := gm_batch_provider_effects_persisted m + 1\<rparr>"

definition batch_provider_effect_persistence_unknown :: "GatewayMetrics \<Rightarrow> GatewayMetrics" where
  "batch_provider_effect_persistence_unknown m = m\<lparr>gm_batch_provider_effects_persistence_unknown := gm_batch_provider_effects_persistence_unknown m + 1\<rparr>"

definition count_outcome_unknown :: "GatewayMetrics \<Rightarrow> GatewayMetrics" where
  "count_outcome_unknown m = m\<lparr>gm_batch_outcome_unknown := gm_batch_outcome_unknown m + 1\<rparr>"

definition batch_known_terminal_failure :: "GatewayMetrics \<Rightarrow> GatewayMetrics" where
  "batch_known_terminal_failure m = m\<lparr>gm_batch_known_terminal_failures := gm_batch_known_terminal_failures m + 1\<rparr>"

definition batch_retryable_outcome :: "GatewayMetrics \<Rightarrow> GatewayMetrics" where
  "batch_retryable_outcome m = m\<lparr>gm_batch_retryable_outcomes := gm_batch_retryable_outcomes m + 1\<rparr>"

definition count_recovery_executed :: "GatewayMetrics \<Rightarrow> GatewayMetrics" where
  "count_recovery_executed m = m\<lparr>gm_batch_recovery_executed := gm_batch_recovery_executed m + 1\<rparr>"

definition live_session :: "GatewayMetrics \<Rightarrow> GatewayMetrics" where
  "live_session m = m\<lparr>gm_live_sessions := gm_live_sessions m + 1\<rparr>"

definition live_frame :: "GatewayMetrics \<Rightarrow> GatewayMetrics" where
  "live_frame m = m\<lparr>gm_live_frames := gm_live_frames m + 1\<rparr>"

definition live_failure :: "GatewayMetrics \<Rightarrow> GatewayMetrics" where
  "live_failure m = m\<lparr>gm_live_failures := gm_live_failures m + 1\<rparr>"

definition qualification_observation_failure :: "GatewayMetrics \<Rightarrow> GatewayMetrics" where
  "qualification_observation_failure m = m\<lparr>gm_qualification_observation_failures := gm_qualification_observation_failures m + 1\<rparr>"

definition batch_execution_finished :: "GatewayMetrics \<Rightarrow> GatewayMetrics" where
  "batch_execution_finished m = m\<lparr>gm_batch_inflight := gm_batch_inflight m - 1\<rparr>"

definition record_recovery :: "GatewayMetrics \<Rightarrow> u64 \<Rightarrow> u64 \<Rightarrow> GatewayMetrics" where
  "record_recovery m executed unknown =
     m\<lparr>gm_batch_recovery_executed := gm_batch_recovery_executed m + executed,
       gm_batch_recovery_unknown := gm_batch_recovery_unknown m + unknown\<rparr>"

definition record_spool :: "GatewayMetrics \<Rightarrow> u64 \<Rightarrow> u64 \<Rightarrow> u64 \<Rightarrow> u64 \<Rightarrow> GatewayMetrics" where
  "record_spool m terminal_removed orphan_removed used_bytes capacity_bytes =
     m\<lparr>gm_spool_terminal_removed := gm_spool_terminal_removed m + terminal_removed,
       gm_spool_orphan_removed := gm_spool_orphan_removed m + orphan_removed,
       gm_spool_used_bytes := used_bytes, gm_spool_capacity_bytes := capacity_bytes\<rparr>"

definition spool_admitted :: "GatewayMetrics \<Rightarrow> u64 \<Rightarrow> GatewayMetrics" where
  "spool_admitted m bytes = m\<lparr>gm_spool_used_bytes := gm_spool_used_bytes m + bytes\<rparr>"

definition spool_terminal_cleaned :: "GatewayMetrics \<Rightarrow> u64 \<Rightarrow> GatewayMetrics" where
  "spool_terminal_cleaned m bytes =
     m\<lparr>gm_spool_terminal_removed := gm_spool_terminal_removed m + 1,
       gm_spool_used_bytes := saturating_sub (gm_spool_used_bytes m) bytes\<rparr>"

section \<open>Limits\<close>

definition MAX_BATCH_UPLOAD_BYTES :: usize where "MAX_BATCH_UPLOAD_BYTES = 64 * 1024 * 1024"
definition MAX_LIVE_FRAME_BYTES :: usize where "MAX_LIVE_FRAME_BYTES = 64 * 1024"
definition MAX_CONNECTIONS :: usize where "MAX_CONNECTIONS = 10000"

text \<open>Durations are in milliseconds.\<close>

record GatewayLimits =
  gl_batch_upload_bytes :: usize
  gl_live_frame_bytes :: usize
  gl_live_connections :: usize
  gl_first_frame_timeout :: nat
  gl_finalize_timeout :: nat

datatype InvalidGatewayLimits =
  LimitBatchUploadBytes | LimitLiveFrameBytes | LimitLiveConnections | LimitFirstFrameTimeout | LimitFinalizeTimeout

definition limits_new ::
  "usize \<Rightarrow> usize \<Rightarrow> usize \<Rightarrow> nat \<Rightarrow> nat \<Rightarrow> (GatewayLimits, InvalidGatewayLimits) result" where
  "limits_new batch_upload_bytes live_frame_bytes live_connections first_frame_timeout finalize_timeout =
     (if \<not> (27 \<le> batch_upload_bytes \<and> batch_upload_bytes \<le> MAX_BATCH_UPLOAD_BYTES)
      then Err LimitBatchUploadBytes
      else if \<not> (2 \<le> live_frame_bytes \<and> live_frame_bytes \<le> MAX_LIVE_FRAME_BYTES)
      then Err LimitLiveFrameBytes
      else if live_connections > MAX_CONNECTIONS then Err LimitLiveConnections
      else if \<not> (100 \<le> first_frame_timeout \<and> first_frame_timeout \<le> 120000)
      then Err LimitFirstFrameTimeout
      else if \<not> (100 \<le> finalize_timeout \<and> finalize_timeout \<le> 300000)
      then Err LimitFinalizeTimeout
      else Ok \<lparr>gl_batch_upload_bytes = batch_upload_bytes, gl_live_frame_bytes = live_frame_bytes,
              gl_live_connections = live_connections, gl_first_frame_timeout = first_frame_timeout,
              gl_finalize_timeout = finalize_timeout\<rparr>)"

section \<open>Shared state\<close>

record batch_task =
  bt_identity :: BatchIdentity
  bt_job :: BatchJobId
  bt_audio_bytes :: u64

record ('b, 'l) GatewayState =
  gs_auth :: MachineSecret
  gs_profiles :: "('b, 'l) ProfileRegistry"
  gs_limits :: GatewayLimits
  gs_live_slots :: nat
  gs_global_batch_slots :: nat
  gs_batch_slots :: nat
  gs_deepgram_batch_slots :: nat
  gs_elevenlabs_batch_slots :: nat
  gs_batch_tasks :: "batch_task list"
  gs_batch_task_registration_closed :: bool
  gs_metrics :: GatewayMetrics
  gs_startup_reconciled :: bool
  gs_accepting_work :: bool

definition provider_capacity :: "GatewayLimits \<Rightarrow> nat" where
  "provider_capacity limits = max ((gl_live_connections limits + 1) div 2) 1"

definition gateway_new ::
  "MachineSecret \<Rightarrow> ('b, 'l) ProfileRegistry \<Rightarrow> GatewayLimits \<Rightarrow> ('b, 'l) GatewayState" where
  "gateway_new auth profiles limits =
     \<lparr>gs_auth = auth, gs_profiles = profiles, gs_limits = limits,
      gs_live_slots = gl_live_connections limits,
      gs_global_batch_slots = gl_live_connections limits,
      gs_batch_slots = gl_live_connections limits,
      gs_deepgram_batch_slots = provider_capacity limits,
      gs_elevenlabs_batch_slots = provider_capacity limits,
      gs_batch_tasks = [], gs_batch_task_registration_closed = False,
      gs_metrics = metrics_new, gs_startup_reconciled = False, gs_accepting_work = True\<rparr>"

definition try_acquire_live_slot :: "('b, 'l) GatewayState \<Rightarrow> ('b, 'l) GatewayState option" where
  "try_acquire_live_slot self =
     (if \<not> gs_accepting_work self \<or> gs_live_slots self = 0 then None
      else Some (self\<lparr>gs_live_slots := gs_live_slots self - 1\<rparr>))"

definition try_acquire_global_batch_slot :: "('b, 'l) GatewayState \<Rightarrow> ('b, 'l) GatewayState option" where
  "try_acquire_global_batch_slot self =
     (if \<not> gs_accepting_work self \<or> gs_global_batch_slots self = 0 then None
      else Some (self\<lparr>gs_global_batch_slots := gs_global_batch_slots self - 1\<rparr>))"

definition try_acquire_batch_slot :: "('b, 'l) GatewayState \<Rightarrow> ('b, 'l) GatewayState option" where
  "try_acquire_batch_slot self =
     (if gs_batch_slots self = 0 then None
      else Some (self\<lparr>gs_batch_slots := gs_batch_slots self - 1\<rparr>))"

definition try_acquire_provider_batch_slot ::
  "('b, 'l) GatewayState \<Rightarrow> BatchIdentity \<Rightarrow> ('b, 'l) GatewayState option" where
  "try_acquire_provider_batch_slot self identity =
     (case identity of
        DeepgramNova3MultiV2 \<Rightarrow>
          if gs_deepgram_batch_slots self = 0 then None
          else Some (self\<lparr>gs_deepgram_batch_slots := gs_deepgram_batch_slots self - 1\<rparr>)
      | ElevenlabsScribeV2MultiV3 \<Rightarrow>
          if gs_elevenlabs_batch_slots self = 0 then None
          else Some (self\<lparr>gs_elevenlabs_batch_slots := gs_elevenlabs_batch_slots self - 1\<rparr>))"

text \<open>The permits as they are dropped.\<close>

definition release_global :: "('b, 'l) GatewayState \<Rightarrow> ('b, 'l) GatewayState" where
  "release_global self = self\<lparr>gs_global_batch_slots := gs_global_batch_slots self + 1\<rparr>"

definition release_batch :: "('b, 'l) GatewayState \<Rightarrow> ('b, 'l) GatewayState" where
  "release_batch self = self\<lparr>gs_batch_slots := gs_batch_slots self + 1\<rparr>"

definition release_provider :: "BatchIdentity \<Rightarrow> ('b, 'l) GatewayState \<Rightarrow> ('b, 'l) GatewayState" where
  "release_provider identity self =
     (case identity of
        DeepgramNova3MultiV2 \<Rightarrow> self\<lparr>gs_deepgram_batch_slots := gs_deepgram_batch_slots self + 1\<rparr>
      | ElevenlabsScribeV2MultiV3 \<Rightarrow>
          self\<lparr>gs_elevenlabs_batch_slots := gs_elevenlabs_batch_slots self + 1\<rparr>)"

definition release_permits :: "BatchIdentity \<Rightarrow> ('b, 'l) GatewayState \<Rightarrow> ('b, 'l) GatewayState" where
  "release_permits identity self = release_provider identity (release_batch (release_global self))"

text \<open>A task that cannot be registered is dropped together with the permits it owns.\<close>

definition spawn_batch_task ::
  "('b, 'l) GatewayState \<Rightarrow> batch_task \<Rightarrow> ('b, 'l) GatewayState \<times> bool" where
  "spawn_batch_task self task =
     (if gs_batch_task_registration_closed self
      then (release_permits (bt_identity task) self, False)
      else (self\<lparr>gs_batch_tasks := gs_batch_tasks self @ [task]\<rparr>, True))"

definition count :: "(GatewayMetrics \<Rightarrow> GatewayMetrics) \<Rightarrow> ('b, 'l) GatewayState \<Rightarrow> ('b, 'l) GatewayState" where
  "count f self = self\<lparr>gs_metrics := f (gs_metrics self)\<rparr>"

definition mark_startup_reconciled :: "('b, 'l) GatewayState \<Rightarrow> ('b, 'l) GatewayState" where
  "mark_startup_reconciled self = self\<lparr>gs_startup_reconciled := True\<rparr>"

definition begin_shutdown :: "('b, 'l) GatewayState \<Rightarrow> ('b, 'l) GatewayState" where
  "begin_shutdown self = self\<lparr>gs_accepting_work := False\<rparr>"

section \<open>Permits are conserved\<close>

text \<open>Free permits and the permits of registered tasks add up to the configured capacity.\<close>

definition slots_inv :: "('b, 'l) GatewayState \<Rightarrow> bool" where
  "slots_inv gs \<longleftrightarrow>
     gs_global_batch_slots gs + length (gs_batch_tasks gs) = gl_live_connections (gs_limits gs) \<and>
     gs_batch_slots gs + length (gs_batch_tasks gs) = gl_live_connections (gs_limits gs) \<and>
     gs_deepgram_batch_slots gs
       + length (filter (\<lambda>t. bt_identity t = DeepgramNova3MultiV2) (gs_batch_tasks gs))
       = provider_capacity (gs_limits gs) \<and>
     gs_elevenlabs_batch_slots gs
       + length (filter (\<lambda>t. bt_identity t = ElevenlabsScribeV2MultiV3) (gs_batch_tasks gs))
       = provider_capacity (gs_limits gs)"

lemma slots_inv_new: "slots_inv (gateway_new auth profiles limits)"
  by (simp add: slots_inv_def gateway_new_def)

lemma slots_inv_count [simp]: "slots_inv (count f gs) = slots_inv gs"
  by (simp add: slots_inv_def count_def)

end
