(* ===== verification/Batch_Server.thy ===== *)
theory Batch_Server
  imports Batch_Wire Batch_Coordinator Records Gateway_State Ogg_Opus
begin

text \<open>
  The batch HTTP handlers: \<^verbatim>\<open>crates/voicetext-gateway/src/server/batch.rs\<close>. A multipart body is what
  the extractor yields: the list of its fields, each with its chunks, where an \<open>Err\<close> stands for a
  transport error at that point. The libraries, the job store and the audio spool are the record
  \<open>gateway_lib\<close>, what happens around one request (deadline, task and store faults) the record
  \<open>post_env\<close>. A handler runs to its end here; how its ledger accesses interleave with those of other
  requests and workers is the subject of \<^verbatim>\<open>Batch_System\<close>.
\<close>

section \<open>Constants, forms and libraries\<close>

definition IDEMPOTENCY_HEADER :: string where "IDEMPOTENCY_HEADER = ''x-idempotency-key''"
definition MAX_TEXT_FIELD_BYTES :: usize where "MAX_TEXT_FIELD_BYTES = 24 * 1024"
definition DEFAULT_POLL_MILLIS :: u64 where "DEFAULT_POLL_MILLIS = 1000"
definition DEFAULT_RETRY_MILLIS :: u64 where "DEFAULT_RETRY_MILLIS = 1000"

record Field =
  fl_name :: "str option"
  fl_file_name :: "str option"
  fl_content_type :: "str option"
  fl_chunks :: "(u8 list, unit) result list"

type_synonym Multipart = "(Field, unit) result list"

record BatchForm =
  bf_contract_version :: str
  bf_provider :: str
  bf_model :: str
  bf_language :: str
  bf_keyterms :: "str list"
  bf_audio :: "u8 list"

record ('b, 'j, 's) gateway_lib =
  lib_sha256 :: "u8 list \<Rightarrow> u8 list"
  lib_new_v5 :: "uuid \<Rightarrow> u8 list \<Rightarrow> uuid"
  lib_json :: json_text
  lib_uuid :: "uuid uuid_lib"
  lib_capabilities :: "'b \<Rightarrow> BatchCapabilityDescriptor"
  lib_packets :: packet_reader
  lib_samples :: packet_samples
  lib_jobs :: "'j job_store"
  lib_spool :: "'s audio_spool"

record post_env =
  pe_deadline_exceeded :: bool
  pe_validation_join_failed :: bool
  pe_audio_still_shared :: bool
  pe_admit :: admit_env

section \<open>Reading the form\<close>

definition admission_rejected ::
  "('b, 'l) GatewayState \<Rightarrow> ('b, 'l) GatewayState \<times> GatewayHttpError" where
  "admission_rejected state = (count batch_admission_rejection state, rate_limited)"

definition identity_from_fields ::
  "str \<Rightarrow> str \<Rightarrow> str \<Rightarrow> str \<Rightarrow> (BatchIdentity, GatewayHttpError) result" where
  "identity_from_fields version provider model language =
     (if version = lit ''2'' \<and> provider = lit ''deepgram'' \<and> model = lit ''nova-3'' \<and> language = lit ''multi''
      then Ok DeepgramNova3MultiV2
      else if version = lit ''3'' \<and> provider = lit ''elevenlabs'' \<and> model = lit ''scribe_v2''
         \<and> language = lit ''multi''
      then Ok ElevenlabsScribeV2MultiV3
      else Err (bad_request ''UNSUPPORTED_PROFILE''))"

definition form_identity :: "BatchForm \<Rightarrow> (BatchIdentity, GatewayHttpError) result" where
  "form_identity self =
     identity_from_fields (bf_contract_version self) (bf_provider self) (bf_model self) (bf_language self)"

fun next_field :: "Multipart \<Rightarrow> (Field \<times> Multipart, GatewayHttpError) result" where
  "next_field [] = Err (bad_request ''MISSING_MULTIPART_FIELD'')"
| "next_field (Err _ # rest) = Err (bad_request ''INVALID_MULTIPART'')"
| "next_field (Ok fld # rest) = Ok (fld, rest)"

text \<open>The check that the audio is the last field.\<close>

fun no_more_fields :: "Multipart \<Rightarrow> (unit, GatewayHttpError) result" where
  "no_more_fields [] = Ok ()"
| "no_more_fields (Err _ # rest) = Err (bad_request ''INVALID_MULTIPART'')"
| "no_more_fields (Ok _ # rest) = Err (bad_request ''UNEXPECTED_MULTIPART_FIELD'')"

text \<open>\<open>value.len().saturating_add(chunk.len())\<close> is at most \<open>usize::MAX\<close>.\<close>

fun read_chunks ::
  "usize \<Rightarrow> u8 list \<Rightarrow> (u8 list, unit) result list \<Rightarrow> (u8 list, GatewayHttpError) result" where
  "read_chunks limit value [] = Ok value"
| "read_chunks limit value (Err _ # chunks) = Err (bad_request ''INVALID_MULTIPART'')"
| "read_chunks limit value (Ok chunk # chunks) =
     (if min (length value + length chunk) (usize_limit - 1) > limit
      then Err (bad_request ''MULTIPART_FIELD_TOO_LARGE'')
      else read_chunks limit (value @ chunk) chunks)"

definition read_bounded :: "Field \<Rightarrow> usize \<Rightarrow> (u8 list, GatewayHttpError) result" where
  "read_bounded part limit = read_chunks limit [] (fl_chunks part)"

definition read_text :: "Field \<Rightarrow> (str, GatewayHttpError) result" where
  "read_text part =
     and_then (read_bounded part MAX_TEXT_FIELD_BYTES) (\<lambda>bytes.
       ok_or (from_utf8 bytes) (bad_request ''INVALID_TEXT_FIELD''))"

definition read_named_text :: "string \<Rightarrow> Multipart \<Rightarrow> (str \<times> Multipart, GatewayHttpError) result" where
  "read_named_text expected multipart =
     and_then (next_field multipart) (\<lambda>(field, rest).
       if fl_name field \<noteq> Some (lit expected) \<or> fl_file_name field \<noteq> None
       then Err (bad_request ''INVALID_MULTIPART_ORDER'')
       else map_ok (\<lambda>t. (t, rest)) (read_text field))"

text \<open>The part of the form after the profile: it runs with a provider permit.\<close>

definition parse_multipart_rest ::
  "json_text \<Rightarrow> usize \<Rightarrow> str \<Rightarrow> str \<Rightarrow> str \<Rightarrow> str \<Rightarrow> Multipart \<Rightarrow> (BatchForm, GatewayHttpError) result" where
  "parse_multipart_rest jt audio_limit version provider model language multipart =
     and_then (read_named_text ''keyterms'' multipart) (\<lambda>(keyterms_text, rest).
     and_then (next_field rest) (\<lambda>(file, rest').
     if fl_name file \<noteq> Some (lit ''file'') \<or> fl_file_name file \<noteq> Some (lit ''speaker-track.ogg'')
        \<or> fl_content_type file \<noteq> Some (lit ''audio/ogg'')
     then Err (bad_request ''INVALID_AUDIO_PART'')
     else and_then (read_bounded file audio_limit) (\<lambda>audio.
        and_then (no_more_fields rest') (\<lambda>_.
        and_then (ok_or (Option.bind (of_text jt keyterms_text) string_list) (bad_request ''INVALID_KEYTERMS''))
          (\<lambda>raw_keyterms.
        and_then (map_err (\<lambda>_. bad_request ''INVALID_KEYTERMS'') (canonicalize_keyterms raw_keyterms))
          (\<lambda>keyterms.
        Ok \<lparr>bf_contract_version = version, bf_provider = provider, bf_model = model,
            bf_language = language, bf_keyterms = keyterms, bf_audio = audio\<rparr>))))))"

text \<open>On success the state holds the permit of the form's provider.\<close>

definition parse_multipart ::
  "json_text \<Rightarrow> usize \<Rightarrow> Multipart \<Rightarrow> ('b, 'l) GatewayState
   \<Rightarrow> ('b, 'l) GatewayState \<times> (BatchForm, GatewayHttpError) result" where
  "parse_multipart jt audio_limit multipart state =
     (case and_then (read_named_text ''contract_version'' multipart) (\<lambda>(version, m1).
           and_then (read_named_text ''provider'' m1) (\<lambda>(provider, m2).
           and_then (read_named_text ''model'' m2) (\<lambda>(model, m3).
           and_then (read_named_text ''language'' m3) (\<lambda>(language, m4).
           and_then (identity_from_fields version provider model language) (\<lambda>identity.
             Ok (identity, version, provider, model, language, m4)))))) of
        Err e \<Rightarrow> (state, Err e)
      | Ok (identity, version, provider, model, language, m4) \<Rightarrow>
          if registry_batch (gs_profiles state) identity = None then (state, Err unsupported_profile)
          else (case try_acquire_provider_batch_slot state identity of
                  None \<Rightarrow> (case admission_rejected state of (state', e) \<Rightarrow> (state', Err e))
                | Some state' \<Rightarrow>
                    (case parse_multipart_rest jt audio_limit version provider model language m4 of
                       Err e \<Rightarrow> (release_provider identity state', Err e)
                     | Ok form \<Rightarrow> (state', Ok form))))"

definition parse_idempotency_key :: "HeaderMap \<Rightarrow> (IdempotencyKey, GatewayHttpError) result" where
  "parse_idempotency_key headers =
     (let invalid = bad_request ''INVALID_IDEMPOTENCY_KEY'' in
      case get_all headers IDEMPOTENCY_HEADER of
        [] \<Rightarrow> Err invalid
      | [value] \<Rightarrow> and_then (ok_or (header_to_str value) invalid) (\<lambda>s.
          map_err (\<lambda>_. invalid) (idempotency_key_parse s))
      | _ \<Rightarrow> Err invalid)"

section \<open>From the form to an admission\<close>

text \<open>\<open>BatchProfile::new(..).expect(..)\<close> of a frozen identity.\<close>

definition batch_profile :: "BatchIdentity \<Rightarrow> BatchProfile" where
  "batch_profile identity =
     (case profile_new (ucast (contract_version identity)) (lit (identity_provider identity))
             (lit (identity_model identity)) (lit (identity_language identity)) of
        Ok p \<Rightarrow> p
      | Err _ \<Rightarrow> \<lparr>bp_contract_version = 0, bp_provider = [], bp_model = [], bp_language = []\<rparr>)"

definition capability_request :: "BatchIdentity \<Rightarrow> BatchForm \<Rightarrow> BatchCapabilityRequest" where
  "capability_request identity form =
     \<lparr>bcr_timestamps = True, bcr_finalized_events = True,
      bcr_language_hint = Some (lit (identity_language identity)), bcr_diarization = False,
      bcr_key_terms = bf_keyterms form, bcr_input_format = OggOpus,
      bcr_input_bytes = length (bf_audio form)\<rparr>"

definition admission_request ::
  "('b, 'j, 's) gateway_lib \<Rightarrow> post_env \<Rightarrow> ('b, 'l) GatewayState \<Rightarrow> IdempotencyKey \<Rightarrow> BatchForm
   \<Rightarrow> (BatchIdentity \<times> BatchAdmissionRequest, GatewayHttpError) result" where
  "admission_request lib env state key form =
     and_then (form_identity form) (\<lambda>identity.
     and_then (ok_or (registry_batch (gs_profiles state) identity) unsupported_profile) (\<lambda>recognizer.
     and_then (map_err (\<lambda>_. bad_request ''UNSUPPORTED_BATCH_CAPABILITY'')
                 (batch_validate (lib_capabilities lib recognizer) (capability_request identity form))) (\<lambda>_.
     and_then (require (length (bf_audio form) < 2 ^ 64) (bad_request ''MULTIPART_FIELD_TOO_LARGE'')) (\<lambda>_.
     and_then (require (\<not> pe_validation_join_failed env) (http_unavailable ''VALIDATION_UNAVAILABLE'')) (\<lambda>_.
     and_then (map_err (\<lambda>_. bad_request ''INVALID_OGG_OPUS'')
                 (validate_complete_ogg_opus (lib_packets lib) (lib_samples lib) (bf_audio form))) (\<lambda>validated.
     and_then (require (\<not> pe_audio_still_shared env) (http_unavailable ''VALIDATION_UNAVAILABLE'')) (\<lambda>_.
     and_then (map_err (\<lambda>_. bad_request ''INVALID_BATCH_REQUEST'')
                 (request_fingerprint (lib_sha256 lib) (batch_profile identity) (bf_keyterms form) (bf_audio form)))
       (\<lambda>fingerprint.
     Ok (identity,
         \<lparr>bar_id = uuid_text (lib_uuid lib) (deterministic_job_id (lib_new_v5 lib) key),
          bar_profile = batch_profile identity, bar_fingerprint = fingerprint, bar_audio = bf_audio form,
          bar_authoritative_duration_millis = vo_duration_millis validated,
          bar_keyterms = bf_keyterms form\<rparr>)))))))))"

fun map_coordinator_failure :: "BatchCoordinatorFailure \<Rightarrow> GatewayHttpError" where
  "map_coordinator_failure (AdmissionConflict _) = conflict"
| "map_coordinator_failure (SpoolFailure _) = http_unavailable ''SPOOL_UNAVAILABLE''"
| "map_coordinator_failure (AdmissionCleanup _ _) = http_unavailable ''SPOOL_UNAVAILABLE''"
| "map_coordinator_failure (StoreFailure _) = http_unavailable ''DATABASE_UNAVAILABLE''"
| "map_coordinator_failure (AdmissionStoreUncertain _ _) = http_unavailable ''DATABASE_UNAVAILABLE''"
| "map_coordinator_failure (Transition _) = http_unavailable ''DATABASE_UNAVAILABLE''"
| "map_coordinator_failure (PostEgressStore _) = http_unavailable ''DATABASE_UNAVAILABLE''"
| "map_coordinator_failure PostEgressConflict = http_unavailable ''DATABASE_UNAVAILABLE''"

section \<open>Responses\<close>

definition safe_failure_code :: "str \<Rightarrow> str" where
  "safe_failure_code code =
     (if code \<noteq> [] \<and> str_len code \<le> 128
         \<and> list_all (\<lambda>b. ascii_uppercase b \<or> ascii_digit b \<or> b = 0x5F) (str_bytes code)
      then code else lit ''TRANSCRIPTION_FAILED'')"

definition outbound_for_snapshot ::
  "BatchIdentity \<Rightarrow> 'u \<Rightarrow> BatchJobSnapshot \<Rightarrow> ('u OutboundBatchResponse, GatewayHttpError) result" where
  "outbound_for_snapshot identity job_id snapshot =
     (case job_state (sn_job snapshot) of
        Accepted \<Rightarrow> Ok (RespPending job_id Poll DEFAULT_POLL_MILLIS)
      | Submitting _ \<Rightarrow> Ok (RespPending job_id Poll DEFAULT_POLL_MILLIS)
      | Retryable _ _ \<Rightarrow>
          Ok (RespPending job_id Retry
                (case sn_retry_after_millis snapshot of Some v \<Rightarrow> v | None \<Rightarrow> DEFAULT_RETRY_MILLIS))
      | Failed _ failure \<Rightarrow> Ok (RespFailed job_id (safe_failure_code (failure_code failure)))
      | OutcomeUnknown _ reason \<Rightarrow>
          Ok (RespFailed job_id
                (case reason of
                   InterruptedSubmission \<Rightarrow> lit ''SUBMISSION_INTERRUPTED''
                 | Submission _ \<Rightarrow> lit ''PROVIDER_OUTCOME_UNKNOWN''))
      | Completed _ \<Rightarrow>
          and_then (ok_or (sn_result snapshot) (http_unavailable ''INVALID_JOB_SNAPSHOT'')) (\<lambda>result.
            Ok (completed_response identity job_id result)))"

definition response_for_snapshot ::
  "json_text \<Rightarrow> 'u uuid_lib \<Rightarrow> BatchIdentity \<Rightarrow> 'u \<Rightarrow> BatchJobSnapshot
   \<Rightarrow> (HttpResponse, GatewayHttpError) result" where
  "response_for_snapshot jt ul identity job_id snapshot =
     and_then (outbound_for_snapshot identity job_id snapshot) (\<lambda>outbound.
     and_then (map_err (\<lambda>_. http_unavailable ''RESPONSE_PROJECTION_FAILED'')
                 (serialize_response jt ul identity outbound)) (\<lambda>serialized.
     Ok \<lparr>hr_status = (case sbr_status serialized of StatusAccepted \<Rightarrow> 202 | StatusOk \<Rightarrow> 200),
         hr_headers = [(''content-type'', str_bytes (lit ''application/json''))],
         hr_body = sbr_body serialized\<rparr>))"

section \<open>The handlers\<close>

text \<open>\<open>spawn_execution\<close>: the task takes the three permits of the request.\<close>

definition spawn_execution ::
  "('b, 'l) GatewayState \<Rightarrow> BatchIdentity \<Rightarrow> BatchJobId \<Rightarrow> u64 \<Rightarrow> ('b, 'l) GatewayState" where
  "spawn_execution state identity job_id audio_bytes =
     fst (spawn_batch_task state
            \<lparr>bt_identity = identity, bt_job = job_id, bt_audio_bytes = audio_bytes\<rparr>)"

type_synonym ('b, 'l, 'j, 's) served =
  "('b, 'l) GatewayState \<times> 'j \<times> 's \<times> (HttpResponse, GatewayHttpError) result"

text \<open>After the form: admission, registration of the task, and the response. All three permits are held.\<close>

definition post_admit ::
  "('b, 'j, 's) gateway_lib \<Rightarrow> post_env \<Rightarrow> ('b, 'l) GatewayState \<Rightarrow> 'j \<Rightarrow> 's \<Rightarrow> IdempotencyKey
   \<Rightarrow> BatchIdentity \<Rightarrow> BatchAdmissionRequest \<Rightarrow> ('b, 'l, 'j, 's) served" where
  "post_admit lib env state l s key identity request =
     (let job_uuid = deterministic_job_id (lib_new_v5 lib) key;
          audio_bytes = of_nat (length (bar_audio request)) in
      case admit (lib_jobs lib) (lib_spool lib) (pe_admit env) l s request of
        (l', s', Err failure) \<Rightarrow>
          (release_permits identity
             (count (case failure of AdmissionConflict _ \<Rightarrow> batch_conflict | _ \<Rightarrow> count_batch_failure) state),
           l', s', Err (map_coordinator_failure failure))
      | (l', s', Ok outcome) \<Rightarrow>
          (let (state1, snapshot) =
                 (case outcome of
                    AdmAccepted snapshot \<Rightarrow> (count (\<lambda>m. spool_admitted m audio_bytes) state, snapshot)
                  | AdmReplay snapshot \<Rightarrow> (state, snapshot));
               state2 =
                 (case job_state (sn_job snapshot) of
                    Accepted \<Rightarrow> spawn_execution state1 identity (bar_id request) audio_bytes
                  | Retryable _ _ \<Rightarrow> spawn_execution state1 identity (bar_id request) audio_bytes
                  | _ \<Rightarrow> release_permits identity state1)
           in (state2, l', s',
               response_for_snapshot (lib_json lib) (lib_uuid lib) identity job_uuid snapshot)))"

definition post ::
  "('b, 'j, 's) gateway_lib \<Rightarrow> post_env \<Rightarrow> HeaderMap \<Rightarrow> Multipart
   \<Rightarrow> ('b, 'l) GatewayState \<Rightarrow> 'j \<Rightarrow> 's \<Rightarrow> ('b, 'l, 'j, 's) served" where
  "post lib env headers multipart state l s =
     (case authenticate (lib_sha256 lib) headers (gs_auth state) of
        Err e \<Rightarrow> (state, l, s, Err (unauthorized e))
      | Ok _ \<Rightarrow>
     let state = count batch_request state in
     case try_acquire_global_batch_slot state of
        None \<Rightarrow> (case admission_rejected state of (state', e) \<Rightarrow> (state', l, s, Err e))
      | Some state1 \<Rightarrow>
     case try_acquire_batch_slot state1 of
        None \<Rightarrow> (case admission_rejected state1 of (state', e) \<Rightarrow> (release_global state', l, s, Err e))
      | Some state2 \<Rightarrow>
     case parse_idempotency_key headers of
        Err e \<Rightarrow> (release_batch (release_global state2), l, s, Err e)
      | Ok key \<Rightarrow>
     if pe_deadline_exceeded env
     then (release_batch (release_global state2), l, s, Err (bad_request ''UPLOAD_DEADLINE_EXCEEDED''))
     else case parse_multipart (lib_json lib) (gl_batch_upload_bytes (gs_limits state2)) multipart state2 of
        (state3, Err e) \<Rightarrow> (release_batch (release_global state3), l, s, Err e)
      | (state3, Ok form) \<Rightarrow>
     case admission_request lib env state3 key form of
        Err e \<Rightarrow>
          (case form_identity form of
             Ok identity \<Rightarrow> release_permits identity state3
           | Err _ \<Rightarrow> release_batch (release_global state3), l, s, Err e)
      | Ok (identity, request) \<Rightarrow> post_admit lib env state3 l s key identity request)"

definition get_job ::
  "('b, 'j, 's) gateway_lib \<Rightarrow> fault \<Rightarrow> HeaderMap \<Rightarrow> str \<Rightarrow> ('b, 'l) GatewayState \<Rightarrow> 'j
   \<Rightarrow> ('b, 'l) GatewayState \<times> (HttpResponse, GatewayHttpError) result" where
  "get_job lib f headers job_id_path state l =
     (case authenticate (lib_sha256 lib) headers (gs_auth state) of
        Err e \<Rightarrow> (state, Err (unauthorized e))
      | Ok _ \<Rightarrow>
     let state = count batch_request state in
     case uuid_parse (lib_uuid lib) job_id_path of
        None \<Rightarrow> (state, Err not_found)
      | Some job_uuid \<Rightarrow>
     if uuid_text (lib_uuid lib) job_uuid \<noteq> job_id_path then (state, Err not_found)
     else case js_load (lib_jobs lib) f l (uuid_text (lib_uuid lib) job_uuid) of
        Err _ \<Rightarrow> (count count_batch_failure state, Err (http_unavailable ''DATABASE_UNAVAILABLE''))
      | Ok None \<Rightarrow> (state, Err not_found)
      | Ok (Some snapshot) \<Rightarrow>
     case identity_for_profile (job_profile (sn_job snapshot)) of
        None \<Rightarrow> (state, Err (http_unavailable ''INVALID_JOB_SNAPSHOT''))
      | Some identity \<Rightarrow>
          (state, response_for_snapshot (lib_json lib) (lib_uuid lib) identity job_uuid snapshot))"

end
