(* ===== verification/Batch_Service.thy ===== *)
theory Batch_Service
  imports Batch_Server
begin

text \<open>
  What the batch handlers answer: a stored job can always be served, and the codes a failed job shows
  to a client are safe.
\<close>

section \<open>Responses\<close>

text \<open>Bodies that carry no transcript are far below the limit of 2 MiB.\<close>

definition short_states :: "json_text \<Rightarrow> 'u uuid_lib \<Rightarrow> bool" where
  "short_states jt ul \<longleftrightarrow>
     (\<forall>i j a n. str_len (to_text jt (JObject (pending_state ul j a n))) \<le> CB_MAX_BODY_BYTES \<and>
        str_len (to_text jt (envelope_v3 i (pending_state ul j a n))) \<le> CB_MAX_BODY_BYTES) \<and>
     (\<forall>i j c. str_len c \<le> 128 \<longrightarrow>
        str_len (to_text jt (JObject (failed_state ul j c))) \<le> CB_MAX_BODY_BYTES \<and>
        str_len (to_text jt (envelope_v3 i (failed_state ul j c))) \<le> CB_MAX_BODY_BYTES)"

definition safe_code :: "str \<Rightarrow> bool" where
  "safe_code c \<longleftrightarrow> c \<noteq> [] \<and> str_len c \<le> 128 \<and>
     list_all (\<lambda>b. ascii_uppercase b \<or> ascii_digit b \<or> b = 0x5F) (str_bytes c)"

lemma frozen_codes_safe:
  "safe_code (lit ''TRANSCRIPTION_FAILED'')" "safe_code (lit ''SUBMISSION_INTERRUPTED'')"
  "safe_code (lit ''PROVIDER_OUTCOME_UNKNOWN'')"
  by (simp_all add: safe_code_def lit_Cons utf8_char_def byte_def ascii_uppercase_def ascii_digit_def
      str_bytes_def str_len_def)

lemma safe_failure_code_safe: "safe_code (safe_failure_code c)"
  using frozen_codes_safe(1) by (auto simp: safe_failure_code_def safe_code_def)

lemma safe_code_valid: "safe_code c \<Longrightarrow> out_validate_error_code c = Ok ()"
  using utf16_le_utf8 [of c]
  by (simp add: safe_code_def out_validate_error_code_def CB_MAX_ERROR_CODE_CHARS_def)

lemma pending_served:
  assumes "short_states jt ul" and "n \<le> CB_MAX_RETRY_AFTER_MS"
  shows "\<exists>b. serialize_response jt ul i (RespPending j a n) = Ok b"
  using assms unfolding short_states_def
  by (auto simp: serialize_response_def batch_response_json_def pending_state_def Let_def)

lemma failed_served:
  assumes "short_states jt ul" and "safe_code c"
  shows "\<exists>b. serialize_response jt ul i (RespFailed j c) = Ok b"
  using assms safe_code_valid [OF assms(2)] unfolding short_states_def
  by (auto simp: serialize_response_def batch_response_json_def failed_state_def safe_code_def Let_def)

lemma response_Ok_iff:
  "(\<exists>r. response_for_snapshot jt ul i u sn = Ok r) \<longleftrightarrow>
     (\<exists>out b. outbound_for_snapshot i u sn = Ok out \<and> serialize_response jt ul i out = Ok b)"
  by (auto simp: response_for_snapshot_def)

text \<open>The projection that was checked before a result was stored is the one that serves it.\<close>

lemma completed_untyped:
  "completed_response i u (r\<lparr>brr_provider_reference := untyped_reference (brr_provider_reference r)\<rparr>)
   = completed_response i u r"
  by (simp add: completed_response_def untyped_reference_def option.map_comp comp_def reference_new_def)

lemma projection_served:
  assumes "gateway_projection jt ul job r = Ok ()" and "uuid_parse ul job = Some u"
    and "identity_for_profile (brr_profile r) = Some i"
  shows "\<exists>b. serialize_response jt ul i (completed_response i u r) = Ok b"
  using assms by (auto simp: gateway_projection_def identity_for_result_def)

lemma served_if:
  assumes "short_states jt ul" and "stored_snapshot sn"
    and "\<And>r. sn_result sn = Some r \<Longrightarrow>
      \<exists>b. serialize_response jt ul i (completed_response i u r) = Ok b"
  shows "\<exists>r. response_for_snapshot jt ul i u sn = Ok r"
proof (cases "job_state (sn_job sn)")
  case (Completed a)
  then obtain r where "sn_result sn = Some r" using assms(2) by (auto simp: stored_snapshot_def is_completed_def)
  then show ?thesis using assms(3) Completed unfolding response_Ok_iff by (simp add: outbound_for_snapshot_def)
next
  case (Retryable a f)
  then have "(case sn_retry_after_millis sn of Some v \<Rightarrow> v | None \<Rightarrow> DEFAULT_RETRY_MILLIS) \<le> CB_MAX_RETRY_AFTER_MS"
    using assms(2)
    by (auto simp: stored_snapshot_def DEFAULT_RETRY_MILLIS_def CB_MAX_RETRY_AFTER_MS_def
        MAX_RETRY_AFTER_MILLIS_def split: option.splits)
  then show ?thesis
    using pending_served [OF assms(1)] Retryable unfolding response_Ok_iff
    by (simp add: outbound_for_snapshot_def)
next
  case (Failed a f)
  then show ?thesis
    using failed_served [OF assms(1) safe_failure_code_safe] unfolding response_Ok_iff
    by (simp add: outbound_for_snapshot_def)
next
  case (OutcomeUnknown a r)
  then show ?thesis
    using failed_served [OF assms(1)] frozen_codes_safe unfolding response_Ok_iff
    by (cases r) (simp_all add: outbound_for_snapshot_def)
qed (use pending_served [OF assms(1), of DEFAULT_POLL_MILLIS] in
      \<open>simp_all add: response_Ok_iff outbound_for_snapshot_def DEFAULT_POLL_MILLIS_def
        CB_MAX_RETRY_AFTER_MS_def\<close>)

text \<open>C37: Every job that reaches the ledger can be served. Take a claimed job, whatever the provider
  answered, apply the outcome under the projection the gateway uses, write the row and read it back:
  the response for the snapshot that is read exists, so a client that polls never gets
  \<open>RESPONSE_PROJECTION_FAILED\<close> or \<open>INVALID_JOB_SNAPSHOT\<close> for a paid result. Failure codes, retry delays
  and transcripts that the contract would refuse were replaced or rejected before they were stored.\<close>

theorem stored_jobs_are_served:
  assumes "codec_laws cd" and "wf_job (sn_job claimed)" and "job_state (sn_job claimed) = Submitting attempt"
    and "identity_for_profile (job_profile (sn_job claimed)) = Some identity"
    and "uuid_parse ul (sn_id claimed) = Some job_uuid" and "short_states jt ul"
    and "apply_recognition_outcome claimed answer (gateway_projection jt ul) = Ok snapshot"
    and "record_of_snapshot cd snapshot = Ok row"
  shows "\<exists>stored response. snapshot_of_record cd row = Ok stored \<and>
           response_for_snapshot jt ul identity job_uuid stored = Ok response"
proof -
  have attempt: "attempt \<noteq> 0" using assms(2,3) by (simp add: wf_job_def)
  have sn: "snapshot = claimed\<lparr>sn_job := (sn_job claimed)\<lparr>job_state := outcome_state claimed attempt answer (gateway_projection jt ul)\<rparr>,
                  sn_provider_reference := outcome_reference answer,
                  sn_retry_after_millis := outcome_retry_after answer,
                  sn_result := outcome_result claimed answer (gateway_projection jt ul)\<rparr>"
    using assms(7) unfolding apply_outcome_submitting [OF assms(3)] by simp
  have wf: "wf_job (sn_job snapshot)"
    using assms(2) wf_outcome_state [OF attempt] by (simp add: sn wf_job_def)
  have st: "snapshot_of_record cd row = Ok (untyped snapshot)"
    by (rule record_roundtrip_untyped [OF assms(1) wf assms(8)])
  note stored = snapshot_of_record_stored(1) [OF st]
  have "\<exists>b. serialize_response jt ul identity (completed_response identity job_uuid r) = Ok b"
    if r: "sn_result (untyped snapshot) = Some r" for r
  proof -
    obtain r0 where r0: "sn_result snapshot = Some r0"
      "r = r0\<lparr>brr_provider_reference := untyped_reference (brr_provider_reference r0)\<rparr>"
      using r by (auto simp: untyped_def)
    have "is_completed (outcome_state claimed attempt answer (gateway_projection jt ul))"
      using stored r by (auto simp: stored_snapshot_def untyped_def sn)
    with r0(1) have "result_contract claimed r0" "gateway_projection jt ul (sn_id claimed) r0 = Ok ()"
      by (auto simp: sn outcome_result_def outcome_state_def is_completed_def is_ok_iff
          split: result.splits RecognitionFailure.splits bool.splits if_splits)
    then show ?thesis
      using projection_served [OF _ assms(5)] assms(4) r0(2)
      by (simp add: completed_untyped result_contract_def)
  qed
  with served_if [OF assms(6) stored] st show ?thesis by blast
qed

text \<open>C40: Provider text never reaches a client as an error code: whatever code a failed job carries, the
  code in the response is a non-empty word of at most 128 bytes made of capital letters, digits and
  underscores, and a code that already has this form is passed on unchanged.\<close>

theorem failure_codes_are_safe:
  assumes "outbound_for_snapshot identity job_uuid snapshot = Ok (RespFailed j code)"
  shows "j = job_uuid \<and> safe_code code \<and>
         (\<forall>a f. job_state (sn_job snapshot) = Failed a f \<longrightarrow> safe_code (failure_code f) \<longrightarrow> code = failure_code f)"
proof -
  have "safe_failure_code c = c" if "safe_code c" for c
    using that by (simp add: safe_failure_code_def safe_code_def)
  then show ?thesis
    using assms safe_failure_code_safe frozen_codes_safe
    by (auto simp: outbound_for_snapshot_def completed_response_def
        split: BatchJobState.splits BatchUnknownOutcome.splits)
qed

section \<open>Samples\<close>

lemma frozen_profiles:
  "profile_new (ucast (contract_version i)) (lit (identity_provider i)) (lit (identity_model i))
     (lit (identity_language i)) = Ok (batch_profile i)"
  "batch_profile i =
     \<lparr>bp_contract_version = ucast (contract_version i), bp_provider = lit (identity_provider i),
      bp_model = lit (identity_model i), bp_language = lit (identity_language i)\<rparr>"
proof -
  have "profile_new (ucast (contract_version i)) (lit (identity_provider i)) (lit (identity_model i))
     (lit (identity_language i)) = Ok \<lparr>bp_contract_version = ucast (contract_version i),
      bp_provider = lit (identity_provider i), bp_model = lit (identity_model i),
      bp_language = lit (identity_language i)\<rparr>"
    by (cases i) (simp_all add: profile_new_def validate_profile_field_def identity_language_def lit_Cons
        trim_def trim_start_def trim_end_def is_whitespace_def has_control_def is_control_def)
  then show "profile_new (ucast (contract_version i)) (lit (identity_provider i)) (lit (identity_model i))
     (lit (identity_language i)) = Ok (batch_profile i)"
    "batch_profile i =
     \<lparr>bp_contract_version = ucast (contract_version i), bp_provider = lit (identity_provider i),
      bp_model = lit (identity_model i), bp_language = lit (identity_language i)\<rparr>"
    by (simp_all add: batch_profile_def)
qed

lemma identity_of_frozen_profile: "identity_for_profile (batch_profile i) = Some i"
  by (cases i) (simp_all add: frozen_profiles(2) identity_for_profile_def identity_language_def)

definition claimed_sample :: BatchJobSnapshot where
  "claimed_sample =
     stored_sample\<lparr>sn_job := (sn_job stored_sample)\<lparr>job_profile := batch_profile DeepgramNova3MultiV2\<rparr>,
                   sn_provider_reference := None\<rparr>"

definition number_uuids :: "uuid uuid_lib" where
  "number_uuids =
     \<lparr>uuid_text = (\<lambda>u. [unat u]), uuid_parse = (\<lambda>s. case s of [n] \<Rightarrow> Some (of_nat n) | _ \<Rightarrow> None),
      uuid_rfc4122 = (\<lambda>_. True), uuid_version = (\<lambda>_. 4)\<rparr>"

lemma short_sample: "short_states (one_value v) ul"
  by (simp add: short_states_def one_value_def CB_MAX_BODY_BYTES_def utf8_char_def str_len_def str_bytes_def)

lemma claimed_sample_state: "job_state (sn_job claimed_sample) = Submitting 1"
  "sn_id claimed_sample = [7]" "job_profile (sn_job claimed_sample) = batch_profile DeepgramNova3MultiV2"
  by (simp_all add: claimed_sample_def stored_sample_def sample_snapshot_def)

lemma claimed_sample_wf: "wf_job (sn_job claimed_sample)"
  using stored_sample_wf profile_new_wf [OF frozen_profiles(1) [of DeepgramNova3MultiV2]]
  by (simp add: claimed_sample_def wf_job_def)

lemma sample_failure: "batch_failure [88] = BatchFailure [88]"
  by (simp add: batch_failure_eq failure_new_def trim_def trim_start_def trim_end_def is_whitespace_def
      MAX_CODE_BYTES_def utf8_char_def has_control_def is_control_def)

lemma unknown_sample_encodes:
  "is_ok (record_of_snapshot sample_codec (claimed_sample\<lparr>sn_job := (sn_job claimed_sample)
     \<lparr>job_state := OutcomeUnknown 1 (Submission (BatchFailure [88]))\<rparr>\<rparr>))"
proof -
  have h: "validate_handle (sn_audio claimed_sample) [7] = Ok ()"
    using stored_sample_handle by (simp add: claimed_sample_def stored_sample_def sample_snapshot_def)
  show ?thesis
    unfolding record_of_snapshot_def Let_def
    by (simp add: claimed_sample_state h)
      (simp add: claimed_sample_def stored_sample_def sample_snapshot_def sample_codec_def canonical_uuid_def
      frozen_profiles(2) identity_language_def lit_Cons
      validate_profile_def MAX_PROFILE_FIELD_BYTES_def utf8_char_def record_validate_keyterms_def
      MAX_KEYTERMS_def MAX_KEYTERMS_BYTES_def validate_reference_def
      str_bytes_def byte_def validate_retry_after_def validate_result_presence_def is_completed_def i16_of_u16_def
      i64_of_u64_def)
qed

theorem stored_jobs_are_served_witness:
  "\<exists>row stored response. snapshot_of_record sample_codec row = Ok stored \<and>
     response_for_snapshot (one_value JNull) number_uuids DeepgramNova3MultiV2 7 stored = Ok response"
proof -
  let ?answer = "Err (UnknownAfterSend [88] None) :: (BatchRecognitionResult, RecognitionFailure) result"
  let ?sn = "claimed_sample\<lparr>sn_job := (sn_job claimed_sample)
     \<lparr>job_state := OutcomeUnknown 1 (Submission (BatchFailure [88]))\<rparr>\<rparr>"
  have "apply_recognition_outcome claimed_sample ?answer (gateway_projection (one_value JNull) number_uuids) = Ok ?sn"
    unfolding apply_outcome_submitting [OF claimed_sample_state(1)]
    by (simp add: outcome_state_def outcome_reference_def outcome_retry_after_def outcome_result_def sample_failure
        claimed_sample_def stored_sample_def sample_snapshot_def)
  moreover obtain row where "record_of_snapshot sample_codec ?sn = Ok row"
    using unknown_sample_encodes by (auto simp: is_ok_iff)
  moreover have "uuid_parse number_uuids (sn_id claimed_sample) = Some 7"
    by (simp add: number_uuids_def claimed_sample_state)
  ultimately show ?thesis
    using stored_jobs_are_served [OF sample_codec_laws claimed_sample_wf claimed_sample_state(1), where jt = "one_value JNull"]
      short_sample identity_of_frozen_profile [of DeepgramNova3MultiV2]
    by (metis claimed_sample_state(3))
qed

theorem failure_codes_are_safe_witness:
  "safe_code (lit ''TRANSCRIPTION_FAILED'')"
proof -
  have "outbound_for_snapshot DeepgramNova3MultiV2 (7 :: uuid)
      (claimed_sample\<lparr>sn_job := (sn_job claimed_sample)\<lparr>job_state := Failed 1 (BatchFailure [120])\<rparr>\<rparr>)
      = Ok (RespFailed 7 (lit ''TRANSCRIPTION_FAILED''))"
    by (simp add: outbound_for_snapshot_def safe_failure_code_def utf8_char_def byte_def ascii_uppercase_def
        ascii_digit_def)
  from failure_codes_are_safe [OF this] show ?thesis by simp
qed

end
