(* ===== verification/Qualification.thy ===== *)
theory Qualification
  imports Identity Ports
begin

text \<open>
  The evidence records of a qualification campaign:
  \<^verbatim>\<open>crates/voicetext-gateway/src/server/qualification_observation.rs\<close>. A hasher is the list of bytes it
  was fed; SHA-256 is an argument, and so is \<open>f32::to_bits\<close>, because the values of \<open>float\<close> do
  not tell the two zeros and the NaNs apart. The clock and the random identifiers are arguments
  too. The sink that writes the records to files is not part of this theory.
\<close>

section \<open>Digests\<close>

definition FRAME_DIGEST_PREFIX :: "u8 list" where
  "FRAME_DIGEST_PREFIX = str_bytes (lit ''voicetext-acked-frames-v1'' @ [10])"

definition RESULT_DIGEST_PREFIX :: "u8 list" where
  "RESULT_DIGEST_PREFIX = str_bytes (lit ''voicetext-normalized-result-v1'' @ [10])"

text \<open>\<open>u64::try_from(len).unwrap_or(u64::MAX)\<close>.\<close>

definition u64_len :: "nat \<Rightarrow> nat" where "u64_len n = (if n < 2 ^ 64 then n else 2 ^ 64 - 1)"

definition digest_bytes :: "u8 list \<Rightarrow> u8 list \<Rightarrow> u8 list" where
  "digest_bytes digest value = digest @ be_bytes 8 (u64_len (length value)) @ value"

definition u64_be :: "u64 \<Rightarrow> u8 list" where "u64_be w = be_bytes 8 (unat w)"

definition confidence_bits :: "(float \<Rightarrow> u32) \<Rightarrow> float option \<Rightarrow> u32" where
  "confidence_bits to_bits c = (case c of None \<Rightarrow> - 1 | Some v \<Rightarrow> to_bits v)"

definition lowercase_digit :: "nat \<Rightarrow> scalar" where
  "lowercase_digit n = (if n < 10 then 48 + n else 87 + n)"

definition hex_encode :: "u8 list \<Rightarrow> str" where
  "hex_encode bs = concat (map (\<lambda>b. [lowercase_digit (unat b div 16), lowercase_digit (unat b mod 16)]) bs)"

definition segment_digest :: "(float \<Rightarrow> u32) \<Rightarrow> u8 list \<Rightarrow> BatchSegment \<Rightarrow> u8 list" where
  "segment_digest to_bits digest segment =
     (let digest = digest @ u64_be (bs_start_millis segment) @ u64_be (bs_end_millis segment);
          digest = digest_bytes digest (str_bytes (bs_text segment));
          digest = digest @ be_bytes 4 (unat (confidence_bits to_bits (bs_confidence segment)))
      in digest_bytes digest (str_bytes (case bs_speaker segment of None \<Rightarrow> [] | Some s \<Rightarrow> s)))"

definition batch_result_input :: "(float \<Rightarrow> u32) \<Rightarrow> BatchRecognitionResult \<Rightarrow> u8 list" where
  "batch_result_input to_bits result =
     (let profile = brr_profile result;
          digest = RESULT_DIGEST_PREFIX;
          digest = fold (\<lambda>value digest. digest_bytes digest (str_bytes value))
                     [bp_provider profile, bp_model profile, bp_language profile, brr_text result] digest;
          digest = digest @ be_bytes 2 (unat (bp_contract_version profile));
          digest = digest @ u64_be (brr_duration_millis result);
          digest = digest @ u64_be (case brr_provider_duration_millis result of None \<Rightarrow> - 1 | Some v \<Rightarrow> v);
          digest = digest @ be_bytes 8 (u64_len (length (brr_segments result)))
      in fold (\<lambda>segment digest. segment_digest to_bits digest segment) (brr_segments result) digest)"

definition batch_result_digest ::
  "(u8 list \<Rightarrow> u8 list) \<Rightarrow> (float \<Rightarrow> u32) \<Rightarrow> BatchRecognitionResult \<Rightarrow> str" where
  "batch_result_digest sha256 to_bits result = hex_encode (sha256 (batch_result_input to_bits result))"

section \<open>Records\<close>

record ObservationProfile =
  op_contract_version :: u16
  op_provider :: str
  op_model :: str
  op_language :: str

record OperationObservation =
  oo_kind :: str
  oo_id :: str

definition operation_observation :: "ProviderOperation \<Rightarrow> OperationObservation" where
  "operation_observation value =
     \<lparr>oo_kind = (case po_kind value of
          RequestId \<Rightarrow> lit ''request_id''
        | TranscriptionId \<Rightarrow> lit ''transcription_id''
        | SessionId \<Rightarrow> lit ''session_id''),
      oo_id = po_id value\<rparr>"

record BatchObservation =
  bo_schema :: str
  bo_effect_id :: uuid
  bo_gateway_job_id :: str
  bo_profile :: ObservationProfile
  bo_provider_operation :: "OperationObservation option"
  bo_result_digest :: "str option"
  bo_started_at_unix_ms :: u64
  bo_finished_at_unix_ms :: u64
  bo_terminal_status :: str
  bo_durable_persistence :: str

record SequenceObservation =
  so_count :: u64
  so_first :: "u64 option"
  so_last :: "u64 option"
  so_contiguous :: bool

record LiveObservation =
  lo_schema :: str
  lo_effect_id :: uuid
  lo_client_session_id :: uuid
  lo_gateway_session_id :: uuid
  lo_profile :: ObservationProfile
  lo_provider_operation :: "OperationObservation option"
  lo_accepted_frame_count :: u64
  lo_written_sequences :: SequenceObservation
  lo_acked_sequences :: SequenceObservation
  lo_acked_raw_input_digest :: str
  lo_result_digest :: str
  lo_finalize_result_observed :: bool
  lo_terminal_status :: str
  lo_started_at_unix_ms :: u64
  lo_finished_at_unix_ms :: u64

definition observation_schema :: str where
  "observation_schema = lit ''voicetext-qualification-observation-v1''"

definition valid_campaign :: "str \<Rightarrow> bool" where
  "valid_campaign value \<longleftrightarrow>
     1 \<le> str_len value \<and> str_len value \<le> 64 \<and>
     list_all (\<lambda>b. ascii_alphanumeric b \<or> b = 0x2D \<or> b = 0x5F) (str_bytes value)"

section \<open>Sequences of frames\<close>

record SequenceTracker =
  sq_count :: u64
  sq_first :: "u64 option"
  sq_last :: "u64 option"
  sq_contiguous :: bool

definition tracker_default :: SequenceTracker where
  "tracker_default = \<lparr>sq_count = 0, sq_first = None, sq_last = None, sq_contiguous = False\<rparr>"

definition tracker_push :: "SequenceTracker \<Rightarrow> u64 \<Rightarrow> SequenceTracker" where
  "tracker_push self value =
     \<lparr>sq_count = saturating_add (sq_count self) 1,
      sq_first = Some (case sq_first self of Some v \<Rightarrow> v | None \<Rightarrow> value),
      sq_last = Some value,
      sq_contiguous = (sq_count self = 0 \<or>
        sq_contiguous self \<and>
        (case sq_last self of None \<Rightarrow> False | Some v \<Rightarrow> checked_add v 1 = Some value))\<rparr>"

definition tracker_finish :: "SequenceTracker \<Rightarrow> SequenceObservation" where
  "tracker_finish self =
     \<lparr>so_count = sq_count self, so_first = sq_first self, so_last = sq_last self,
      so_contiguous = (sq_count self = 0 \<or> sq_contiguous self)\<rparr>"

section \<open>The tracker of a live session\<close>

record LiveObservationTracker =
  tr_effect_id :: uuid
  tr_client_session_id :: uuid
  tr_gateway_session_id :: uuid
  tr_profile :: ObservationProfile
  tr_started_at_unix_ms :: u64
  tr_accepted_frame_count :: u64
  tr_written :: SequenceTracker
  tr_acked :: SequenceTracker
  tr_frame_digest :: "u8 list"
  tr_result_digest :: "u8 list"
  tr_finalize_result_observed :: bool

definition tracker_new :: "uuid \<Rightarrow> u64 \<Rightarrow> uuid \<Rightarrow> uuid \<Rightarrow> ObservationProfile \<Rightarrow> LiveObservationTracker" where
  "tracker_new effect_id now client_session_id gateway_session_id profile =
     \<lparr>tr_effect_id = effect_id, tr_client_session_id = client_session_id,
      tr_gateway_session_id = gateway_session_id, tr_profile = profile, tr_started_at_unix_ms = now,
      tr_accepted_frame_count = 0, tr_written = tracker_default, tr_acked = tracker_default,
      tr_frame_digest = FRAME_DIGEST_PREFIX, tr_result_digest = RESULT_DIGEST_PREFIX,
      tr_finalize_result_observed = False\<rparr>"

definition accept_frame :: "LiveObservationTracker \<Rightarrow> LiveObservationTracker" where
  "accept_frame self = self\<lparr>tr_accepted_frame_count := saturating_add (tr_accepted_frame_count self) 1\<rparr>"

definition tracker_provider_written :: "LiveObservationTracker \<Rightarrow> u64 \<Rightarrow> LiveObservationTracker" where
  "tracker_provider_written self sequence = self\<lparr>tr_written := tracker_push (tr_written self) sequence\<rparr>"

definition tracker_ack_sent :: "LiveObservationTracker \<Rightarrow> u64 \<Rightarrow> u8 list \<Rightarrow> LiveObservationTracker" where
  "tracker_ack_sent self sequence raw =
     self\<lparr>tr_acked := tracker_push (tr_acked self) sequence,
          tr_frame_digest := tr_frame_digest self @ u64_be sequence @ be_bytes 8 (u64_len (length raw)) @ raw\<rparr>"

definition stability_code :: "LiveTranscriptStability \<Rightarrow> u8" where
  "stability_code s = (case s of Partial \<Rightarrow> 0 | SegmentFinal \<Rightarrow> 1 | UtteranceFinal \<Rightarrow> 2)"

definition tracker_provider_event ::
  "(float \<Rightarrow> u32) \<Rightarrow> LiveObservationTracker \<Rightarrow> LiveRecognitionEvent \<Rightarrow> LiveObservationTracker" where
  "tracker_provider_event to_bits self event =
     (case event of
        RecTranscript value \<Rightarrow>
          self\<lparr>tr_result_digest :=
             digest_bytes (tr_result_digest self @ str_bytes (lit ''transcript'' @ [0])) (str_bytes (lt_text value))
             @ u64_be (lt_start_millis value) @ u64_be (lt_duration_millis value)
             @ be_bytes 4 (unat (confidence_bits to_bits (lt_confidence value)))
             @ [stability_code (lt_stability value)]\<rparr>
      | RecUtteranceEnd last_word_end_millis \<Rightarrow>
          self\<lparr>tr_result_digest := tr_result_digest self @ str_bytes (lit ''utterance_end'' @ [0])
             @ u64_be last_word_end_millis\<rparr>
      | RecFinalizeResultObserved \<Rightarrow>
          self\<lparr>tr_result_digest := tr_result_digest self @ str_bytes (lit ''finalize_result'' @ [0]),
               tr_finalize_result_observed := True\<rparr>)"

definition live_tracker_finish ::
  "(u8 list \<Rightarrow> u8 list) \<Rightarrow> u64 \<Rightarrow> LiveObservationTracker \<Rightarrow> ProviderOperation option \<Rightarrow> str \<Rightarrow> LiveObservation" where
  "live_tracker_finish sha256 now self operation terminal_status =
     \<lparr>lo_schema = observation_schema, lo_effect_id = tr_effect_id self,
      lo_client_session_id = tr_client_session_id self, lo_gateway_session_id = tr_gateway_session_id self,
      lo_profile = tr_profile self,
      lo_provider_operation = map_option operation_observation operation,
      lo_accepted_frame_count = tr_accepted_frame_count self,
      lo_written_sequences = tracker_finish (tr_written self),
      lo_acked_sequences = tracker_finish (tr_acked self),
      lo_acked_raw_input_digest = hex_encode (sha256 (tr_frame_digest self)),
      lo_result_digest = hex_encode (sha256 (tr_result_digest self)),
      lo_finalize_result_observed = tr_finalize_result_observed self,
      lo_terminal_status = terminal_status, lo_started_at_unix_ms = tr_started_at_unix_ms self,
      lo_finished_at_unix_ms = now\<rparr>"

section \<open>What a session's evidence says\<close>

text \<open>The calls a session makes on its tracker.\<close>

datatype tracker_op =
    FrameAccepted
  | FrameWritten u64
  | FrameAcked u64 "u8 list"
  | ProviderEvent LiveRecognitionEvent

fun tracker_step :: "(float \<Rightarrow> u32) \<Rightarrow> tracker_op \<Rightarrow> LiveObservationTracker \<Rightarrow> LiveObservationTracker" where
  "tracker_step to_bits FrameAccepted t = accept_frame t"
| "tracker_step to_bits (FrameWritten n) t = tracker_provider_written t n"
| "tracker_step to_bits (FrameAcked n raw) t = tracker_ack_sent t n raw"
| "tracker_step to_bits (ProviderEvent e) t = tracker_provider_event to_bits t e"

fun acked_frames :: "tracker_op list \<Rightarrow> (u64 \<times> u8 list) list" where
  "acked_frames (FrameAcked n raw # ops) = (n, raw) # acked_frames ops"
| "acked_frames (_ # ops) = acked_frames ops"
| "acked_frames [] = []"

fun written_frames :: "tracker_op list \<Rightarrow> u64 list" where
  "written_frames (FrameWritten n # ops) = n # written_frames ops"
| "written_frames (_ # ops) = written_frames ops"
| "written_frames [] = []"

definition frame_bytes :: "u64 \<times> u8 list \<Rightarrow> u8 list" where
  "frame_bytes f = u64_be (fst f) @ be_bytes 8 (u64_len (length (snd f))) @ snd f"

text \<open>The reference description of a list of sequence numbers.\<close>

definition describes :: "SequenceObservation \<Rightarrow> u64 list \<Rightarrow> bool" where
  "describes so ns \<longleftrightarrow>
     unat (so_count so) = min (length ns) (2 ^ 64 - 1) \<and>
     so_first so = (if ns = [] then None else Some (hd ns)) \<and>
     so_last so = (if ns = [] then None else Some (last ns)) \<and>
     (so_contiguous so \<longleftrightarrow> map unat ns = [unat (hd ns)..<unat (hd ns) + length ns])"

lemma consecutive_snoc:
  assumes "ns \<noteq> []"
  shows "map unat (ns @ [n]) = [unat (hd ns)..<unat (hd ns) + length (ns @ [n])] \<longleftrightarrow>
    map unat ns = [unat (hd ns)..<unat (hd ns) + length ns] \<and> unat (last ns) + 1 = unat n"
proof -
  have "unat (last ns) = unat (hd ns) + length ns - 1"
    if "map unat ns = [unat (hd ns)..<unat (hd ns) + length ns]"
  proof -
    have "unat (last ns) = last (map unat ns)" using assms by (simp add: last_map)
    then show ?thesis unfolding that using assms by (simp add: last_conv_nth Suc_le_eq)
  qed
  moreover have "0 < length ns" using assms by simp
  ultimately show ?thesis by auto
qed

lemma tracker_push_describes:
  assumes "describes (tracker_finish t) ns"
  shows "describes (tracker_finish (tracker_push t n)) (ns @ [n])"
proof (cases "ns = []")
  case True
  then have "sq_count t = 0" "sq_first t = None" using assms
    by (simp_all add: describes_def tracker_finish_def unat_eq_zero)
  then show ?thesis using True
    by (simp add: describes_def tracker_finish_def tracker_push_def saturating_add_def)
next
  case False
  have d: "unat (sq_count t) = min (length ns) (2 ^ 64 - 1)" "sq_first t = Some (hd ns)" "sq_last t = Some (last ns)"
    "(sq_count t = 0 \<or> sq_contiguous t) \<longleftrightarrow> map unat ns = [unat (hd ns)..<unat (hd ns) + length ns]"
    using assms False by (simp_all add: describes_def tracker_finish_def)
  have nz: "sq_count t \<noteq> 0" using d(1) False by (auto simp: min_def split: if_splits)
  have sat: "unat (saturating_add (sq_count t) 1) = min (length (ns @ [n])) (2 ^ 64 - 1)"
    using d(1) by (simp add: unat_saturating_add min_def)
  then have nz': "saturating_add (sq_count t) 1 \<noteq> 0" by auto
  have "checked_add (last ns) 1 = Some n \<longleftrightarrow> unat (last ns) + 1 = unat n"
    by (auto simp: checked_add_Some_unat)
  then show ?thesis
    using False d nz nz' sat consecutive_snoc [OF False, of n]
    by (simp add: describes_def tracker_finish_def tracker_push_def)
qed

lemma describes_Nil: "describes (tracker_finish tracker_default) []"
  by (simp add: describes_def tracker_finish_def tracker_default_def)

lemma tracker_step_fields:
  "tr_acked (tracker_step b op t) = (case op of FrameAcked n raw \<Rightarrow> tracker_push (tr_acked t) n | _ \<Rightarrow> tr_acked t)"
  "tr_written (tracker_step b op t) = (case op of FrameWritten n \<Rightarrow> tracker_push (tr_written t) n | _ \<Rightarrow> tr_written t)"
  "tr_frame_digest (tracker_step b op t) =
     (case op of FrameAcked n raw \<Rightarrow> tr_frame_digest t @ frame_bytes (n, raw) | _ \<Rightarrow> tr_frame_digest t)"
  by (cases op; simp add: accept_frame_def tracker_provider_written_def tracker_ack_sent_def frame_bytes_def
      tracker_provider_event_def split: LiveRecognitionEvent.split)+

lemma tracker_run:
  assumes "describes (tracker_finish (tr_acked t)) ns" and "describes (tracker_finish (tr_written t)) ws"
  shows "describes (tracker_finish (tr_acked (fold (tracker_step b) ops t))) (ns @ map fst (acked_frames ops)) \<and>
    describes (tracker_finish (tr_written (fold (tracker_step b) ops t))) (ws @ written_frames ops) \<and>
    tr_frame_digest (fold (tracker_step b) ops t) = tr_frame_digest t @ concat (map frame_bytes (acked_frames ops))"
  using assms
proof (induction ops arbitrary: t ns ws)
  case (Cons op ops)
  from Cons.prems show ?case
    using Cons.IH [of "tracker_step b op t" "case op of FrameAcked n raw \<Rightarrow> ns @ [n] | _ \<Rightarrow> ns"
        "case op of FrameWritten n \<Rightarrow> ws @ [n] | _ \<Rightarrow> ws"] tracker_push_describes
    by (cases op) (auto simp: tracker_step_fields simp del: tracker_step.simps)
qed auto

text \<open>The bytes fed to the frame digest determine the acknowledged frames.\<close>

lemma unat_below64: "unat (w :: u64) < 2 ^ 64"
  using unsigned_less [of w, where 'a = nat] by simp

lemma frame_bytes_prefix:
  assumes "length (snd f) < 2 ^ 64" and "length (snd g) < 2 ^ 64"
    and "frame_bytes f @ r = frame_bytes g @ r'"
  shows "f = g \<and> r = r'"
proof -
  have "u64_be (fst f) = u64_be (fst g)" and "part_bytes (snd f) @ r = part_bytes (snd g) @ r'"
    using assms by (simp_all add: frame_bytes_def u64_be_def u64_len_def part_bytes_def append_eq_append_conv)
  then show ?thesis
    using assms(1,2) part_bytes_prefix [of "snd f" "snd g" r r'] be_bytes_inj [of "unat (fst f)" 8 "unat (fst g)"]
      unat_below64 [of "fst f"] unat_below64 [of "fst g"]
    by (simp add: u64_be_def prod_eq_iff word_unat_eq_iff)
qed

lemma frames_inj:
  assumes "\<forall>f \<in> set fs. length (snd f) < 2 ^ 64" and "\<forall>g \<in> set gs. length (snd g) < 2 ^ 64"
    and "concat (map frame_bytes fs) = concat (map frame_bytes gs)"
  shows "fs = gs"
  using assms
proof (induction fs arbitrary: gs)
  case Nil
  then show ?case by (cases gs) (auto simp: frame_bytes_def u64_be_def dest: arg_cong [where f = length])
next
  case (Cons f fs)
  show ?case
  proof (cases gs)
    case Nil
    then show ?thesis using Cons.prems(3) by (auto simp: frame_bytes_def u64_be_def dest: arg_cong [where f = length])
  next
    case (Cons g gs')
    then show ?thesis
      using Cons.IH [of gs'] Cons.prems frame_bytes_prefix [of f g "concat (map frame_bytes fs)" "concat (map frame_bytes gs')"]
      by simp
  qed
qed

lemma hex_digit_inj: "a < 16 \<Longrightarrow> b < 16 \<Longrightarrow> lowercase_digit a = lowercase_digit b \<Longrightarrow> a = b"
  by (simp add: lowercase_digit_def split: if_splits)

lemma hex_encode_inj: "hex_encode a = hex_encode b \<Longrightarrow> a = b"
proof (induction a arbitrary: b)
  case Nil
  then show ?case by (cases b) (simp_all add: hex_encode_def)
next
  case (Cons x a)
  then obtain y b' where b: "b = y # b'" by (cases b) (simp_all add: hex_encode_def)
  with Cons.prems have d: "lowercase_digit (unat x div 16) = lowercase_digit (unat y div 16)"
      "lowercase_digit (unat x mod 16) = lowercase_digit (unat y mod 16)" "hex_encode a = hex_encode b'"
    by (simp_all add: hex_encode_def)
  have lt: "unat x < 256" "unat y < 256" using unsigned_less [of x, where 'a = nat] unsigned_less [of y, where 'a = nat] by simp_all
  then have "unat x div 16 = unat y div 16" "unat x mod 16 = unat y mod 16"
    using hex_digit_inj [OF _ _ d(1)] hex_digit_inj [OF _ _ d(2)] by simp_all
  then have "unat x = unat y" by (metis div_mult_mod_eq)
  then show ?case using Cons.IH [OF d(3)] b by (simp add: word_unat_eq_iff)
qed

definition session_tracker ::
  "uuid \<Rightarrow> u64 \<Rightarrow> uuid \<Rightarrow> uuid \<Rightarrow> ObservationProfile \<Rightarrow> (float \<Rightarrow> u32) \<Rightarrow> tracker_op list \<Rightarrow> LiveObservationTracker" where
  "session_tracker effect now client gateway profile to_bits ops = fold (tracker_step to_bits) ops (tracker_new effect now client gateway profile)"

text \<open>C39: The evidence record of a live session describes exactly what happened. For every sequence of
  tracker calls, the written and acknowledged sequence observations report how many frames there
  were, the first and the last, and say \<open>contiguous\<close> exactly when the numbers are consecutive; and
  two sessions (with frames shorter than 2^64 bytes, under a hash without collisions on the two
  inputs) report the same input digest only if they acknowledged the same frames with the same
  numbers in the same order.
\<close>

theorem live_evidence_exact:
  assumes "\<forall>f \<in> set (acked_frames ops) \<union> set (acked_frames ops'). length (snd f) < 2 ^ 64"
    and "t = session_tracker effect now client gateway profile to_bits ops"
    and "t' = session_tracker effect' now' client' gateway' profile' to_bits ops'"
    and "hash (tr_frame_digest t) = hash (tr_frame_digest t') \<longrightarrow> tr_frame_digest t = tr_frame_digest t'"
    and "observed = live_tracker_finish hash later t operation terminal"
    and "observed' = live_tracker_finish hash later' t' operation' terminal'"
  shows "describes (lo_acked_sequences observed) (map fst (acked_frames ops)) \<and>
    describes (lo_written_sequences observed) (written_frames ops) \<and>
    (lo_acked_raw_input_digest observed = lo_acked_raw_input_digest observed'
      \<longleftrightarrow> acked_frames ops = acked_frames ops')"
proof -
  have r: "describes (tracker_finish (tr_acked (session_tracker e n c g p b os))) (map fst (acked_frames os)) \<and>
    describes (tracker_finish (tr_written (session_tracker e n c g p b os))) (written_frames os) \<and>
    tr_frame_digest (session_tracker e n c g p b os) =
      FRAME_DIGEST_PREFIX @ concat (map frame_bytes (acked_frames os))" for e n c g p b os
    using tracker_run [of "tracker_new e n c g p" "[]" "[]" b os] describes_Nil
    by (simp add: session_tracker_def tracker_new_def)
  have same: "acked_frames ops = acked_frames ops'" if "tr_frame_digest t = tr_frame_digest t'"
    by (rule frames_inj) (use assms(1) that r in \<open>auto simp: assms(2,3)\<close>)
  have "tr_frame_digest t = tr_frame_digest t'" if "acked_frames ops = acked_frames ops'"
    unfolding assms(2,3) using that r by metis
  then have "hash (tr_frame_digest t) = hash (tr_frame_digest t') \<longleftrightarrow> acked_frames ops = acked_frames ops'"
    using assms(4) same by metis
  then have "hex_encode (hash (tr_frame_digest t)) = hex_encode (hash (tr_frame_digest t'))
      \<longleftrightarrow> acked_frames ops = acked_frames ops'"
    using hex_encode_inj by metis
  then show ?thesis
    using r unfolding assms(2,3,5,6) live_tracker_finish_def by simp
qed

theorem live_evidence_exact_witness:
  "describes (lo_acked_sequences (live_tracker_finish (\<lambda>bs. bs) 9
      (session_tracker 1 2 3 4 \<lparr>op_contract_version = 2, op_provider = [], op_model = [], op_language = []\<rparr> (\<lambda>_. 0)
         [FrameAccepted, FrameWritten 1, FrameAcked 1 [3], FrameWritten 2, FrameAcked 2 [4]]) None [])) [1, 2]"
  using live_evidence_exact [where ops = "[FrameAccepted, FrameWritten 1, FrameAcked 1 [3], FrameWritten 2, FrameAcked 2 [4]]"
      and ops' = "[]", OF _ refl refl _ refl refl, where hash = "\<lambda>bs. bs"]
  by simp

end
