(* ===== verification/Batch_Effects.thy ===== *)
theory Batch_Effects
  imports Batch_Service Qualification Postgres_Store
begin

text \<open>
  What the gateway observes around a paid provider call:
  \<^verbatim>\<open>crates/voicetext-gateway/src/server/effects.rs\<close>, and the body of the task that
  \<open>spawn_execution\<close> of \<^verbatim>\<open>server/batch.rs\<close> registers. An execution runs to its end here. The
  environment decides the faults, the provider's answer, the clock and what the observation sink
  answers (\<open>None\<close>: the write timed out).
\<close>

section \<open>Classification of an outcome\<close>

type_synonym execution_outcome = "(BatchExecutionOutcome, BatchCoordinatorFailure) result"

definition persisted_status :: "BatchJobState \<Rightarrow> string" where
  "persisted_status st =
     (case st of
        Completed _ \<Rightarrow> ''completed''
      | Retryable _ _ \<Rightarrow> ''retryable''
      | Failed _ _ \<Rightarrow> ''failed''
      | OutcomeUnknown _ _ \<Rightarrow> ''outcome_unknown''
      | Accepted \<Rightarrow> ''nonterminal''
      | Submitting _ \<Rightarrow> ''nonterminal'')"

fun classify_outcome :: "execution_outcome \<Rightarrow> string \<times> string" where
  "classify_outcome (Ok (Persisted snapshot)) =
     (persisted_status (job_state (sn_job snapshot)), ''established'')"
| "classify_outcome (Err (PostEgressStore _)) = (''persistence_failed'', ''not_established'')"
| "classify_outcome (Err PostEgressConflict) = (''persistence_conflict'', ''not_established'')"
| "classify_outcome _ = (''orchestration_failed'', ''not_established'')"

fun observe_outcome :: "execution_outcome \<Rightarrow> ('b, 'l) GatewayState \<Rightarrow> ('b, 'l) GatewayState" where
  "observe_outcome (Ok (Persisted snapshot)) state =
     (let state = count batch_provider_effect_persisted state in
      case job_state (sn_job snapshot) of
        Retryable _ _ \<Rightarrow> count batch_retryable_outcome state
      | Failed _ _ \<Rightarrow> count batch_known_terminal_failure state
      | OutcomeUnknown _ _ \<Rightarrow> count count_outcome_unknown state
      | _ \<Rightarrow> state)"
| "observe_outcome (Err (PostEgressStore _)) state = count batch_provider_effect_persistence_unknown state"
| "observe_outcome (Err PostEgressConflict) state = count batch_provider_effect_persistence_unknown state"
| "observe_outcome _ state = state"

section \<open>A fenced execution\<close>

datatype TerminalCleanup = NotRequired | CleanupRemoved | CleanupAlreadyMissing | CleanupRetained

record FencedExecution =
  fe_outcome :: execution_outcome
  fe_terminal_cleanup :: TerminalCleanup

definition terminal_audio_removed :: "FencedExecution \<Rightarrow> bool" where
  "terminal_audio_removed self \<longleftrightarrow> fe_terminal_cleanup self = CleanupRemoved"

text \<open>The cleanup part of the \<open>match\<close> in \<open>execute_fenced\<close>.\<close>

definition terminal_cleanup :: "BatchExecutionReport \<Rightarrow> TerminalCleanup" where
  "terminal_cleanup report =
     (case ber_outcome report of
        Persisted snapshot \<Rightarrow>
          if \<not> is_terminal (job_state (sn_job snapshot)) then NotRequired
          else (case ber_post_persistence_cleanup report of
                  Some (Ok Removed) \<Rightarrow> CleanupRemoved
                | Some (Ok AlreadyMissing) \<Rightarrow> CleanupAlreadyMissing
                | Some (Err _) \<Rightarrow> CleanupRetained
                | None \<Rightarrow> NotRequired)
      | _ \<Rightarrow> NotRequired)"

record BatchEffectCapture =
  ca_effect_id :: uuid
  ca_profile :: ObservationProfile
  ca_provider_operation :: "OperationObservation option"
  ca_result_digest :: "str option"
  ca_started_at_unix_ms :: u64
  ca_finished_at_unix_ms :: u64

record 'b effect_env =
  ef_execute :: execute_env
  ef_recognize :: "'b \<Rightarrow> BatchRecognitionRequest \<Rightarrow> (BatchRecognitionResult, RecognitionFailure) result"
  ef_to_bits :: "float \<Rightarrow> u32"
  ef_effect_id :: uuid
  ef_started_at :: u64
  ef_finished_at :: u64
  ef_observing :: bool
  ef_observed :: "(unit, string) result option"

text \<open>\<open>EffectObservedRecognizer::recognize\<close>: what it captures of the call.\<close>

definition effect_capture ::
  "(u8 list \<Rightarrow> u8 list) \<Rightarrow> 'b effect_env \<Rightarrow> BatchRecognitionRequest
   \<Rightarrow> (BatchRecognitionResult, RecognitionFailure) result \<Rightarrow> BatchEffectCapture" where
  "effect_capture sha256 env request result =
     (let profile = brq_profile request;
          reference = (case result of Ok r \<Rightarrow> brr_provider_reference r | Err failure \<Rightarrow> reference_of failure) in
      \<lparr>ca_effect_id = ef_effect_id env,
       ca_profile = \<lparr>op_contract_version = bp_contract_version profile, op_provider = bp_provider profile,
                     op_model = bp_model profile, op_language = bp_language profile\<rparr>,
       ca_provider_operation = map_option operation_observation (Option.bind reference provider_operation),
       ca_result_digest = (case result of Ok r \<Rightarrow> Some (batch_result_digest sha256 (ef_to_bits env) r) | Err _ \<Rightarrow> None),
       ca_started_at_unix_ms = ef_started_at env, ca_finished_at_unix_ms = ef_finished_at env\<rparr>)"

text \<open>\<open>observe_qualification\<close>: the state and the record handed to the sink, if any.\<close>

definition observe_qualification ::
  "'b effect_env \<Rightarrow> ('b, 'l) GatewayState \<Rightarrow> BatchJobId \<Rightarrow> BatchEffectCapture \<Rightarrow> execution_outcome
   \<Rightarrow> ('b, 'l) GatewayState \<times> BatchObservation list" where
  "observe_qualification env state job_id capture outcome =
     (if \<not> ef_observing env then (state, [])
      else
        let (terminal_status, durable_persistence) = classify_outcome outcome;
            observation =
              \<lparr>bo_schema = observation_schema, bo_effect_id = ca_effect_id capture, bo_gateway_job_id = job_id,
               bo_profile = ca_profile capture, bo_provider_operation = ca_provider_operation capture,
               bo_result_digest = ca_result_digest capture,
               bo_started_at_unix_ms = ca_started_at_unix_ms capture,
               bo_finished_at_unix_ms = ca_finished_at_unix_ms capture,
               bo_terminal_status = lit terminal_status, bo_durable_persistence = lit durable_persistence\<rparr>
        in (case ef_observed env of
              Some (Ok _) \<Rightarrow> state
            | _ \<Rightarrow> count qualification_observation_failure state, [observation]))"

text \<open>What one call leaves: state, ledger, spool, the answer, the requests sent, the records written.\<close>

record ('b, 'l, 'j, 's) fenced =
  fx_state :: "('b, 'l) GatewayState"
  fx_ledger :: 'j
  fx_spool :: 's
  fx_result :: "FencedExecution option"
  fx_sent :: "BatchRecognitionRequest list"
  fx_observations :: "BatchObservation list"

text \<open>The coordinator sends at most one request; it is counted when it is made.\<close>

definition execute_fenced ::
  "('b, 'j, 's) gateway_lib \<Rightarrow> 'b effect_env \<Rightarrow> ('b, 'l) GatewayState \<Rightarrow> 'j \<Rightarrow> 's \<Rightarrow> BatchIdentity \<Rightarrow> BatchJobId
   \<Rightarrow> ('b, 'l, 'j, 's) fenced" where
  "execute_fenced lib env state l s identity job_id =
     (case registry_batch (gs_profiles state) identity of
        None \<Rightarrow> \<lparr>fx_state = state, fx_ledger = l, fx_spool = s, fx_result = None, fx_sent = [], fx_observations = []\<rparr>
      | Some recognizer \<Rightarrow>
          (case execute_with_cleanup_report (lib_jobs lib) (lib_spool lib) (ef_recognize env recognizer)
                  (gateway_projection (lib_json lib) (lib_uuid lib)) (ef_execute env) l s job_id of
             (l', s', execution, sent) \<Rightarrow>
               let state1 = fold (\<lambda>_. count batch_provider_effect_started) sent state;
                   outcome = map_ok ber_outcome execution;
                   cleanup = (case execution of Ok report \<Rightarrow> terminal_cleanup report | Err _ \<Rightarrow> NotRequired);
                   state2 = observe_outcome outcome state1;
                   (state3, observations) =
                     (case sent of
                        [] \<Rightarrow> (state2, [])
                      | request # _ \<Rightarrow>
                          observe_qualification env state2 job_id
                            (effect_capture (lib_sha256 lib) env request (ef_recognize env recognizer request)) outcome)
               in \<lparr>fx_state = state3, fx_ledger = l', fx_spool = s',
                   fx_result = Some \<lparr>fe_outcome = outcome, fe_terminal_cleanup = cleanup\<rparr>,
                   fx_sent = sent, fx_observations = observations\<rparr>))"

section \<open>The body of a registered task\<close>

definition run_batch_task ::
  "('b, 'j, 's) gateway_lib \<Rightarrow> 'b effect_env \<Rightarrow> ('b, 'l) GatewayState \<Rightarrow> 'j \<Rightarrow> 's \<Rightarrow> batch_task
   \<Rightarrow> ('b, 'l, 'j, 's) fenced" where
  "run_batch_task lib env state l s task =
     (let fx = execute_fenced lib env (count batch_execution_started state) l s (bt_identity task) (bt_job task);
          state1 = count batch_execution_finished (fx_state fx);
          state2 =
            (case fx_result fx of
               None \<Rightarrow> state1
             | Some execution \<Rightarrow>
                 (case fe_outcome execution of
                    Ok (Persisted _) \<Rightarrow>
                      if terminal_audio_removed execution
                      then count (\<lambda>m. spool_terminal_cleaned m (bt_audio_bytes task)) state1 else state1
                  | Ok _ \<Rightarrow> state1
                  | Err _ \<Rightarrow> count count_batch_failure state1))
      in fx\<lparr>fx_state := release_permits (bt_identity task) state2\<rparr>)"

section \<open>Paid effects and what is known about them\<close>

text \<open>What an execution returns, by whether it sent a request.\<close>

definition unsent :: "execute_result \<Rightarrow> bool" where
  "unsent r \<longleftrightarrow>
     (case r of
        Ok report \<Rightarrow> (\<forall>sn. ber_outcome report \<noteq> Persisted sn)
      | Err e \<Rightarrow> e \<noteq> PostEgressConflict \<and> (\<forall>f. e \<noteq> PostEgressStore f))"

definition sent_known :: "rows \<Rightarrow> BatchJobId \<Rightarrow> execute_result \<Rightarrow> bool" where
  "sent_known R job_id r \<longleftrightarrow>
     (case r of
        Ok report \<Rightarrow> (\<exists>sn. ber_outcome report = Persisted sn \<and> R job_id = Some sn)
      | Err e \<Rightarrow> e = PostEgressConflict \<or> (\<exists>f. e = PostEgressStore f))"

lemma execute_load_Return: "execute_load jobs f l i = Return r \<Longrightarrow> unsent r"
  by (auto simp: execute_load_def unsent_def exec_report_def split: result.splits option.splits if_splits)

lemma execute_read_Return: "execute_read spool io s sn = Return r \<Longrightarrow> unsent r"
  by (auto simp: execute_read_def unsent_def split: result.splits)

lemma execute_claim_Return: "execute_claim jobs f l sn = (l', Return r) \<Longrightarrow> unsent r"
  by (auto simp: execute_claim_def unsent_def exec_report_def Let_def
      split: result.splits prod.splits BatchJobUpdateOutcome.splits)

lemma execute_persist_Return:
  assumes "job_state (sn_job sn) = Submitting a" and "execute_persist jobs f v l sn rec = (l', Return r)"
  shows "sent_known R i r"
  using assms(2) by (auto simp: execute_persist_def apply_outcome_submitting [OF assms(1)] sent_known_def
      split: result.splits prod.splits BatchJobUpdateOutcome.splits)

lemma execute_cleanup_result:
  "execute_cleanup spool io s sn = (s', r) \<Longrightarrow> \<exists>c. r = Ok (exec_report (Persisted sn) c)"
  by (auto simp: execute_cleanup_def split: if_splits prod.splits)

context job_ledger
begin

lemma executed_effects:
  assumes inv: "invar l"
    and run: "execute_with_cleanup_report jobs spool recognize v env l s job_id = (l', s', r, sent)"
  shows "invar l' \<and> (sent = [] \<and> unsent r \<or> (\<exists>q. sent = [q]) \<and> sent_known (rows l') job_id r)"
proof (cases "execute_load jobs (ee_load env) l job_id")
  case (Return x)
  then show ?thesis using run inv execute_load_Return [OF Return] by (simp add: execute_with_cleanup_report_def)
next
  case (Continue sn)
  then have row: "rows l job_id = Some sn" "sn_id sn = job_id" and fs: "fresh_or_stale (rows l) sn"
    using load_law [OF inv] rows_law [OF inv] execute_load_fresh [OF inv Continue]
    by (auto simp: execute_load_def split: result.splits option.splits if_splits)
  show ?thesis
  proof (cases "execute_read spool (ee_read env) s sn")
    case Return2: (Return x)
    then show ?thesis using run inv Continue execute_read_Return [OF Return2] by (simp add: execute_with_cleanup_report_def)
  next
    case Continue2: (Continue audio)
    obtain l1 fl where claim: "execute_claim jobs (ee_claim env) l sn = (l1, fl)" by fastforce
    note ce = claim_effect [OF inv fs claim]
    show ?thesis
    proof (cases fl)
      case Return3: (Return x)
      then show ?thesis
        using run Continue Continue2 claim ce execute_claim_Return [OF claim [unfolded Return3]]
        by (simp add: execute_with_cleanup_report_def)
    next
      case Continue3: (Continue st)
      then obtain rp a where st: "replaced (rows l) (rows l1) sn rp st" "job_state (sn_job st) = Submitting a"
        "wf_job (sn_job st)" and inv1: "invar l1" using ce by auto
      have r1: "rows l1 job_id = Some st" "sn_id st = job_id" using st(1) row(2) by (auto simp: replaced_def)
      then have fs1: "fresh_or_stale (rows l1) st" using st(3) by (auto simp: fresh_or_stale_def)
      let ?q = "recognition_request st audio"
      obtain l2 fl2 where per: "execute_persist jobs (ee_persist env) v l1 st (recognize ?q) = (l2, fl2)" by fastforce
      note pe = persist_effect [OF inv1 fs1 st(2) per]
      show ?thesis
      proof (cases fl2)
        case Return4: (Return x)
        then show ?thesis
          using run Continue Continue2 claim Continue3 per pe execute_persist_Return [OF st(2) per [unfolded Return4]]
          by (auto simp: execute_with_cleanup_report_def Let_def)
      next
        case Continue4: (Continue st2)
        then have "rows l2 job_id = Some st2" and inv2: "invar l2" using pe r1(2) by (auto simp: replaced_def)
        then show ?thesis
          using run Continue Continue2 claim Continue3 per Continue4 execute_cleanup_result
          by (fastforce simp: execute_with_cleanup_report_def Let_def sent_known_def exec_report_def split: prod.splits)
      qed
    qed
  qed
qed

end

lemma effect_counters:
  "gm_batch_provider_effects (gs_metrics (fold (\<lambda>_. count batch_provider_effect_started) sent gs))
     = gm_batch_provider_effects (gs_metrics gs) + of_nat (length sent)"
  "gm_batch_provider_effects_persisted (gs_metrics (fold (\<lambda>_. count batch_provider_effect_started) sent gs))
     = gm_batch_provider_effects_persisted (gs_metrics gs)"
  "gm_batch_provider_effects_persistence_unknown (gs_metrics (fold (\<lambda>_. count batch_provider_effect_started) sent gs))
     = gm_batch_provider_effects_persistence_unknown (gs_metrics gs)"
  by (induction sent arbitrary: gs) (simp_all add: count_def batch_provider_effect_started_def)

lemmas outcome_counter_defs = count_def batch_provider_effect_persisted_def batch_retryable_outcome_def
  batch_known_terminal_failure_def count_outcome_unknown_def batch_provider_effect_persistence_unknown_def
  qualification_observation_failure_def

text \<open>\<open>observe_outcome\<close> counts one settled effect after a sent request and none otherwise.\<close>

lemma observe_outcome_counters:
  fixes gs :: "('b, 'l) GatewayState"
  defines "m \<equiv> gs_metrics gs" and "m' r \<equiv> gs_metrics (observe_outcome (map_ok ber_outcome r) gs)"
  shows "gm_batch_provider_effects (m' r) = gm_batch_provider_effects m"
    and "unsent r \<Longrightarrow> gm_batch_provider_effects_persisted (m' r) + gm_batch_provider_effects_persistence_unknown (m' r)
      = gm_batch_provider_effects_persisted m + gm_batch_provider_effects_persistence_unknown m"
    and "sent_known R i r \<Longrightarrow> gm_batch_provider_effects_persisted (m' r) + gm_batch_provider_effects_persistence_unknown (m' r)
      = gm_batch_provider_effects_persisted m + gm_batch_provider_effects_persistence_unknown m + 1"
proof -
  have "gm_batch_provider_effects (gs_metrics (observe_outcome outcome gs)) = gm_batch_provider_effects (gs_metrics gs)"
    for outcome
    by (cases "(outcome, gs)" rule: observe_outcome.cases)
      (auto simp: outcome_counter_defs Let_def split: BatchJobState.splits)
  then show "gm_batch_provider_effects (m' r) = gm_batch_provider_effects m" by (simp add: m_def m'_def)
  show "unsent r \<Longrightarrow> gm_batch_provider_effects_persisted (m' r) + gm_batch_provider_effects_persistence_unknown (m' r)
      = gm_batch_provider_effects_persisted m + gm_batch_provider_effects_persistence_unknown m"
    unfolding m_def m'_def
    by (cases r; cases "(map_ok ber_outcome r, gs)" rule: observe_outcome.cases) (simp_all add: unsent_def)
  show "sent_known R i r \<Longrightarrow> gm_batch_provider_effects_persisted (m' r) + gm_batch_provider_effects_persistence_unknown (m' r)
      = gm_batch_provider_effects_persisted m + gm_batch_provider_effects_persistence_unknown m + 1"
    unfolding m_def m'_def
    by (cases r) (auto simp: sent_known_def outcome_counter_defs Let_def split: BatchJobState.splits)
qed

lemma observe_qualification_counters:
  assumes "observe_qualification env gs i c outcome = (gs', os)"
  shows "gm_batch_provider_effects (gs_metrics gs') = gm_batch_provider_effects (gs_metrics gs)"
    and "gm_batch_provider_effects_persisted (gs_metrics gs') = gm_batch_provider_effects_persisted (gs_metrics gs)"
    and "gm_batch_provider_effects_persistence_unknown (gs_metrics gs')
      = gm_batch_provider_effects_persistence_unknown (gs_metrics gs)"
    and "obs \<in> set os \<Longrightarrow> bo_terminal_status obs = lit (fst (classify_outcome outcome))"
    and "obs \<in> set os \<Longrightarrow> bo_durable_persistence obs = lit (snd (classify_outcome outcome))"
  using assms by (auto simp: observe_qualification_def outcome_counter_defs Let_def
      split: if_splits prod.splits option.splits result.splits)

lemma classify_established:
  assumes "snd (classify_outcome outcome) = ''established''"
  obtains sn where "outcome = Ok (Persisted sn)" "fst (classify_outcome outcome) = persisted_status (job_state (sn_job sn))"
  using assms by (cases outcome rule: classify_outcome.cases) auto

text \<open>C5: Every paid effect is accounted for. An execution sends at most one request; the counter of
  provider effects grows by the number of requests sent, and by exactly as much as the counters of
  effects whose outcome was stored and of effects whose storage is in doubt grow together, so that
  no effect is lost or counted twice (the counters wrap). A qualification record is written only for
  an effect, and it claims that the outcome is established only if the ledger holds the row with
  the status that the record reports.
\<close>

theorem effects_accounted:
  assumes "db_invar l" and "lib_jobs lib = postgres_store"
    and "fx = execute_fenced lib env gs l s identity job_id"
    and "m = gs_metrics gs" and "m' = gs_metrics (fx_state fx)"
  shows "length (fx_sent fx) \<le> 1 \<and>
    gm_batch_provider_effects m' = gm_batch_provider_effects m + of_nat (length (fx_sent fx)) \<and>
    gm_batch_provider_effects_persisted m' + gm_batch_provider_effects_persistence_unknown m'
      = gm_batch_provider_effects_persisted m + gm_batch_provider_effects_persistence_unknown m
        + of_nat (length (fx_sent fx)) \<and>
    length (fx_observations fx) \<le> length (fx_sent fx) \<and>
    (\<forall>obs \<in> set (fx_observations fx). bo_durable_persistence obs = lit ''established'' \<longrightarrow>
      (\<exists>sn. db_rows (fx_ledger fx) job_id = Some sn \<and>
            bo_terminal_status obs = lit (persisted_status (job_state (sn_job sn)))))"
proof (cases "registry_batch (gs_profiles gs) identity")
  case None
  then show ?thesis using assms by (simp add: execute_fenced_def)
next
  case (Some recognizer)
  obtain l' s' r sent where run: "execute_with_cleanup_report postgres_store (lib_spool lib) (ef_recognize env recognizer)
      (gateway_projection (lib_json lib) (lib_uuid lib)) (ef_execute env) l s job_id = (l', s', r, sent)"
    by (metis surj_pair)
  let ?gs1 = "fold (\<lambda>_. count batch_provider_effect_started) sent gs"
  let ?out = "map_ok ber_outcome r"
  let ?gs2 = "observe_outcome ?out ?gs1"
  note cnt = effect_counters [of sent gs] observe_outcome_counters [where gs = ?gs1 and r = r]
  from pg.executed_effects [OF assms(1) run] show ?thesis
  proof (elim conjE disjE exE)
    assume "sent = []" "unsent r"
    then show ?thesis using assms Some run cnt by (simp add: execute_fenced_def Let_def)
  next
    fix q assume q: "sent = [q]" and known: "sent_known (db_rows l') job_id r"
    obtain gs3 os where o: "observe_qualification env ?gs2 job_id
        (effect_capture (lib_sha256 lib) env q (ef_recognize env recognizer q)) ?out = (gs3, os)" by fastforce
    then have fx: "fx_state fx = gs3" "fx_sent fx = [q]" "fx_observations fx = os" "fx_ledger fx = l'"
      using assms Some run q by (simp_all add: execute_fenced_def Let_def)
    have "\<exists>sn. db_rows l' job_id = Some sn \<and> bo_terminal_status obs = lit (persisted_status (job_state (sn_job sn)))"
      if "obs \<in> set os" "bo_durable_persistence obs = lit ''established''" for obs
    proof -
      have c: "bo_terminal_status obs = lit (fst (classify_outcome ?out))" "snd (classify_outcome ?out) = ''established''"
        using observe_qualification_counters(4,5) [OF o that(1)] that(2) by (simp_all only: lit_eq_iff)
      from classify_established [OF c(2)] obtain sn where
        "?out = Ok (Persisted sn)" "fst (classify_outcome ?out) = persisted_status (job_state (sn_job sn))" .
      with c(1) known show ?thesis by (cases r) (auto simp: sent_known_def)
    qed
    moreover have "length os \<le> 1" using o by (auto simp: observe_qualification_def Let_def split: if_splits prod.splits)
    moreover have "gm_batch_provider_effects m' = gm_batch_provider_effects m + 1"
      unfolding assms(4,5) fx(1) observe_qualification_counters(1) [OF o] cnt(4) cnt(1) by (simp add: q)
    moreover have "gm_batch_provider_effects_persisted m' + gm_batch_provider_effects_persistence_unknown m'
      = gm_batch_provider_effects_persisted m + gm_batch_provider_effects_persistence_unknown m + 1"
      unfolding assms(4,5) fx(1) observe_qualification_counters(2,3) [OF o] cnt(6) [OF known] cnt(2,3) by (rule refl)
    ultimately show ?thesis by (simp add: fx)
  qed
qed

section \<open>A sample execution\<close>

definition healthy_execution :: execute_env where
  "healthy_execution = \<lparr>ee_load = Healthy, ee_read = None, ee_claim = Healthy, ee_persist = Healthy, ee_cleanup = None\<rparr>"

lemma sample_full_execution:
  assumes "sample_db Accepted 0 db"
  shows "\<exists>db'. execute_with_cleanup_report postgres_store sample_spool (\<lambda>_. retryable_answer) v healthy_execution db () [7]
    = (db', (), Ok (exec_report (Persisted (sample_job_in (Retryable 1 (batch_failure [120])) 2)) None),
       [recognition_request (sample_job_in (Submitting 1) 1) [1]]) \<and>
    sample_db (Retryable 1 (batch_failure [120])) 2 db'"
proof -
  let ?retry = "Retryable 1 (batch_failure [120])"
  obtain db2 where db2: "js_compare_and_swap postgres_store Healthy db 0 (sample_job_in (Submitting 1) 0)
      = (db2, Ok (Stored (sample_job_in (Submitting 1) 1)))" "sample_db (Submitting 1) 1 db2"
    using sample_swap [OF assms, of "Submitting 1"] by (auto simp: is_completed_def)
  obtain db3 where db3: "js_compare_and_swap postgres_store Healthy db2 1 (sample_job_in ?retry 1)
      = (db3, Ok (Stored (sample_job_in ?retry 2)))" "sample_db ?retry 2 db3"
    using sample_swap [OF db2(2), of ?retry] wf_batch_failure by (auto simp: is_completed_def)
  have load: "execute_load postgres_store Healthy db [7] = Continue (sample_job_in Accepted 0)"
    using sample_load [OF assms] by (simp add: execute_load_def is_actionable_def sample_job_in_def)
  have claim: "execute_claim postgres_store Healthy db (sample_job_in Accepted 0) = (db2, Continue (sample_job_in (Submitting 1) 1))"
    unfolding execute_claim_def using db2(1) by (simp add: sample_job_in_def begin_submission_def)
  have "apply_recognition_outcome (sample_job_in (Submitting 1) 1) retryable_answer v = Ok (sample_job_in ?retry 1)"
    by (subst apply_outcome_submitting [of _ 1]) (simp_all add: sample_job_in_def retryable_answer_def outcome_defs)
  then have per: "execute_persist postgres_store Healthy v db2 (sample_job_in (Submitting 1) 1)
      retryable_answer = (db3, Continue (sample_job_in ?retry 2))"
    using db3(1) by (simp add: execute_persist_def) (simp add: sample_job_in_def)
  have read: "execute_read sample_spool None () (sample_job_in Accepted 0) = Continue [1]"
    by (simp add: execute_read_def sample_spool_def)
  have clean: "execute_cleanup sample_spool None () (sample_job_in ?retry 2)
      = ((), Ok (exec_report (Persisted (sample_job_in ?retry 2)) None))"
    by (simp add: execute_cleanup_def sample_job_in_def)
  show ?thesis
    using db3(2) by (simp add: execute_with_cleanup_report_def healthy_execution_def load read claim per clean)
qed

definition sample_lib :: "(unit, (str list + ResultRecord, ResultRecord) db, unit) gateway_lib" where
  "sample_lib =
     \<lparr>lib_sha256 = (\<lambda>bs. bs), lib_new_v5 = (\<lambda>u _. u), lib_json = one_value JNull, lib_uuid = number_uuids,
      lib_capabilities = (\<lambda>_. sample_descriptor), lib_packets = (\<lambda>_. []), lib_samples = (\<lambda>_ _. Err ()),
      lib_jobs = postgres_store, lib_spool = sample_spool\<rparr>"

definition sample_gateway :: "(unit, unit) GatewayState" where
  "sample_gateway =
     gateway_new (MachineSecret [1]) (registry_new\<lparr>deepgram_batch := Some ()\<rparr>)
       \<lparr>gl_batch_upload_bytes = 100, gl_live_frame_bytes = 100, gl_live_connections = 2,
        gl_first_frame_timeout = 1000, gl_finalize_timeout = 1000\<rparr>"

definition sample_effects :: "unit effect_env" where
  "sample_effects =
     \<lparr>ef_execute = healthy_execution, ef_recognize = (\<lambda>_ _. retryable_answer), ef_to_bits = (\<lambda>_. 0),
      ef_effect_id = 5, ef_started_at = 1, ef_finished_at = 2, ef_observing = True, ef_observed = Some (Ok ())\<rparr>"

lemma sample_gateway_batch: "registry_batch (gs_profiles sample_gateway) DeepgramNova3MultiV2 = Some ()"
  by (simp add: sample_gateway_def gateway_new_def)

theorem effects_accounted_witness:
  "\<exists>db fx. sample_db Accepted 0 db \<and> fx = execute_fenced sample_lib sample_effects sample_gateway db () DeepgramNova3MultiV2 [7] \<and>
     length (fx_sent fx) = 1 \<and> gm_batch_provider_effects (gs_metrics (fx_state fx)) = 1 \<and>
     (\<exists>sn. db_rows (fx_ledger fx) [7] = Some sn \<and>
        map bo_terminal_status (fx_observations fx) = [lit (persisted_status (job_state (sn_job sn)))])"
proof -
  obtain db where db: "sample_db Accepted 0 db" using sample_insert by blast
  from sample_full_execution [OF db, of "gateway_projection (lib_json sample_lib) (lib_uuid sample_lib)"] obtain db' where
    run: "execute_with_cleanup_report postgres_store sample_spool (\<lambda>_. retryable_answer)
        (gateway_projection (lib_json sample_lib) (lib_uuid sample_lib)) healthy_execution db () [7] =
      (db', (), Ok (exec_report (Persisted (sample_job_in (Retryable 1 (batch_failure [120])) 2)) None),
       [recognition_request (sample_job_in (Submitting 1) 1) [1]])" by blast
  define fx where "fx = execute_fenced sample_lib sample_effects sample_gateway db () DeepgramNova3MultiV2 [7]"
  have lib: "lib_jobs sample_lib = postgres_store" "lib_spool sample_lib = sample_spool" by (simp_all add: sample_lib_def)
  have env: "ef_recognize sample_effects () = (\<lambda>_. retryable_answer)" "ef_execute sample_effects = healthy_execution"
    "ef_observing sample_effects" "ef_observed sample_effects = Some (Ok ())" by (simp_all add: sample_effects_def)
  have obs: "length (fx_sent fx) = 1" "\<exists>x. fx_observations fx = [x] \<and> bo_durable_persistence x = lit ''established''"
    unfolding fx_def execute_fenced_def sample_gateway_batch option.case lib env run
    by (simp_all add: exec_report_def observe_qualification_def env Let_def del: lit_Cons)
  have "db_invar db" using db by (simp add: sample_db_def)
  note acc = effects_accounted [OF this lib(1) fx_def refl refl]
  have "gm_batch_provider_effects (gs_metrics sample_gateway) = 0"
    by (simp add: sample_gateway_def gateway_new_def metrics_new_def)
  with acc obs show ?thesis using db fx_def by auto
qed

end
