(* ===== verification/Permits.thy ===== *)
theory Permits
  imports Batch_Server
begin

text \<open>
  The admission permits of \<^verbatim>\<open>crates/voicetext-gateway/src/server/state.rs\<close> as a balance: free permits,
  permits of registered tasks and permits in the hands of a running request or worker add up to
  the capacity. Acquiring, releasing and handing over permits move the balance.
\<close>

section \<open>Permits\<close>

fun provider_slots :: "('b, 'l) GatewayState \<Rightarrow> BatchIdentity \<Rightarrow> nat" where
  "provider_slots gs DeepgramNova3MultiV2 = gs_deepgram_batch_slots gs"
| "provider_slots gs ElevenlabsScribeV2MultiV3 = gs_elevenlabs_batch_slots gs"

definition tasks_of :: "('b, 'l) GatewayState \<Rightarrow> BatchIdentity \<Rightarrow> nat" where
  "tasks_of gs i = length (filter (\<lambda>t. bt_identity t = i) (gs_batch_tasks gs))"

text \<open>Free permits, permits of registered tasks, and permits that the running request holds.\<close>

definition balanced :: "('b, 'l) GatewayState \<Rightarrow> nat \<Rightarrow> nat \<Rightarrow> (BatchIdentity \<Rightarrow> nat) \<Rightarrow> bool" where
  "balanced gs g b p \<longleftrightarrow>
     gs_global_batch_slots gs + length (gs_batch_tasks gs) + g = gl_live_connections (gs_limits gs) \<and>
     gs_batch_slots gs + length (gs_batch_tasks gs) + b = gl_live_connections (gs_limits gs) \<and>
     (\<forall>i. provider_slots gs i + tasks_of gs i + p i = provider_capacity (gs_limits gs))"

abbreviation permit_of :: "BatchIdentity \<Rightarrow> BatchIdentity \<Rightarrow> nat" where
  "permit_of i \<equiv> (\<lambda>j. if j = i then 1 else 0)"

lemma all_identities: "(\<forall>i. P i) \<longleftrightarrow> P DeepgramNova3MultiV2 \<and> P ElevenlabsScribeV2MultiV3"
  by (metis (full_types) BatchIdentity.exhaust)

lemmas balanced_defs = balanced_def all_identities tasks_of_def

lemma slots_inv_balanced: "slots_inv gs \<longleftrightarrow> balanced gs 0 0 (\<lambda>_. 0)"
  by (simp add: slots_inv_def balanced_defs)

lemma balanced_count [simp]: "balanced (count f gs) g b p = balanced gs g b p"
proof -
  have "provider_slots (count f gs) i = provider_slots gs i" for i by (cases i) (simp_all add: count_def)
  then show ?thesis by (simp add: balanced_def count_def tasks_of_def)
qed

lemma provider_slots_other [simp]:
  "provider_slots (gs\<lparr>gs_global_batch_slots := n\<rparr>) i = provider_slots gs i"
  "provider_slots (gs\<lparr>gs_batch_slots := n\<rparr>) i = provider_slots gs i"
  "provider_slots (gs\<lparr>gs_batch_tasks := ts\<rparr>) i = provider_slots gs i"
  by (cases i; simp)+

lemma acquire_global:
  assumes "try_acquire_global_batch_slot gs = Some gs'" and "balanced gs g b p"
  shows "balanced gs' (Suc g) b p"
  using assms by (auto simp: try_acquire_global_batch_slot_def balanced_def tasks_of_def split: if_splits)

lemma acquire_batch:
  assumes "try_acquire_batch_slot gs = Some gs'" and "balanced gs g b p"
  shows "balanced gs' g (Suc b) p"
  using assms by (auto simp: try_acquire_batch_slot_def balanced_def tasks_of_def split: if_splits)

lemma acquire_provider:
  assumes "try_acquire_provider_batch_slot gs i = Some gs'" and "balanced gs g b (\<lambda>_. 0)"
  shows "balanced gs' g b (permit_of i)"
  using assms by (cases i) (auto simp: try_acquire_provider_batch_slot_def balanced_defs split: if_splits)

lemma release_global_balanced: "balanced gs (Suc g) b p \<Longrightarrow> balanced (release_global gs) g b p"
  by (simp add: balanced_def release_global_def tasks_of_def)

lemma release_batch_balanced: "balanced gs g (Suc b) p \<Longrightarrow> balanced (release_batch gs) g b p"
  by (simp add: balanced_def release_batch_def tasks_of_def)

lemma release_provider_balanced:
  assumes "balanced gs g b (permit_of i)"
  shows "balanced (release_provider i gs) g b (\<lambda>_. 0)"
  using assms by (cases i) (auto simp: release_provider_def balanced_defs)

lemma release_two: "balanced gs 1 1 p \<Longrightarrow> balanced (release_batch (release_global gs)) 0 0 p"
  using release_batch_balanced [of "release_global gs" 0 0 p] release_global_balanced [of gs 0 1 p] by simp

lemma release_permits_balanced:
  "balanced gs 1 1 (permit_of i) \<Longrightarrow> balanced (release_permits i gs) 0 0 (\<lambda>_. 0)"
  unfolding release_permits_def by (intro release_provider_balanced release_two)

lemma spawn_balanced:
  assumes "balanced gs 1 1 (permit_of i)"
  shows "balanced (spawn_execution gs i job n) 0 0 (\<lambda>_. 0)"
  using assms release_permits_balanced [OF assms]
  by (cases i) (auto simp: spawn_execution_def spawn_batch_task_def balanced_defs)

text \<open>Counters do not matter.\<close>

lemma balanced_metrics [simp]: "balanced (gs\<lparr>gs_metrics := m\<rparr>) g b p = balanced gs g b p"
  using balanced_count [of "\<lambda>_. m" gs g b p] by (simp add: count_def)

lemma balanced_flags [simp]:
  "balanced (gs\<lparr>gs_accepting_work := w\<rparr>) g b p = balanced gs g b p"
  "balanced (gs\<lparr>gs_batch_task_registration_closed := w\<rparr>) g b p = balanced gs g b p"
proof -
  have "provider_slots (gs\<lparr>gs_accepting_work := w\<rparr>) i = provider_slots gs i"
    "provider_slots (gs\<lparr>gs_batch_task_registration_closed := w\<rparr>) i = provider_slots gs i" for i
    by (cases i; simp)+
  then show "balanced (gs\<lparr>gs_accepting_work := w\<rparr>) g b p = balanced gs g b p"
    "balanced (gs\<lparr>gs_batch_task_registration_closed := w\<rparr>) g b p = balanced gs g b p"
    by (simp_all add: balanced_def tasks_of_def)
qed

end
