(* ===== verification/Startup_Recovery.thy ===== *)
theory Startup_Recovery
  imports Batch_Effects Permits
begin

text \<open>
  Reconciliation of the ledger at startup and the recovery of the backlog:
  \<^verbatim>\<open>crates/voicetext-gateway/src/server/recovery.rs\<close>, with \<open>acquire_recovery_batch_slots\<close> of
  \<^verbatim>\<open>server/state.rs\<close>. Both loops walk the ledger in pages up to a head that was frozen first. They
  are partial functions: \<open>None\<close> means that the loop does not return. Other processes may change the
  ledger between the pages, and other tasks the state of the gateway while the worker waits for
  permits; both are functions of the environment.
\<close>

section \<open>Plans and failures\<close>

definition RESUME_PAGE_LIMIT :: usize where "RESUME_PAGE_LIMIT = 100"

record StartupRecoverySummary =
  srs_pages :: u64
  srs_recovered_unknown :: u64
  srs_executed :: u64
  srs_not_claimed :: u64
  srs_skipped_unconfigured :: u64
  srs_conflicts :: u64
  srs_missing :: u64

definition summary_default :: StartupRecoverySummary where
  "summary_default =
     \<lparr>srs_pages = 0, srs_recovered_unknown = 0, srs_executed = 0, srs_not_claimed = 0,
      srs_skipped_unconfigured = 0, srs_conflicts = 0, srs_missing = 0\<rparr>"

record StartupRecoveryPlan =
  srp_summary :: StartupRecoverySummary
  srp_head :: "BatchJobId option"

datatype StartupRecoveryFailure = StartupRecoveryFailure (recovery_code: string)

fun map_failure :: "BatchCoordinatorFailure \<Rightarrow> StartupRecoveryFailure" where
  "map_failure (SpoolFailure _) = StartupRecoveryFailure ''RECOVERY_SPOOL_UNAVAILABLE''"
| "map_failure (AdmissionCleanup _ _) = StartupRecoveryFailure ''RECOVERY_SPOOL_UNAVAILABLE''"
| "map_failure _ = StartupRecoveryFailure ''RECOVERY_LEDGER_UNAVAILABLE''"

definition advance_cursor ::
  "BatchJobId option \<Rightarrow> BatchJobId \<Rightarrow> (unit, StartupRecoveryFailure) result" where
  "advance_cursor current next_id =
     (if current = Some next_id then Err (StartupRecoveryFailure ''RECOVERY_CURSOR_DID_NOT_ADVANCE'') else Ok ())"

definition first_batch_recognizer :: "('b, 'l) GatewayState \<Rightarrow> 'b option" where
  "first_batch_recognizer state =
     (case registry_batch (gs_profiles state) DeepgramNova3MultiV2 of
        Some r \<Rightarrow> Some r
      | None \<Rightarrow> registry_batch (gs_profiles state) ElevenlabsScribeV2MultiV3)"

section \<open>Reconciliation\<close>

text \<open>The environment of one page: the faults of the listing and of the rows, and other processes.\<close>

record 'j page_env =
  pe_list :: fault
  pe_rows :: "nat \<Rightarrow> fault \<times> io_fault"
  pe_others :: "'j \<Rightarrow> 'j"

text \<open>\<open>len() as u64\<close>, then \<open>saturating_add\<close>.\<close>

definition add_len :: "u64 \<Rightarrow> 'a list \<Rightarrow> u64" where
  "add_len n xs = saturating_add n (of_nat (length xs))"

definition summary_add :: "StartupRecoverySummary \<Rightarrow> BatchStartupRecovery \<Rightarrow> StartupRecoverySummary" where
  "summary_add summary page =
     summary\<lparr>srs_pages := saturating_add (srs_pages summary) 1,
             srs_recovered_unknown := add_len (srs_recovered_unknown summary) (rec_recovered_unknown page),
             srs_conflicts := add_len (srs_conflicts summary) (rec_conflicts page),
             srs_missing := add_len (srs_missing summary) (rec_missing page)\<rparr>"

partial_function (option) reconcile_pages ::
  "'j job_store \<Rightarrow> 's audio_spool \<Rightarrow> (nat \<Rightarrow> 'j page_env) \<Rightarrow> BatchJobId \<Rightarrow> nat \<Rightarrow> 'j \<Rightarrow> 's \<Rightarrow> BatchJobId option
   \<Rightarrow> StartupRecoverySummary \<Rightarrow> ('j \<times> 's \<times> (StartupRecoverySummary, StartupRecoveryFailure) result) option" where
  "reconcile_pages jobs spool env through n l s cursor summary =
     (case recover_startup_through jobs spool (pe_list (env n)) (pe_rows (env n)) (pe_others (env n) l) s cursor through of
        (l', s', r) \<Rightarrow>
          (case r of
             Err failure \<Rightarrow> Some (l', s', Err (map_failure failure))
           | Ok page \<Rightarrow>
               (case rec_next_cursor page of
                  None \<Rightarrow> Some (l', s', Ok (summary_add summary page))
                | Some next_cursor \<Rightarrow>
                    (case advance_cursor cursor next_cursor of
                       Err failure \<Rightarrow> Some (l', s', Err failure)
                     | Ok _ \<Rightarrow>
                         reconcile_pages jobs spool env through (Suc n) l' s' (Some next_cursor)
                           (summary_add summary page)))))"

definition reconcile_startup ::
  "('b, 'j, 's) gateway_lib \<Rightarrow> fault \<Rightarrow> (nat \<Rightarrow> 'j page_env) \<Rightarrow> ('b, 'l) GatewayState \<Rightarrow> 'j \<Rightarrow> 's
   \<Rightarrow> (('b, 'l) GatewayState \<times> 'j \<times> 's \<times> (StartupRecoveryPlan, StartupRecoveryFailure) result) option" where
  "reconcile_startup lib f env state l s =
     (case js_recovery_head (lib_jobs lib) f l of
        Err _ \<Rightarrow> Some (state, l, s, Err (StartupRecoveryFailure ''RECOVERY_LEDGER_UNAVAILABLE''))
      | Ok None \<Rightarrow>
          Some (mark_startup_reconciled state, l, s, Ok \<lparr>srp_summary = summary_default, srp_head = None\<rparr>)
      | Ok (Some through) \<Rightarrow>
          (case first_batch_recognizer state of
             None \<Rightarrow> Some (state, l, s, Err (StartupRecoveryFailure ''NO_BATCH_PROFILE_CONFIGURED''))
           | Some _ \<Rightarrow>
               map_option (\<lambda>(l', s', r).
                   case r of
                     Err failure \<Rightarrow> (state, l', s', Err failure)
                   | Ok summary \<Rightarrow>
                       (mark_startup_reconciled state, l', s',
                        Ok \<lparr>srp_summary = summary, srp_head = Some through\<rparr>))
                 (reconcile_pages (lib_jobs lib) (lib_spool lib) env through 0 l s None summary_default)))"

section \<open>The backlog\<close>

text \<open>
  \<open>acquire_owned().await\<close> waits for a free permit (the semaphores are never closed); \<open>meanwhile\<close> is
  what happens to the state until the worker runs again.
\<close>

datatype ('b, 'l) acquisition =
    Refused "('b, 'l) GatewayState"
  | Waiting
  | Acquired "('b, 'l) GatewayState"

definition acquire_recovery_batch_slots ::
  "(('b, 'l) GatewayState \<Rightarrow> ('b, 'l) GatewayState) \<Rightarrow> ('b, 'l) GatewayState \<Rightarrow> BatchIdentity
   \<Rightarrow> ('b, 'l) acquisition" where
  "acquire_recovery_batch_slots meanwhile self0 identity =
     (if \<not> gs_accepting_work self0 then Refused self0
      else
        let self = meanwhile self0 in
        if gs_global_batch_slots self = 0 then Waiting
        else case try_acquire_batch_slot (self\<lparr>gs_global_batch_slots := gs_global_batch_slots self - 1\<rparr>) of
          None \<Rightarrow> Waiting
        | Some self1 \<Rightarrow>
            (case try_acquire_provider_batch_slot self1 identity of
               None \<Rightarrow> Waiting
             | Some self2 \<Rightarrow> if \<not> gs_accepting_work self2 then Refused self else Acquired self2))"

record ('b, 'l) action_env =
  ac_meanwhile :: "('b, 'l) GatewayState \<Rightarrow> ('b, 'l) GatewayState"
  ac_read :: io_fault
  ac_effects :: "'b effect_env"

text \<open>The metrics after an execution of the backlog.\<close>

definition record_execution ::
  "FencedExecution \<Rightarrow> u64 option \<Rightarrow> ('b, 'l) GatewayState \<Rightarrow> ('b, 'l) GatewayState" where
  "record_execution execution audio_bytes state =
     (case fe_outcome execution of
        Ok (Persisted _) \<Rightarrow>
          (let state = count count_recovery_executed state in
           case audio_bytes of
             Some bytes \<Rightarrow>
               if terminal_audio_removed execution
               then count (\<lambda>m. spool_terminal_cleaned m bytes) state else state
           | None \<Rightarrow> state)
      | Ok _ \<Rightarrow> state
      | Err _ \<Rightarrow> count count_batch_failure state)"

definition execute_actionable ::
  "('b, 'j, 's) gateway_lib \<Rightarrow> ('b, 'l) action_env \<Rightarrow> BatchJobSnapshot \<Rightarrow> ('b, 'l) GatewayState \<times> 'j \<times> 's
   \<Rightarrow> (('b, 'l) GatewayState \<times> 'j \<times> 's) option" where
  "execute_actionable lib env snapshot st =
     (case st of (state0, l, s) \<Rightarrow>
      case identity_for_profile (job_profile (sn_job snapshot)) of
        None \<Rightarrow> Some (state0, l, s)
      | Some identity \<Rightarrow>
          if registry_batch (gs_profiles state0) identity = None then Some (state0, l, s)
          else
            (case acquire_recovery_batch_slots (ac_meanwhile env) state0 identity of
               Refused state1 \<Rightarrow> Some (state1, l, s)
             | Waiting \<Rightarrow> None
             | Acquired state1 \<Rightarrow>
                 let audio_bytes =
                       (case as_read (lib_spool lib) (ac_read env) s (sn_audio snapshot) of
                          Ok audio \<Rightarrow> if length audio < 2 ^ 64 then Some (of_nat (length audio)) else None
                        | Err _ \<Rightarrow> None);
                     fx = execute_fenced lib (ac_effects env) (count batch_execution_started state1) l s identity
                            (sn_id snapshot);
                     state2 = count batch_execution_finished (fx_state fx);
                     state3 = (case fx_result fx of
                                 None \<Rightarrow> state2
                               | Some execution \<Rightarrow> record_execution execution audio_bytes state2)
                 in Some (release_permits identity state3, fx_ledger fx, fx_spool fx)))"

fun execute_candidates ::
  "('b, 'j, 's) gateway_lib \<Rightarrow> (nat \<Rightarrow> ('b, 'l) action_env) \<Rightarrow> BatchJobSnapshot list
   \<Rightarrow> ('b, 'l) GatewayState \<times> 'j \<times> 's \<Rightarrow> (('b, 'l) GatewayState \<times> 'j \<times> 's) option" where
  "execute_candidates lib env [] st = Some st"
| "execute_candidates lib env (snapshot # rest) st =
     Option.bind (execute_actionable lib (env (length rest)) snapshot st) (execute_candidates lib env rest)"

record ('b, 'l, 'j) drain_env =
  de_list :: fault
  de_actions :: "nat \<Rightarrow> ('b, 'l) action_env"
  de_others :: "'j \<Rightarrow> 'j"

partial_function (option) drain_backlog ::
  "('b, 'j, 's) gateway_lib \<Rightarrow> (nat \<Rightarrow> ('b, 'l, 'j) drain_env) \<Rightarrow> BatchJobId \<Rightarrow> nat \<Rightarrow> BatchJobId option
   \<Rightarrow> ('b, 'l) GatewayState \<times> 'j \<times> 's
   \<Rightarrow> ((('b, 'l) GatewayState \<times> 'j \<times> 's) \<times> (unit, StartupRecoveryFailure) result) option" where
  "drain_backlog lib env head n cursor st =
     (case st of (state, l0, s) \<Rightarrow>
      let l = de_others (env n) l0 in
      case js_list_recovery_candidates_through (lib_jobs lib) (de_list (env n)) l cursor head RESUME_PAGE_LIMIT of
        Err _ \<Rightarrow> Some ((state, l, s), Err (StartupRecoveryFailure ''RECOVERY_LEDGER_UNAVAILABLE''))
      | Ok candidates \<Rightarrow>
          Option.bind (execute_candidates lib (de_actions (env n)) candidates (state, l, s)) (\<lambda>st'.
            if length candidates < RESUME_PAGE_LIMIT then Some (st', Ok ())
            else if candidates = [] then Some (st', Err (StartupRecoveryFailure ''RECOVERY_CURSOR_MISSING''))
            else
              let next_cursor = sn_id (last candidates) in
              (case advance_cursor cursor next_cursor of
                 Err failure \<Rightarrow> Some (st', Err failure)
               | Ok _ \<Rightarrow> drain_backlog lib env head (Suc n) (Some next_cursor) st')))"

text \<open>The registered worker; a failure is counted.\<close>

definition start_startup_recovery ::
  "('b, 'j, 's) gateway_lib \<Rightarrow> (nat \<Rightarrow> ('b, 'l, 'j) drain_env) \<Rightarrow> StartupRecoveryPlan
   \<Rightarrow> ('b, 'l) GatewayState \<times> 'j \<times> 's \<Rightarrow> (('b, 'l) GatewayState \<times> 'j \<times> 's) option" where
  "start_startup_recovery lib env plan st =
     (case srp_head plan of
        None \<Rightarrow> Some st
      | Some head \<Rightarrow>
          if gs_batch_task_registration_closed (fst st) then Some st
          else map_option (\<lambda>((state, l, s), r).
                 case r of Ok _ \<Rightarrow> (state, l, s) | Err _ \<Rightarrow> (count count_batch_failure state, l, s))
               (drain_backlog lib env head 0 None st))"

section \<open>The order of the pages\<close>

text \<open>
  What recovery needs of a ledger beyond \<open>job_ledger\<close>: jobs have keys in a finite linear order, a
  page lists the recoverable jobs after the cursor in that order, and the head bounds them all.
\<close>

definition is_recoverable :: "BatchJobState \<Rightarrow> bool" where
  "is_recoverable st \<longleftrightarrow> is_actionable st \<or> (\<exists>a. st = Submitting a)"

locale recovery_ledger = job_ledger jobs invar rows
  for jobs :: "'l job_store" and invar :: "'l \<Rightarrow> bool" and rows :: "'l \<Rightarrow> rows" +
  fixes key :: "BatchJobId \<Rightarrow> uuid"
  assumes page_order:
      "invar l \<Longrightarrow> js_list_recovery_candidates_through jobs f l after through n = Ok sns \<Longrightarrow>
         sorted_wrt (\<lambda>a b. key (sn_id a) < key (sn_id b)) sns \<and>
         (\<forall>sn \<in> set sns. key (sn_id sn) \<le> key through \<and> (\<forall>a. after = Some a \<longrightarrow> key a < key (sn_id sn)))"
    and page_complete:
      "invar l \<Longrightarrow> js_list_recovery_candidates_through jobs f l after through n = Ok sns \<Longrightarrow>
         rows l i = Some sn \<Longrightarrow> is_recoverable (job_state (sn_job sn)) \<Longrightarrow> key i \<le> key through \<Longrightarrow>
         (\<forall>a. after = Some a \<longrightarrow> key a < key i) \<Longrightarrow>
         sn \<in> set sns \<or> n \<le> length sns \<and> (\<forall>t \<in> set sns. key (sn_id t) < key i)"
    and head_law:
      "invar l \<Longrightarrow> js_recovery_head jobs f l = Ok head \<Longrightarrow> rows l i = Some sn \<Longrightarrow>
         is_recoverable (job_state (sn_job sn)) \<Longrightarrow> \<exists>h. head = Some h \<and> key i \<le> key h"

text \<open>The keys that are still ahead of a cursor.\<close>

definition keys_ahead :: "(BatchJobId \<Rightarrow> uuid) \<Rightarrow> BatchJobId option \<Rightarrow> BatchJobId \<Rightarrow> uuid set" where
  "keys_ahead key cursor through = {u. u \<le> key through \<and> (\<forall>a. cursor = Some a \<longrightarrow> key a < u)}"

lemma keys_ahead_shrink:
  assumes "key c \<in> keys_ahead key cursor through"
  shows "keys_ahead key (Some c) through \<subset> keys_ahead key cursor through"
  using assms unfolding keys_ahead_def by (cases cursor) force+

lemma keys_ahead_card:
  "key c \<in> keys_ahead key cursor through \<Longrightarrow>
     card (keys_ahead key (Some c) through) < card (keys_ahead key cursor through)"
  by (intro psubset_card_mono keys_ahead_shrink) auto

section \<open>What reconciliation does to the ledger\<close>

text \<open>A submission found interrupted, and the row that recovery leaves.\<close>

definition interrupted :: "BatchJobSnapshot \<Rightarrow> BatchJobSnapshot \<Rightarrow> bool" where
  "interrupted sn st \<longleftrightarrow>
     (\<exists>a. job_state (sn_job sn) = Submitting a \<and> job_state (sn_job st) = OutcomeUnknown a InterruptedSubmission)
     \<and> same_immutable st sn"

definition recovers :: "rows \<Rightarrow> rows \<Rightarrow> BatchJobId set \<Rightarrow> bool" where
  "recovers R R' D \<longleftrightarrow>
     (\<forall>i. if i \<in> D then \<exists>sn st. R i = Some sn \<and> R' i = Some st \<and> interrupted sn st else R' i = R i)"

definition submitting_ids :: "BatchJobSnapshot list \<Rightarrow> BatchJobId set" where
  "submitting_ids sns = {sn_id sn | sn. sn \<in> set sns \<and> (\<exists>a. job_state (sn_job sn) = Submitting a)}"

lemma recovers_refl: "recovers R R {}"
  by (simp add: recovers_def)

lemma recovers_trans:
  assumes "recovers R R' D" and "recovers R' R'' E" and "D \<inter> E = {}"
  shows "recovers R R'' (D \<union> E)"
  unfolding recovers_def
proof
  fix i
  have 1: "if i \<in> D then \<exists>sn st. R i = Some sn \<and> R' i = Some st \<and> interrupted sn st else R' i = R i"
    and 2: "if i \<in> E then \<exists>sn st. R' i = Some sn \<and> R'' i = Some st \<and> interrupted sn st else R'' i = R' i"
    using assms(1,2) unfolding recovers_def by blast+
  show "if i \<in> D \<union> E then \<exists>sn st. R i = Some sn \<and> R'' i = Some st \<and> interrupted sn st else R'' i = R i"
    using 1 2 assms(3) by (cases "i \<in> D"; cases "i \<in> E") auto
qed

lemma recovers_submitting:
  assumes "recovers R R' D" and "R' i = Some sn" and "job_state (sn_job sn) = Submitting a"
  shows "i \<notin> D \<and> R i = Some sn"
proof -
  have "if i \<in> D then \<exists>sn st. R i = Some sn \<and> R' i = Some st \<and> interrupted sn st else R' i = R i"
    using assms(1) unfolding recovers_def by blast
  then show ?thesis using assms(2,3) by (auto simp: interrupted_def split: if_splits)
qed

lemma recovers_outside: "recovers R R' D \<Longrightarrow> i \<notin> D \<Longrightarrow> R' i = R i"
  unfolding recovers_def by metis

lemma submitting_ids_Cons:
  "submitting_ids (sn # sns) = submitting_ids [sn] \<union> submitting_ids sns"
  "submitting_ids [sn] = (if \<exists>a. job_state (sn_job sn) = Submitting a then {sn_id sn} else {})"
  by (auto simp: submitting_ids_def)

lemma submitting_ids_Nil [simp]: "submitting_ids [] = {}"
  by (simp add: submitting_ids_def)

text \<open>
  A page that was processed: the recovered jobs are ahead of the cursor, and they are all the
  interrupted ones up to the next cursor, or up to the head when there is no next page.
\<close>

definition page_recovered ::
  "(BatchJobId \<Rightarrow> uuid) \<Rightarrow> rows \<Rightarrow> rows \<Rightarrow> BatchJobId option \<Rightarrow> BatchJobId \<Rightarrow> BatchJobId option \<Rightarrow> bool" where
  "page_recovered key R R' cursor through next_cursor \<longleftrightarrow>
     (\<exists>D. recovers R R' D \<and> key ` D \<subseteq> keys_ahead key cursor through \<and>
        (\<forall>c. next_cursor = Some c \<longrightarrow> key c \<in> keys_ahead key cursor through \<and> (\<forall>i \<in> D. key i \<le> key c)) \<and>
        (\<forall>i sn a. R i = Some sn \<and> job_state (sn_job sn) = Submitting a \<and> key i \<in> keys_ahead key cursor through \<and>
           (\<forall>c. next_cursor = Some c \<longrightarrow> key i \<le> key c) \<longrightarrow> i \<in> D))"

context recovery_ledger
begin

lemma swap_interrupted:
  assumes inv: "invar l" and row: "rows l (sn_id sn) = Some sn" and sub: "job_state (sn_job sn) = Submitting a"
    and swap: "reconcile_swap jobs f l sn = (l', u)"
  shows "invar l'" and "u = Ok out \<Longrightarrow> \<exists>st. out = Stored st \<and> recovers (rows l) (rows l') {sn_id sn}"
proof -
  let ?rp = "sn\<lparr>sn_job := fst (recover_interrupted_submission (sn_job sn))\<rparr>"
  have fs: "fresh_or_stale (rows l) sn" using fresh_row [OF inv row] .
  show "invar l'" using reconcile_effect [OF inv fs sub swap] by blast
  have wf: "wf_job (sn_job ?rp)" using wf_job_recover fs by (simp add: fresh_or_stale_def)
  have js: "job_state (sn_job ?rp) = OutcomeUnknown a InterruptedSubmission"
    using sub by (simp add: recover_interrupted_submission_def)
  have cas: "js_compare_and_swap jobs f l (sn_revision sn) ?rp = (l', u)" using swap by (simp add: reconcile_swap_def)
  assume u: "u = Ok out"
  have "\<exists>st. out = Stored st"
    using cas_refused [OF inv wf cas [unfolded u]] row by (cases out) auto
  then obtain st where st: "out = Stored st" by blast
  have id: "sn_id ?rp = sn_id sn" by simp
  have "replaced (rows l) (rows l') sn ?rp st"
    using swapped_replaced [OF cas_stored [OF inv wf cas [unfolded u st]] fs id] .
  then have "recovers (rows l) (rows l') {sn_id sn}"
    using row sub js by (auto simp: recovers_def replaced_def interrupted_def)
  with st show "\<exists>st. out = Stored st \<and> recovers (rows l) (rows l') {sn_id sn}" by blast
qed

lemma reconcile_one_effect:
  assumes inv: "invar l" and row: "rows l (sn_id sn) = Some sn"
    and one: "reconcile_one jobs spool f io l s r sn = (l', s', out)"
  shows "invar l'" and "out = Ok r' \<Longrightarrow> recovers (rows l) (rows l') (submitting_ids [sn]) \<and>
      rec_next_cursor r' = rec_next_cursor r \<and> rec_conflicts r' = rec_conflicts r \<and> rec_missing r' = rec_missing r"
proof -
  consider (sub) a where "job_state (sn_job sn) = Submitting a" | (other) "\<forall>a. job_state (sn_job sn) \<noteq> Submitting a"
    by blast
  then have "invar l' \<and> (\<forall>r'. out = Ok r' \<longrightarrow> recovers (rows l) (rows l') (submitting_ids [sn]) \<and>
      rec_next_cursor r' = rec_next_cursor r \<and> rec_conflicts r' = rec_conflicts r \<and> rec_missing r' = rec_missing r)"
  proof cases
    case (sub a)
    obtain l2 u where swap: "reconcile_swap jobs f l sn = (l2, u)" by fastforce
    have l2: "l2 = l'"
      using one sub swap by (auto simp: reconcile_one_def split: result.splits prod.splits BatchJobUpdateOutcome.splits)
    note sw = swap_interrupted [OF inv row sub swap [unfolded l2]]
    show ?thesis
      using one sub swap sw unfolding submitting_ids_Cons(2)
      by (fastforce simp: reconcile_one_def split: result.splits prod.splits BatchJobUpdateOutcome.splits)
  next
    case other
    then have "l' = l" "out = Ok r' \<Longrightarrow> rec_next_cursor r' = rec_next_cursor r \<and> rec_conflicts r' = rec_conflicts r \<and>
        rec_missing r' = rec_missing r" for r'
      using one by (auto simp: reconcile_one_def split: BatchJobState.splits)
    then show ?thesis using inv other by (simp add: submitting_ids_Cons(2) recovers_refl)
  qed
  then show "invar l'" "out = Ok r' \<Longrightarrow> recovers (rows l) (rows l') (submitting_ids [sn]) \<and>
      rec_next_cursor r' = rec_next_cursor r \<and> rec_conflicts r' = rec_conflicts r \<and> rec_missing r' = rec_missing r"
    by blast+
qed

lemma reconcile_loop_effect:
  assumes "invar l" and "\<forall>sn \<in> set sns. rows l (sn_id sn) = Some sn" and "distinct (map sn_id sns)"
    and "reconcile_loop jobs spool env l s r sns = (l', s', out)"
  shows "invar l' \<and> (\<forall>r'. out = Ok r' \<longrightarrow> recovers (rows l) (rows l') (submitting_ids sns) \<and>
      rec_next_cursor r' = rec_next_cursor r \<and> rec_conflicts r' = rec_conflicts r \<and> rec_missing r' = rec_missing r)"
  using assms
proof (induction sns arbitrary: l s r)
  case Nil
  then show ?case by (auto simp: recovers_refl)
next
  case (Cons sn sns)
  obtain l1 s1 o1 where one: "reconcile_one jobs spool (fst (env (length sns))) (snd (env (length sns))) l s r sn = (l1, s1, o1)"
    by (metis surj_pair)
  have row: "rows l (sn_id sn) = Some sn" using Cons.prems(2) by simp
  note e1 = reconcile_one_effect [OF Cons.prems(1) row one]
  show ?case
  proof (cases o1)
    case (Err e)
    then show ?thesis using Cons.prems(4) one e1(1) by auto
  next
    case (Ok r1)
    have rec1: "recovers (rows l) (rows l1) (submitting_ids [sn])" "rec_next_cursor r1 = rec_next_cursor r"
      "rec_conflicts r1 = rec_conflicts r" "rec_missing r1 = rec_missing r" using e1(2) [OF Ok] by blast+
    have sub: "submitting_ids [sn] \<subseteq> {sn_id sn}" by (simp add: submitting_ids_Cons(2))
    have rows1: "\<forall>t \<in> set sns. rows l1 (sn_id t) = Some t"
    proof
      fix t assume t: "t \<in> set sns"
      then have "sn_id t \<noteq> sn_id sn" using Cons.prems(3) by (auto simp: image_iff)
      then have "sn_id t \<notin> submitting_ids [sn]" using sub by blast
      then have "rows l1 (sn_id t) = rows l (sn_id t)" using rec1(1) unfolding recovers_def by metis
      then show "rows l1 (sn_id t) = Some t" using Cons.prems(2) t by simp
    qed
    have loop: "reconcile_loop jobs spool env l1 s1 r1 sns = (l', s', out)" using Cons.prems(4) one Ok by simp
    have d: "distinct (map sn_id sns)" and disj: "submitting_ids [sn] \<inter> submitting_ids sns = {}"
      using Cons.prems(3) sub by (auto simp: submitting_ids_def)
    show ?thesis
      using Cons.IH [OF e1(1) rows1 d loop] rec1 recovers_trans [OF rec1(1) _ disj]
      unfolding submitting_ids_Cons(1) [of sn sns] by auto
  qed
qed

text \<open>A page: the candidates that are processed, and where the next one starts.\<close>

lemma page_rows:
  assumes inv: "invar l" and listed: "js_list_recovery_candidates_through jobs f l cursor through n = Ok sns"
    and page: "bounded_candidates sns = (page, r0)"
  shows "\<forall>sn \<in> set page. rows l (sn_id sn) = Some sn" and "distinct (map sn_id page)"
    and "\<forall>sn \<in> set page. key (sn_id sn) \<in> keys_ahead key cursor through"
    and "rec_next_cursor r0 = Some c \<Longrightarrow> page \<noteq> [] \<and> c = sn_id (last page)"
proof -
  have sub: "page = sns \<or> page = take RECOVERY_BATCH_LIMIT sns"
    using page by (auto simp: bounded_candidates_def Let_def split: if_splits)
  then have set: "set page \<subseteq> set sns" by (auto dest: in_set_takeD)
  note ord = page_order [OF inv listed]
  have "sorted_wrt (\<lambda>a b. key (sn_id a) < key (sn_id b)) page" using sub ord by (auto intro: sorted_wrt_take)
  then have "sorted_wrt (<) (map (\<lambda>sn. key (sn_id sn)) page)" by (simp add: sorted_wrt_map)
  then have "distinct (map (\<lambda>sn. key (sn_id sn)) page)" by (simp add: strict_sorted_iff)
  then show "distinct (map sn_id page)" by (auto simp: distinct_map inj_on_def)
  show "\<forall>sn \<in> set page. rows l (sn_id sn) = Some sn" using list_through_law [OF inv listed] set by blast
  show "\<forall>sn \<in> set page. key (sn_id sn) \<in> keys_ahead key cursor through"
    using ord set by (auto simp: keys_ahead_def)
  show "rec_next_cursor r0 = Some c \<Longrightarrow> page \<noteq> [] \<and> c = sn_id (last page)"
    using page by (auto simp: bounded_candidates_def empty_recovery_def Let_def split: if_splits)
qed

lemma page_last_greatest:
  assumes inv: "invar l" and listed: "js_list_recovery_candidates_through jobs f l cursor through n = Ok sns"
    and page: "bounded_candidates sns = (page, r0)" and c: "rec_next_cursor r0 = Some c"
  shows "\<forall>i \<in> sn_id ` set page. key i \<le> key c"
proof -
  have p: "page \<noteq> []" "c = sn_id (last page)" "page = sns \<or> page = take RECOVERY_BATCH_LIMIT sns"
    using page c by (auto simp: bounded_candidates_def empty_recovery_def Let_def split: if_splits)
  then have "sorted_wrt (\<lambda>a b. key (sn_id a) < key (sn_id b)) page"
    using page_order [OF inv listed] by (auto intro: sorted_wrt_take)
  moreover have "page = butlast page @ [last page]" using p(1) by simp
  ultimately have "\<forall>sn \<in> set (butlast page). key (sn_id sn) < key c"
    using p(2) by (metis list.set_intros(1) sorted_wrt_append)
  moreover have "set page = insert (last page) (set (butlast page))"
    using p(1) by (metis append_butlast_last_id list.set(1,2) set_append Un_insert_right sup_bot_right)
  ultimately show ?thesis using p(2) by auto
qed

lemma page_covers:
  assumes inv: "invar l" and listed: "js_list_recovery_candidates_through jobs f l cursor through RECOVERY_BATCH_LIMIT = Ok sns"
    and page: "bounded_candidates sns = (page, r0)"
    and row: "rows l i = Some sn" "job_state (sn_job sn) = Submitting a" "key i \<in> keys_ahead key cursor through"
    and upto: "\<forall>c. rec_next_cursor r0 = Some c \<longrightarrow> key i \<le> key c"
  shows "i \<in> submitting_ids page"
proof -
  have id: "sn_id sn = i" using rows_law [OF inv row(1)] by simp
  note ord = page_order [OF inv listed]
  have comp: "sn \<in> set sns \<or> RECOVERY_BATCH_LIMIT \<le> length sns \<and> (\<forall>t \<in> set sns. key (sn_id t) < key i)"
    using page_complete [OF inv listed row(1)] row(2,3) by (simp add: is_recoverable_def keys_ahead_def)
  have "sn \<in> set page"
  proof (cases "RECOVERY_BATCH_LIMIT \<le> length sns")
    case False
    then show ?thesis using comp page by (simp add: bounded_candidates_def)
  next
    case True
    let ?p = "take RECOVERY_BATCH_LIMIT sns" and ?q = "drop RECOVERY_BATCH_LIMIT sns"
    have p: "page = ?p" "page \<noteq> []" and c: "rec_next_cursor r0 = Some (sn_id (last page))"
      using page True by (auto simp: bounded_candidates_def Let_def RECOVERY_BATCH_LIMIT_def)
    have "last page \<in> set page" using p(2) by simp
    then have last: "last page \<in> set sns" "key i \<le> key (sn_id (last page))"
      using upto c p(1) in_set_takeD [of "last page" RECOVERY_BATCH_LIMIT sns] by auto
    then have "sn \<in> set sns" using comp by auto
    moreover have "sn \<notin> set ?q"
    proof
      assume "sn \<in> set ?q"
      moreover have "sorted_wrt (\<lambda>a b. key (sn_id a) < key (sn_id b)) (?p @ ?q)" using ord by simp
      ultimately have "key (sn_id (last ?p)) < key (sn_id sn)"
        unfolding sorted_wrt_append using p by (auto simp: last_in_set)
      with last(2) id p(1) show False by simp
    qed
    ultimately show ?thesis unfolding p(1) by (metis Un_iff append_take_drop_id set_append)
  qed
  with row(2) id show ?thesis by (auto simp: submitting_ids_def)
qed

lemma recover_page:
  assumes inv: "invar l"
    and run: "recover_startup_through jobs spool f env l s cursor through = (l', s', out)"
  shows "invar l' \<and> (\<forall>page. out = Ok page \<longrightarrow>
    page_recovered key (rows l) (rows l') cursor through (rec_next_cursor page))"
proof (cases "js_list_recovery_candidates_through jobs f l cursor through RECOVERY_BATCH_LIMIT")
  case (Err e)
  then show ?thesis using run inv by (auto simp: recover_startup_through_def)
next
  case (Ok sns)
  obtain page r0 where b: "bounded_candidates sns = (page, r0)" by fastforce
  have loop: "reconcile_loop jobs spool env l s r0 page = (l', s', out)"
    using run Ok b by (simp add: recover_startup_through_def reconcile_candidates_def)
  note pr = page_rows [OF inv Ok b] and pc = page_covers [OF inv Ok b]
  have eff: "invar l' \<and> (\<forall>r'. out = Ok r' \<longrightarrow> recovers (rows l) (rows l') (submitting_ids page) \<and>
      rec_next_cursor r' = rec_next_cursor r0)"
    using reconcile_loop_effect [OF inv pr(1,2) loop] by blast
  have ids: "submitting_ids page \<subseteq> sn_id ` set page" by (auto simp: submitting_ids_def)
  have le: "key i \<le> key c" if "rec_next_cursor r0 = Some c" "i \<in> submitting_ids page" for i c
    using that ids page_last_greatest [OF inv Ok b that(1)] by blast
  have "page_recovered key (rows l) (rows l') cursor through (rec_next_cursor r0)"
    if "recovers (rows l) (rows l') (submitting_ids page)"
    unfolding page_recovered_def
  proof (intro exI conjI)
    show "recovers (rows l) (rows l') (submitting_ids page)" by (rule that)
    show "key ` submitting_ids page \<subseteq> keys_ahead key cursor through" using ids pr(3) by blast
    show "\<forall>c. rec_next_cursor r0 = Some c \<longrightarrow> key c \<in> keys_ahead key cursor through \<and> (\<forall>i \<in> submitting_ids page. key i \<le> key c)"
      using pr(3,4) le by (auto simp: last_in_set)
    show "\<forall>i sn a. rows l i = Some sn \<and> job_state (sn_job sn) = Submitting a \<and> key i \<in> keys_ahead key cursor through \<and>
         (\<forall>c. rec_next_cursor r0 = Some c \<longrightarrow> key i \<le> key c) \<longrightarrow> i \<in> submitting_ids page"
      using pc by blast
  qed
  with eff show ?thesis by auto
qed

text \<open>Every page moves the cursor forward, so the loop ends, whatever others do meanwhile.\<close>

lemma reconcile_pages_returns:
  assumes others: "\<And>n l. invar l \<Longrightarrow> invar (pe_others (env n) l)" and inv: "invar l"
  shows "\<exists>l' s' r. reconcile_pages jobs spool env through n l s cursor summary = Some (l', s', r) \<and> invar l'"
  using inv
proof (induction "card (keys_ahead key cursor through)" arbitrary: n l s cursor summary rule: less_induct)
  case less
  obtain l' s' r where run: "recover_startup_through jobs spool (pe_list (env n)) (pe_rows (env n))
      (pe_others (env n) l) s cursor through = (l', s', r)" by (metis surj_pair)
  have eff: "invar l' \<and> (\<forall>page. r = Ok page \<longrightarrow>
      page_recovered key (rows (pe_others (env n) l)) (rows l') cursor through (rec_next_cursor page))"
    using recover_page [OF others [OF less.prems] run] .
  have "\<exists>l2 s2 r2. reconcile_pages jobs spool env through (Suc n) l' s' (Some c) sm = Some (l2, s2, r2) \<and> invar l2"
    if "r = Ok page" "rec_next_cursor page = Some c" for page c sm
  proof -
    have "key c \<in> keys_ahead key cursor through" using eff that by (auto simp: page_recovered_def)
    then show ?thesis using less.hyps [OF keys_ahead_card] eff by blast
  qed
  then show ?case
    using eff by (subst reconcile_pages.simps) (auto simp: run split: result.split option.split)
qed

lemma reconcile_pages_recovers:
  assumes alone: "\<And>n l. pe_others (env n) l = l" and inv: "invar l"
    and ahead: "\<And>i sn a. rows l i = Some sn \<Longrightarrow> job_state (sn_job sn) = Submitting a \<Longrightarrow> key i \<le> key through \<Longrightarrow>
        key i \<in> keys_ahead key cursor through"
    and ret: "reconcile_pages jobs spool env through n l s cursor summary = Some (l', s', Ok fsm)"
  shows "\<exists>D. recovers (rows l) (rows l') D \<and> key ` D \<subseteq> keys_ahead key cursor through \<and>
    (\<forall>i sn a. rows l i = Some sn \<and> job_state (sn_job sn) = Submitting a \<and> key i \<le> key through \<longrightarrow> i \<in> D)"
  using inv ahead ret
proof (induction "card (keys_ahead key cursor through)" arbitrary: n l s cursor summary rule: less_induct)
  case less
  obtain l1 s1 r where run: "recover_startup_through jobs spool (pe_list (env n)) (pe_rows (env n)) l s cursor through
      = (l1, s1, r)" by (metis surj_pair)
  obtain page where page: "r = Ok page"
    using less.prems(3) by (subst (asm) reconcile_pages.simps) (auto simp: alone run split: result.splits)
  have inv1: "invar l1" and pr: "page_recovered key (rows l) (rows l1) cursor through (rec_next_cursor page)"
    using recover_page [OF less.prems(1) run] page by blast+
  obtain D where D: "recovers (rows l) (rows l1) D" "key ` D \<subseteq> keys_ahead key cursor through"
      "\<forall>c. rec_next_cursor page = Some c \<longrightarrow> key c \<in> keys_ahead key cursor through \<and> (\<forall>i \<in> D. key i \<le> key c)"
      "\<forall>i sn a. rows l i = Some sn \<and> job_state (sn_job sn) = Submitting a \<and> key i \<in> keys_ahead key cursor through \<and>
        (\<forall>c. rec_next_cursor page = Some c \<longrightarrow> key i \<le> key c) \<longrightarrow> i \<in> D"
    using pr unfolding page_recovered_def by blast
  show ?case
  proof (cases "rec_next_cursor page")
    case None
    then have "l' = l1" using less.prems(3) by (subst (asm) reconcile_pages.simps) (simp add: alone run page)
    then show ?thesis using D less.prems(2) None by (metis option.distinct(1))
  next
    case (Some c)
    have step: "reconcile_pages jobs spool env through (Suc n) l1 s1 (Some c) (summary_add summary page) = Some (l', s', Ok fsm)"
      using less.prems(3) Some
      by (subst (asm) reconcile_pages.simps) (simp add: alone run page split: result.splits)
    have left: "key i \<in> keys_ahead key (Some c) through \<and> rows l i = Some sn \<and> i \<notin> D"
      if "rows l1 i = Some sn" "job_state (sn_job sn) = Submitting a" "key i \<le> key through" for i sn a
    proof -
      have "i \<notin> D" "rows l i = Some sn"
        using recovers_submitting [OF D(1) that(1,2)] by blast+
      moreover have "\<not> key i \<le> key c"
        using D(4) less.prems(2) [of i sn a] that calculation Some by (metis option.inject)
      ultimately show ?thesis using that(3) by (simp add: keys_ahead_def)
    qed
    then have "\<exists>E. recovers (rows l1) (rows l') E \<and> key ` E \<subseteq> keys_ahead key (Some c) through \<and>
      (\<forall>i sn a. rows l1 i = Some sn \<and> job_state (sn_job sn) = Submitting a \<and> key i \<le> key through \<longrightarrow> i \<in> E)"
      by (intro less.hyps [OF keys_ahead_card inv1 _ step]) (use D(3) Some in blast)+
    then obtain E where E: "recovers (rows l1) (rows l') E" "key ` E \<subseteq> keys_ahead key (Some c) through"
      "\<forall>i sn a. rows l1 i = Some sn \<and> job_state (sn_job sn) = Submitting a \<and> key i \<le> key through \<longrightarrow> i \<in> E"
      by (elim exE conjE) (rule that)
    have disj: "D \<inter> E = {}" using D(3) Some E(2) by (force simp: keys_ahead_def)
    have "i \<in> D \<union> E" if "rows l i = Some sn" "job_state (sn_job sn) = Submitting a" "key i \<le> key through" for i sn a
      using that recovers_outside [OF D(1), of i] E(3) [rule_format, of i sn a] by auto
    moreover have "key ` (D \<union> E) \<subseteq> keys_ahead key cursor through"
      using D(2,3) E(2) keys_ahead_shrink [of key c cursor through] Some by blast
    ultimately show ?thesis using recovers_trans [OF D(1) E(1) disj] by blast
  qed
qed

lemma executed_ledger:
  assumes "invar l" and "lib_jobs lib = jobs"
  shows "invar (fx_ledger (execute_fenced lib env gs l s identity job_id))"
proof (cases "registry_batch (gs_profiles gs) identity")
  case (Some b)
  obtain l' s' r sent where run: "execute_with_cleanup_report jobs (lib_spool lib) (ef_recognize env b)
      (gateway_projection (lib_json lib) (lib_uuid lib)) (ef_execute env) l s job_id = (l', s', r, sent)"
    by (metis surj_pair)
  then show ?thesis using executed_effects [OF assms(1) run] Some assms(2)
    by (simp add: execute_fenced_def Let_def split: prod.split)
qed (simp add: execute_fenced_def assms)

end

section \<open>The worker and the permits\<close>

lemma metrics_self: "\<exists>m. gs = gs\<lparr>gs_metrics := m\<rparr>"
  by (rule exI [of _ "gs_metrics gs"]) simp

lemma observe_outcome_state: "\<exists>m. observe_outcome outcome gs = gs\<lparr>gs_metrics := m\<rparr>"
  by (cases "(outcome, gs)" rule: observe_outcome.cases)
    (auto simp: count_def Let_def split: BatchJobState.splits intro: exI [of _ "gs_metrics gs"])

lemma started_state: "\<exists>m. fold (\<lambda>_. count batch_provider_effect_started) sent gs = gs\<lparr>gs_metrics := m\<rparr>"
proof (induction sent arbitrary: gs)
  case (Cons q sent)
  show ?case using Cons [of "count batch_provider_effect_started gs"] by (auto simp: count_def)
qed (simp add: metrics_self)

lemma observe_qualification_state: "\<exists>m. fst (observe_qualification env gs i c outcome) = gs\<lparr>gs_metrics := m\<rparr>"
  by (auto simp: observe_qualification_def count_def Let_def intro: exI [of _ "gs_metrics gs"]
      split: prod.splits option.splits result.splits)

text \<open>An execution changes nothing of the gateway's state but its counters.\<close>

lemma fenced_state: "\<exists>m. fx_state (execute_fenced lib env gs l s identity job_id) = gs\<lparr>gs_metrics := m\<rparr>"
proof (cases "registry_batch (gs_profiles gs) identity")
  case (Some b)
  obtain l' s' r sent where run: "execute_with_cleanup_report (lib_jobs lib) (lib_spool lib) (ef_recognize env b)
      (gateway_projection (lib_json lib) (lib_uuid lib)) (ef_execute env) l s job_id = (l', s', r, sent)"
    by (metis surj_pair)
  obtain m1 where m1: "fold (\<lambda>_. count batch_provider_effect_started) sent gs = gs\<lparr>gs_metrics := m1\<rparr>"
    using started_state by blast
  obtain m2 where m2: "observe_outcome (map_ok ber_outcome r) (gs\<lparr>gs_metrics := m1\<rparr>) = gs\<lparr>gs_metrics := m2\<rparr>"
    using observe_outcome_state [of "map_ok ber_outcome r" "gs\<lparr>gs_metrics := m1\<rparr>"] by auto
  show ?thesis
  proof (cases sent)
    case Nil
    then show ?thesis using Some run m1 m2 by (auto simp: execute_fenced_def Let_def)
  next
    case (Cons q qs)
    obtain m3 where "fst (observe_qualification env (gs\<lparr>gs_metrics := m2\<rparr>) job_id
        (effect_capture (lib_sha256 lib) env q (ef_recognize env b q)) (map_ok ber_outcome r)) = gs\<lparr>gs_metrics := m3\<rparr>"
      using observe_qualification_state [of env "gs\<lparr>gs_metrics := m2\<rparr>" job_id
          "effect_capture (lib_sha256 lib) env q (ef_recognize env b q)" "map_ok ber_outcome r"] by auto
    then show ?thesis using Some run m1 [unfolded Cons] m2 Cons
      by (auto simp: execute_fenced_def Let_def split: prod.splits)
  qed
qed (auto simp: execute_fenced_def intro: exI [of _ "gs_metrics gs"])

lemma record_execution_state: "\<exists>m. record_execution e b gs = gs\<lparr>gs_metrics := m\<rparr>"
  by (auto simp: record_execution_def count_def Let_def intro: exI [of _ "gs_metrics gs"]
      split: result.splits BatchExecutionOutcome.splits option.splits)

lemma acquire_recovery_balanced:
  assumes "acquire_recovery_batch_slots meanwhile gs i = Acquired gs'" and "balanced (meanwhile gs) 0 0 (\<lambda>_. 0)"
  shows "balanced gs' 1 1 (permit_of i) \<and> gs_limits gs' = gs_limits (meanwhile gs)"
proof -
  let ?g = "meanwhile gs" and ?g1 = "(meanwhile gs)\<lparr>gs_global_batch_slots := gs_global_batch_slots (meanwhile gs) - 1\<rparr>"
  obtain g2 where acq: "gs_global_batch_slots ?g \<noteq> 0" "try_acquire_batch_slot ?g1 = Some g2"
      "try_acquire_provider_batch_slot g2 i = Some gs'"
    using assms(1) by (auto simp: acquire_recovery_batch_slots_def Let_def split: if_splits option.splits)
  have "balanced ?g1 1 0 (\<lambda>_. 0)" using assms(2) acq(1) by (simp add: balanced_def tasks_of_def)
  from acquire_batch [OF acq(2) this] acquire_provider [OF acq(3)] have "balanced gs' 1 1 (permit_of i)" by simp
  moreover have "gs_limits gs' = gs_limits ?g"
    using acq(2,3) by (cases i) (auto simp: try_acquire_batch_slot_def try_acquire_provider_batch_slot_def split: if_splits)
  ultimately show ?thesis by blast
qed

text \<open>
  Fair waiting: while the worker waits, the other tasks keep the permit balance, and they end and
  give back the permits the worker waits for.
\<close>

definition fair_waiting :: "(('b, 'l) GatewayState \<Rightarrow> ('b, 'l) GatewayState) \<Rightarrow> bool" where
  "fair_waiting meanwhile \<longleftrightarrow>
     (\<forall>gs i. slots_inv gs \<and> 0 < gl_live_connections (gs_limits gs) \<longrightarrow>
        slots_inv (meanwhile gs) \<and> gs_limits (meanwhile gs) = gs_limits gs \<and>
        acquire_recovery_batch_slots meanwhile gs i \<noteq> Waiting)"

abbreviation worker_ready :: "('b, 'l) GatewayState \<Rightarrow> bool" where
  "worker_ready gs \<equiv> slots_inv gs \<and> 0 < gl_live_connections (gs_limits gs)"

lemma release_limits [simp]: "gs_limits (release_permits i gs) = gs_limits gs"
  by (cases i) (simp_all add: release_permits_def release_provider_def release_batch_def release_global_def)

text \<open>An execution of the backlog: the permits come back, and only counters differ.\<close>

lemma execute_actionable_acquired:
  assumes i: "identity_for_profile (job_profile (sn_job sn)) = Some i"
    and reg: "registry_batch (gs_profiles gs) i \<noteq> None"
    and acq: "acquire_recovery_batch_slots (ac_meanwhile env) gs i = Acquired g1"
  shows "\<exists>m. execute_actionable lib env sn (gs, l, s) =
    (let fx = execute_fenced lib (ac_effects env) (count batch_execution_started g1) l s i (sn_id sn)
     in Some (release_permits i (g1\<lparr>gs_metrics := m\<rparr>), fx_ledger fx, fx_spool fx))"
proof -
  let ?fx = "execute_fenced lib (ac_effects env) (count batch_execution_started g1) l s i (sn_id sn)"
  obtain m where m: "fx_state ?fx = g1\<lparr>gs_metrics := m\<rparr>"
    using fenced_state [of lib "ac_effects env" "count batch_execution_started g1" l s i "sn_id sn"]
    by (auto simp: count_def)
  define g2 where "g2 = count batch_execution_finished (fx_state ?fx)"
  define bytes :: "u64 option" where
    "bytes = (case as_read (lib_spool lib) (ac_read env) s (sn_audio sn) of
        Ok audio \<Rightarrow> if length audio < 2 ^ 64 then Some (of_nat (length audio)) else None | Err _ \<Rightarrow> None)"
  define g3 where "g3 = (case fx_result ?fx of None \<Rightarrow> g2 | Some e \<Rightarrow> record_execution e bytes g2)"
  have "\<exists>m3. g3 = g1\<lparr>gs_metrics := m3\<rparr>"
    using record_execution_state [of _ bytes g2] m by (auto simp: g3_def g2_def count_def split: option.split)
  moreover have "execute_actionable lib env sn (gs, l, s) = Some (release_permits i g3, fx_ledger ?fx, fx_spool ?fx)"
    using i reg acq unfolding execute_actionable_def g3_def g2_def bytes_def Let_def by auto
  ultimately show ?thesis by (auto simp: Let_def)
qed

context recovery_ledger
begin

lemma execute_actionable_returns:
  assumes inv: "invar l" and lib: "lib_jobs lib = jobs" and gs: "worker_ready gs"
    and fair: "fair_waiting (ac_meanwhile env)"
  shows "\<exists>gs' l' s'. execute_actionable lib env sn (gs, l, s) = Some (gs', l', s') \<and> invar l' \<and> worker_ready gs'"
proof (cases "identity_for_profile (job_profile (sn_job sn))")
  case None
  then show ?thesis using inv gs by (simp add: execute_actionable_def)
next
  case (Some i)
  note f = fair [unfolded fair_waiting_def, rule_format, of gs i, OF gs]
  show ?thesis
  proof (cases "registry_batch (gs_profiles gs) i = None")
    case True
    then show ?thesis using inv gs Some by (simp add: execute_actionable_def)
  next
    case False
    show ?thesis
    proof (cases "acquire_recovery_batch_slots (ac_meanwhile env) gs i")
      case (Refused g)
      then have "g = gs \<or> g = ac_meanwhile env gs"
        by (auto simp: acquire_recovery_batch_slots_def Let_def split: if_splits option.splits)
      then show ?thesis using Refused Some False inv gs f by (auto simp: execute_actionable_def)
    next
      case Waiting
      then show ?thesis using f by simp
    next
      case (Acquired g1)
      then have b1: "balanced g1 1 1 (permit_of i)" "gs_limits g1 = gs_limits gs"
        using acquire_recovery_balanced f unfolding slots_inv_balanced by metis+
      obtain m where run: "execute_actionable lib env sn (gs, l, s) =
          (let fx = execute_fenced lib (ac_effects env) (count batch_execution_started g1) l s i (sn_id sn)
           in Some (release_permits i (g1\<lparr>gs_metrics := m\<rparr>), fx_ledger fx, fx_spool fx))"
        using execute_actionable_acquired [OF Some False Acquired, where lib = lib and l = l and s = s] by blast
      have "worker_ready (release_permits i (g1\<lparr>gs_metrics := m\<rparr>))"
        using release_permits_balanced [of "g1\<lparr>gs_metrics := m\<rparr>" i] b1 gs by (simp add: slots_inv_balanced)
      with run executed_ledger [OF inv lib] show ?thesis by (simp add: Let_def)
    qed
  qed
qed

lemma execute_candidates_returns:
  assumes "invar l" and "lib_jobs lib = jobs" and "worker_ready gs" and "\<And>k. fair_waiting (ac_meanwhile (env k))"
  shows "\<exists>gs' l' s'. execute_candidates lib env sns (gs, l, s) = Some (gs', l', s') \<and> invar l' \<and> worker_ready gs'"
  using assms(1,3)
proof (induction sns arbitrary: gs l s)
  case (Cons sn sns)
  obtain gs1 l1 s1 where one: "execute_actionable lib (env (length sns)) sn (gs, l, s) = Some (gs1, l1, s1)"
      "invar l1" "worker_ready gs1"
    using execute_actionable_returns [OF Cons.prems(1) assms(2) Cons.prems(2) assms(4)] by blast
  show ?case using Cons.IH [OF one(2,3)] one(1) by simp
qed simp

lemma drain_backlog_returns:
  assumes lib: "lib_jobs lib = jobs" and others: "\<And>n l. invar l \<Longrightarrow> invar (de_others (env n) l)"
    and fair: "\<And>n k. fair_waiting (ac_meanwhile (de_actions (env n) k))"
    and "invar l" and "worker_ready gs"
  shows "\<exists>gs' l' s' r. drain_backlog lib env head n cursor (gs, l, s) = Some ((gs', l', s'), r) \<and> invar l' \<and> worker_ready gs'"
  using assms(4,5)
proof (induction "card (keys_ahead key cursor head)" arbitrary: n cursor gs l s rule: less_induct)
  case less
  let ?l = "de_others (env n) l"
  have inv: "invar ?l" using others less.prems(1) by blast
  show ?case
  proof (cases "js_list_recovery_candidates_through jobs (de_list (env n)) ?l cursor head RESUME_PAGE_LIMIT")
    case (Err e)
    then show ?thesis using inv less.prems by (subst drain_backlog.simps) (simp add: lib Let_def)
  next
    case (Ok sns)
    obtain gs1 l1 s1 where run: "execute_candidates lib (de_actions (env n)) sns (gs, ?l, s) = Some (gs1, l1, s1)"
        "invar l1" "worker_ready gs1"
      using execute_candidates_returns [OF inv lib less.prems(2), where env = "de_actions (env n)", OF fair] by blast
    have "\<exists>gs' l' s' r. drain_backlog lib env head (Suc n) (Some (sn_id (last sns))) (gs1, l1, s1) = Some ((gs', l', s'), r) \<and>
        invar l' \<and> worker_ready gs'" if "sns \<noteq> []"
    proof -
      have "key (sn_id (last sns)) \<in> keys_ahead key cursor head"
        using page_order [OF inv Ok] last_in_set [OF that] by (auto simp: keys_ahead_def)
      then show ?thesis using less.hyps [OF keys_ahead_card run(2,3)] by blast
    qed
    then show ?thesis
      using run Ok by (subst drain_backlog.simps) (auto simp: lib Let_def split: result.split)
  qed
qed

end

section \<open>The PostgreSQL ledger\<close>

text \<open>The key of a job is its UUID, which is how the table is ordered.\<close>

definition job_key :: "('v, 't) codec \<Rightarrow> BatchJobId \<Rightarrow> uuid" where
  "job_key cd i = (case canonical_uuid cd i of Ok u \<Rightarrow> u | Err _ \<Rightarrow> 0)"

definition page_entries ::
  "('v, 't) db \<Rightarrow> uuid option \<Rightarrow> uuid option \<Rightarrow> (uuid \<times> ('v, 't) JobRecord) list" where
  "page_entries db after through =
     sort_key fst (filter (\<lambda>(k, r). recoverable_state (jr_state r)
       \<and> (case after of None \<Rightarrow> True | Some u \<Rightarrow> k > u)
       \<and> (case through of None \<Rightarrow> True | Some u \<Rightarrow> k \<le> u)) (db_table db))"

lemma sql_recovery_entries: "sql_recovery db after through n = map snd (take n (page_entries db after through))"
  by (simp add: sql_recovery_def page_entries_def take_map)

lemma page_entries_sorted:
  assumes "db_invar db"
  shows "sorted_wrt (\<lambda>a b. fst a < fst b) (page_entries db after through)"
proof -
  let ?P = "\<lambda>(k, r). recoverable_state (jr_state r) \<and> (case after of None \<Rightarrow> True | Some u \<Rightarrow> k > u)
       \<and> (case through of None \<Rightarrow> True | Some u \<Rightarrow> k \<le> u)"
  have "distinct (map fst (filter ?P (db_table db)))"
    using assms by (auto simp: db_invar_def intro: distinct_map_filter)
  then have "distinct (map fst (page_entries db after through))"
    by (simp add: page_entries_def distinct_map)
  moreover have "sorted (map fst (page_entries db after through))" by (simp add: page_entries_def)
  ultimately have "sorted_wrt (<) (map fst (page_entries db after through))" by (simp add: strict_sorted_iff)
  then show ?thesis by (simp add: sorted_wrt_map)
qed

lemma entry_row:
  assumes inv: "db_invar db" and "(k, rec) \<in> set (db_table db)" and "snapshot_of_record (db_codec db) rec = Ok sn"
  shows "job_key (db_codec db) (sn_id sn) = k"
proof -
  have "jr_job_id rec = k" and laws: "codec_laws (db_codec db)" using inv assms(2) by (auto simp: db_invar_def row_ok_def)
  then have "sn_id sn = cd_uuid_text (db_codec db) k" using snapshot_of_record_stored(2) [OF assms(3)] by simp
  then show ?thesis using canonical_of_text [OF laws] by (simp add: job_key_def)
qed

lemma record_state:
  assumes "record_of_snapshot cd sn = Ok rec"
  shows "jr_state rec = fst (flatten_state (job_state (sn_job sn)))"
proof -
  obtain st a c u where fl: "flatten_state (job_state (sn_job sn)) = (st, a, c, u)"
    by (cases "flatten_state (job_state (sn_job sn))")
  show ?thesis by (rule record_parts [OF assms fl]) (simp add: fl)
qed

lemma recoverable_stored:
  assumes "record_of_snapshot cd sn = Ok rec" and "is_recoverable (job_state (sn_job sn))"
  shows "recoverable_state (jr_state rec)"
  using assms(2) record_state [OF assms(1)]
  by (cases "job_state (sn_job sn)") (auto simp: recoverable_state_def is_recoverable_def is_actionable_def)

lemma pg_page:
  assumes "recovery_inner f db after (Some through) n = Ok sns"
  obtains after' through' where
    "map Ok sns = map (snapshot_of_record (db_codec db)) (map snd (take n (page_entries db after' (Some through'))))"
    "job_key (db_codec db) through = through'" "\<And>a. after = Some a \<Longrightarrow> after' = Some (job_key (db_codec db) a)"
    "after = None \<Longrightarrow> after' = None"
proof -
  obtain after' through' where a: "transpose_opt (map_option (pg_canonical_uuid (db_codec db)) after) = Ok after'"
    "pg_canonical_uuid (db_codec db) through = Ok through'"
    "collect_results (map (snapshot_of_record (db_codec db)) (sql_recovery db after' (Some through') n)) = Ok sns"
    using assms by (cases f) (auto simp: recovery_inner_def split: if_splits)
  show thesis
  proof (rule that [of after' through'])
    show "map Ok sns = map (snapshot_of_record (db_codec db)) (map snd (take n (page_entries db after' (Some through'))))"
      using a(3) by (simp add: collect_results_Ok_iff sql_recovery_entries)
    show "job_key (db_codec db) through = through'" using a(2) by (simp add: job_key_def pg_canonical_uuid_Ok)
    show "after' = Some (job_key (db_codec db) x)" if "after = Some x" for x
      using a(1) that by (auto simp: job_key_def pg_canonical_uuid_Ok)
    show "after = None \<Longrightarrow> after' = None" using a(1) by auto
  qed
qed

lemma page_snapshots:
  assumes inv: "db_invar db" and page: "map Ok sns = map (snapshot_of_record (db_codec db)) (map snd es)"
    and es: "set es \<subseteq> set (db_table db)"
  shows "map (\<lambda>sn. job_key (db_codec db) (sn_id sn)) sns = map fst es"
proof (rule nth_equalityI)
  show len: "length (map (\<lambda>sn. job_key (db_codec db) (sn_id sn)) sns) = length (map fst es)"
    using arg_cong [OF page, of length] by simp
  fix i assume i: "i < length (map (\<lambda>sn. job_key (db_codec db) (sn_id sn)) sns)"
  then have "snapshot_of_record (db_codec db) (snd (es ! i)) = Ok (sns ! i)"
    using arg_cong [OF page, of "\<lambda>xs. xs ! i"] len by simp
  moreover have "es ! i \<in> set (db_table db)" using subsetD [OF es nth_mem] i len by simp
  ultimately show "map (\<lambda>sn. job_key (db_codec db) (sn_id sn)) sns ! i = map fst es ! i"
    using entry_row [OF inv, of "fst (es ! i)" "snd (es ! i)" "sns ! i"] i len by simp
qed

lemma pg_page_order:
  assumes inv: "db_invar db" and listed: "recovery_inner f db after (Some through) n = Ok sns"
  shows "sorted_wrt (\<lambda>a b. job_key (db_codec db) (sn_id a) < job_key (db_codec db) (sn_id b)) sns \<and>
    (\<forall>sn \<in> set sns. job_key (db_codec db) (sn_id sn) \<le> job_key (db_codec db) through \<and>
       (\<forall>a. after = Some a \<longrightarrow> job_key (db_codec db) a < job_key (db_codec db) (sn_id sn)))"
proof -
  let ?key = "\<lambda>sn. job_key (db_codec db) (sn_id sn)"
  from listed obtain after' through' where page:
    "map Ok sns = map (snapshot_of_record (db_codec db)) (map snd (take n (page_entries db after' (Some through'))))"
    and thr: "job_key (db_codec db) through = through'"
    and aft: "\<And>a. after = Some a \<Longrightarrow> after' = Some (job_key (db_codec db) a)" by (rule pg_page) blast
  let ?es = "take n (page_entries db after' (Some through'))"
  have es: "set ?es \<subseteq> set (db_table db)"
    "\<forall>e \<in> set ?es. fst e \<le> through' \<and> (\<forall>u. after' = Some u \<longrightarrow> u < fst e)"
    by (auto simp: page_entries_def dest!: in_set_takeD split: option.splits)
  have keys: "map ?key sns = map fst ?es" by (rule page_snapshots [OF inv page es(1)])
  have "sorted_wrt (\<lambda>a b. fst a < fst b) ?es" using page_entries_sorted [OF inv] by (rule sorted_wrt_take)
  then have "sorted_wrt (<) (map ?key sns)" unfolding keys by (simp add: sorted_wrt_map)
  then have "sorted_wrt (\<lambda>a b. ?key a < ?key b) sns" by (simp add: sorted_wrt_map)
  moreover have "?key sn \<in> fst ` set ?es" if "sn \<in> set sns" for sn
    using that arg_cong [OF keys, of set] by auto
  ultimately show ?thesis using es(2) thr aft by fastforce
qed

lemma pg_page_complete:
  assumes inv: "db_invar db" and listed: "recovery_inner f db after (Some through) n = Ok sns"
    and row: "db_rows db i = Some sn" and rc: "is_recoverable (job_state (sn_job sn))"
    and range: "job_key (db_codec db) i \<le> job_key (db_codec db) through"
      "\<forall>a. after = Some a \<longrightarrow> job_key (db_codec db) a < job_key (db_codec db) i"
  shows "sn \<in> set sns \<or> n \<le> length sns \<and> (\<forall>t \<in> set sns. job_key (db_codec db) (sn_id t) < job_key (db_codec db) i)"
proof -
  let ?key = "\<lambda>sn. job_key (db_codec db) (sn_id sn)"
  from listed obtain after' through' where page:
    "map Ok sns = map (snapshot_of_record (db_codec db)) (map snd (take n (page_entries db after' (Some through'))))"
    and thr: "job_key (db_codec db) through = through'"
    and aft: "\<And>a. after = Some a \<Longrightarrow> after' = Some (job_key (db_codec db) a)" "after = None \<Longrightarrow> after' = None"
    by (rule pg_page) blast
  let ?all = "page_entries db after' (Some through')"
  let ?es = "take n ?all"
  from inv row obtain rec sn0 where rec: "map_of (db_table db) (jr_job_id rec) = Some rec"
    "canonical_uuid (db_codec db) i = Ok (jr_job_id rec)" "record_of_snapshot (db_codec db) sn0 = Ok rec"
    "sn = untyped sn0" by (rule db_rows_row)
  have dec: "snapshot_of_record (db_codec db) rec = Ok sn"
    using row rec(1,2) by (auto simp: db_rows_def split: result.splits)
  have k: "job_key (db_codec db) i = jr_job_id rec" using rec(2) by (simp add: job_key_def)
  have "recoverable_state (jr_state rec)"
    using recoverable_stored [OF rec(3)] rc rec(4) by (simp add: untyped_def)
  moreover have "(jr_job_id rec, rec) \<in> set (db_table db)" using rec(1) by (rule map_of_SomeD)
  ultimately have mem: "(jr_job_id rec, rec) \<in> set ?all"
    using range k thr aft by (cases after) (auto simp: page_entries_def)
  have es: "set ?es \<subseteq> set (db_table db)" by (auto simp: page_entries_def dest!: in_set_takeD)
  have keys: "map ?key sns = map fst ?es" by (rule page_snapshots [OF inv page es])
  show ?thesis
  proof (cases "(jr_job_id rec, rec) \<in> set ?es")
    case True
    then have "Ok sn \<in> set (map (snapshot_of_record (db_codec db)) (map snd ?es))" using dec by force
    then have "sn \<in> set sns" unfolding page [symmetric] by auto
    then show ?thesis ..
  next
    case False
    then have drop: "(jr_job_id rec, rec) \<in> set (drop n ?all)" using mem by (metis Un_iff append_take_drop_id set_append)
    have "sorted_wrt (\<lambda>a b. fst a < fst b) (?es @ drop n ?all)" using page_entries_sorted [OF inv] by simp
    then have "\<forall>e \<in> set ?es. fst e < jr_job_id rec" using drop unfolding sorted_wrt_append by force
    then have "\<forall>u \<in> set (map ?key sns). u < jr_job_id rec" unfolding keys by auto
    then have "\<forall>t \<in> set sns. ?key t < jr_job_id rec" by simp
    moreover have "n \<le> length sns"
      using drop arg_cong [OF keys, of length] by (cases "n \<le> length ?all") auto
    ultimately show ?thesis using k by simp
  qed
qed

lemma sorted_last_le: "sorted xs \<Longrightarrow> u \<in> set xs \<Longrightarrow> (u :: 'a :: linorder) \<le> last xs"
  by (induction xs) auto

lemma pg_head:
  assumes inv: "db_invar db" and head: "recovery_head f db = Ok head"
    and row: "db_rows db i = Some sn" and rc: "is_recoverable (job_state (sn_job sn))"
  shows "\<exists>h. head = Some h \<and> job_key (db_codec db) i \<le> job_key (db_codec db) h"
proof -
  let ?ids = "sort (map fst (filter (\<lambda>(k, r). recoverable_state (jr_state r)) (db_table db)))"
  from inv row obtain rec sn0 where rec: "map_of (db_table db) (jr_job_id rec) = Some rec"
    "canonical_uuid (db_codec db) i = Ok (jr_job_id rec)" "record_of_snapshot (db_codec db) sn0 = Ok rec"
    "sn = untyped sn0" by (rule db_rows_row)
  have laws: "codec_laws (db_codec db)" using inv by (simp add: db_invar_def)
  have "recoverable_state (jr_state rec)"
    using recoverable_stored [OF rec(3)] rc rec(4) by (simp add: untyped_def)
  moreover have "(jr_job_id rec, rec) \<in> set (db_table db)" using rec(1) by (rule map_of_SomeD)
  ultimately have mem: "jr_job_id rec \<in> set ?ids" by force
  then have ne: "?ids \<noteq> []" by (metis empty_iff empty_set)
  have "u \<le> last ?ids" if "u \<in> set ?ids" for u
    by (rule sorted_last_le) (use that in simp_all)
  with mem have le: "jr_job_id rec \<le> last ?ids" by blast
  have "head = Some (cd_uuid_text (db_codec db) (last ?ids))"
    using head ne by (cases f) (simp_all add: recovery_head_def Let_def)
  then show ?thesis
    using le rec(2) canonical_of_text [OF laws, of "last ?ids"] by (simp add: job_key_def)
qed

lemma insert_codec: "insert_inner f db i job a d k = (db', r) \<Longrightarrow> db_codec db' = db_codec db"
  by (auto simp: insert_inner_def sql_insert_def Let_def split: result.splits fault.splits if_splits prod.splits)

lemma cas_codec: "compare_and_swap_inner f db rv rp = (db', r) \<Longrightarrow> db_codec db' = db_codec db"
  by (auto simp: compare_and_swap_inner_def sql_update_def
      split: result.splits fault.splits if_splits prod.splits option.splits)

interpretation pgr: recovery_ledger postgres_store "\<lambda>db. db_invar db \<and> db_codec db = cd" db_rows "job_key cd"
  for cd :: "('v, 't) codec"
proof (unfold_locales, goal_cases)
  case 1 then show ?case using pg.load_law by blast
next
  case 2 then show ?case using pg.rows_law by blast
next
  case (3 l job f i a d k l' inserted)
  then show ?case
    using pg.insert_invar [of l job f i a d k l' inserted] insert_codec [of f l i job a d k l' inserted]
    by (simp add: postgres_store_def)
next
  case 4 then show ?case using pg.insert_rows by blast
next
  case 5 then show ?case using pg.insert_result by blast
next
  case (6 l rp f rv l' u)
  then show ?case
    using pg.cas_invar [of l rp f rv l' u] cas_codec [of f l rv rp l' u] by (simp add: postgres_store_def)
next
  case 7 then show ?case using pg.cas_rows by blast
next
  case 8 then show ?case using pg.cas_stored by blast
next
  case 9 then show ?case using pg.cas_refused by blast
next
  case 10 then show ?case using pg.list_law by blast
next
  case 11 then show ?case using pg.list_through_law by blast
next
  case (12 l f after through n sns)
  then show ?case using pg_page_order [of l f after through n sns] by (simp add: postgres_store_def)
next
  case (13 l f after through n sns i sn)
  then show ?case using pg_page_complete [of l f after through n sns i sn] by (simp add: postgres_store_def)
next
  case (14 l f head i sn)
  then show ?case using pg_head [of l f head i sn] by (simp add: postgres_store_def)
qed

section \<open>Properties\<close>

text \<open>C8: Startup reconciliation ends. On a well-formed PostgreSQL ledger, whatever faults the ledger and
  the spool show and whatever other processes write between the pages, \<open>reconcile_startup\<close> returns
  (a plan or a failure), and the ledger is still well-formed.
\<close>

theorem reconcile_startup_terminates:
  assumes "db_invar l" and "lib_jobs lib = postgres_store"
    and "\<forall>n db. db_invar db \<longrightarrow> db_invar (pe_others (env n) db) \<and> db_codec (pe_others (env n) db) = db_codec db"
  shows "\<exists>gs' l' s' r. reconcile_startup lib f env gs l s = Some (gs', l', s', r) \<and> db_invar l'"
proof (cases "js_recovery_head postgres_store f l")
  case (Err e)
  then show ?thesis using assms(1,2) by (simp add: reconcile_startup_def)
next
  case (Ok head)
  have "\<exists>l' s' r. reconcile_pages postgres_store (lib_spool lib) env through 0 l s None summary_default = Some (l', s', r) \<and>
      db_invar l' \<and> db_codec l' = db_codec l" for through
    using pgr.reconcile_pages_returns [of "db_codec l" env l "lib_spool lib" through 0 s None summary_default] assms(1,3)
    by auto
  note pages = this
  show ?thesis
  proof (cases head)
    case None
    then show ?thesis using Ok assms(1,2) by (simp add: reconcile_startup_def)
  next
    case (Some through)
    obtain l' s' r where "reconcile_pages postgres_store (lib_spool lib) env through 0 l s None summary_default = Some (l', s', r)"
      "db_invar l'" using pages by blast
    then show ?thesis
      using Ok Some assms(1,2) by (cases r; cases "first_batch_recognizer gs") (simp_all add: reconcile_startup_def)
  qed
qed

text \<open>C4: When startup reconciliation succeeds (and no other process writes meanwhile), the gateway is
  marked reconciled and no submission is left in doubt: every job that was \<open>Submitting\<close> is
  \<open>OutcomeUnknown\<close> with the reason \<open>InterruptedSubmission\<close> and the same attempt, identity, audio
  and key terms, and every other row is as it was. When it fails, the gateway is not marked.
\<close>

theorem startup_settles_submissions:
  assumes "db_invar l" and "lib_jobs lib = postgres_store" and "\<forall>n db. pe_others (env n) db = db"
    and "reconcile_startup lib f env gs l s = Some (gs', l', s', r)"
  shows "case r of
      Err _ \<Rightarrow> gs' = gs
    | Ok plan \<Rightarrow> gs_startup_reconciled gs' \<and>
        (\<forall>i. case db_rows l i of
             None \<Rightarrow> db_rows l' i = None
           | Some sn \<Rightarrow> if \<exists>a. job_state (sn_job sn) = Submitting a
                        then \<exists>st. db_rows l' i = Some st \<and> interrupted sn st
                        else db_rows l' i = Some sn)"
proof (cases r)
  case (Err e)
  then show ?thesis using assms(2,4)
    by (auto simp: reconcile_startup_def split: result.splits option.splits)
      (metis result.exhaust)
next
  case (Ok plan)
  have settled: "case db_rows l i of None \<Rightarrow> R i = None
      | Some sn \<Rightarrow> if \<exists>a. job_state (sn_job sn) = Submitting a then \<exists>st. R i = Some st \<and> interrupted sn st
                   else R i = Some sn"
    if "recovers (db_rows l) R D" "\<And>i sn a. db_rows l i = Some sn \<Longrightarrow> job_state (sn_job sn) = Submitting a \<Longrightarrow> i \<in> D" for i R D
  proof -
    have "if i \<in> D then \<exists>sn st. db_rows l i = Some sn \<and> R i = Some st \<and> interrupted sn st else R i = db_rows l i"
      using that(1) unfolding recovers_def by blast
    then show ?thesis using that(2) [of i] by (auto simp: interrupted_def split: option.splits if_splits)
  qed
  obtain head where head: "js_recovery_head postgres_store f l = Ok head"
    using assms(2,4) Ok by (auto simp: reconcile_startup_def split: result.splits)
  have upto: "\<exists>h. head = Some h \<and> job_key (db_codec l) i \<le> job_key (db_codec l) h"
    if "db_rows l i = Some sn" "job_state (sn_job sn) = Submitting a" for i sn a
    using pgr.head_law [of l "db_codec l" f head i sn] assms(1) head that by (simp add: is_recoverable_def)
  show ?thesis
  proof (cases head)
    case None
    have "l' = l" "gs' = mark_startup_reconciled gs"
      using assms(2,4) Ok head None by (auto simp: reconcile_startup_def)
    moreover have "recovers (db_rows l) (db_rows l) {}" by (rule recovers_refl)
    ultimately show ?thesis using settled [of "db_rows l" "{}"] upto None Ok by (fastforce simp: mark_startup_reconciled_def)
  next
    case (Some h)
    obtain fsm where pages: "reconcile_pages postgres_store (lib_spool lib) env h 0 l s None summary_default = Some (l', s', Ok fsm)"
      and gs': "gs' = mark_startup_reconciled gs"
      using assms(2,4) Ok head Some
      by (auto simp: reconcile_startup_def split: option.splits result.splits) (metis result.exhaust)
    obtain D where "recovers (db_rows l) (db_rows l') D"
      "\<forall>i sn a. db_rows l i = Some sn \<and> job_state (sn_job sn) = Submitting a \<and> job_key (db_codec l) i \<le> job_key (db_codec l) h \<longrightarrow> i \<in> D"
      using pgr.reconcile_pages_recovers [of env l "db_codec l" h None "lib_spool lib" 0 s summary_default l' s' fsm]
        assms(1,3) pages by (auto simp: keys_ahead_def)
    then show ?thesis using settled [of "db_rows l'" D] upto Some Ok gs' by (force simp: mark_startup_reconciled_def)
  qed
qed

text \<open>C9: The recovery of the backlog ends. On a well-formed PostgreSQL ledger and a gateway that has
  permits, \<open>drain_backlog\<close> returns for every provider answer, fault and write of other processes,
  provided that waiting is fair: the tasks that hold the permits the worker waits for end and give
  them back. The ledger is well-formed afterwards and all permits are accounted for.
\<close>

theorem drain_backlog_terminates:
  assumes "db_invar l" and "lib_jobs lib = postgres_store"
    and "slots_inv gs" and "0 < gl_live_connections (gs_limits gs)"
    and "\<forall>n db. db_invar db \<longrightarrow> db_invar (de_others (env n) db) \<and> db_codec (de_others (env n) db) = db_codec db"
    and "\<forall>n k. fair_waiting (ac_meanwhile (de_actions (env n) k))"
  shows "\<exists>gs' l' s' r. drain_backlog lib env head 0 None (gs, l, s) = Some ((gs', l', s'), r) \<and>
    db_invar l' \<and> slots_inv gs'"
  using pgr.drain_backlog_returns [of lib "db_codec l" env l gs head 0 None s] assms by auto

section \<open>A sample ledger\<close>

text \<open>One row, whose submission was interrupted.\<close>

definition quiet_page :: "'j page_env" where
  "quiet_page = \<lparr>pe_list = Healthy, pe_rows = (\<lambda>_. (Healthy, None)), pe_others = (\<lambda>l. l)\<rparr>"

lemma interrupted_ledger:
  "\<exists>db gs' l' s' plan. sample_db (Submitting 1) 1 db \<and>
     reconcile_startup sample_lib Healthy (\<lambda>_. quiet_page) sample_gateway db () = Some (gs', l', s', Ok plan)"
proof -
  let ?sn = "sample_job_in (Submitting 1) 1"
  obtain rec where rec: "record_of_snapshot sample_codec ?sn = Ok rec"
    using sample_encodes [of "Submitting 1" 1] by (auto simp: is_completed_def)
  have wf: "wf_job (sn_job ?sn)" by (rule sample_job_wf) simp
  have can: "canonical_uuid sample_codec [7] = Ok 7" by (simp add: canonical_uuid_def sample_codec_def)
  have key: "jr_job_id rec = 7" using record_fields(1) [OF rec] can by (simp add: sample_job_in_def)
  have dec: "snapshot_of_record sample_codec rec = Ok ?sn"
    using record_roundtrip_untyped [OF sample_codec_laws wf rec] by (simp add: sample_job_untyped)
  define db where "db = \<lparr>db_codec = sample_codec, db_table = [(7 :: uuid, rec)]\<rparr>"
  have rows: "db_rows db = [[7] \<mapsto> ?sn]"
  proof
    fix i
    show "db_rows db i = [[7] \<mapsto> ?sn] i"
    proof (cases "canonical_uuid sample_codec i = Ok 7")
      case True
      then have "i = [7]" using canonical_uuid_Ok [OF True] by (simp add: sample_codec_def)
      then show ?thesis using can dec by (simp add: db_rows_def db_def)
    next
      case False
      then have "i \<noteq> [7]" using can by auto
      then show ?thesis using False by (auto simp: db_rows_def db_def split: result.splits)
    qed
  qed
  have "db_invar db" unfolding db_invar_def row_ok_def db_def using sample_codec_laws key wf rec by auto
  then have sdb: "sample_db (Submitting 1) 1 db" using rows by (simp add: sample_db_def db_def)
  have st: "recoverable_state (jr_state rec)"
    by (rule recoverable_stored [OF rec]) (simp add: is_recoverable_def sample_job_in_def)
  have head: "js_recovery_head postgres_store Healthy db = Ok (Some [7])"
    using st by (simp add: postgres_store_def recovery_head_def db_def sample_codec_def)
  have list: "js_list_recovery_candidates_through postgres_store Healthy db None [7] RECOVERY_BATCH_LIMIT = Ok [?sn]"
  proof -
    have "pg_canonical_uuid sample_codec [7] = Ok 7" using can by (simp add: pg_canonical_uuid_Ok)
    then show ?thesis
      using st dec by (simp add: postgres_store_def recovery_inner_def db_def sql_recovery_def RECOVERY_BATCH_LIMIT_def)
  qed
  let ?unknown = "OutcomeUnknown 1 InterruptedSubmission"
  obtain db' where swap: "js_compare_and_swap postgres_store Healthy db 1 (sample_job_in ?unknown 1)
      = (db', Ok (Stored (sample_job_in ?unknown 2)))"
    using sample_swap [OF sdb, of ?unknown] by (auto simp: is_completed_def)
  have rp: "?sn\<lparr>sn_job := fst (recover_interrupted_submission (sn_job ?sn))\<rparr> = sample_job_in ?unknown 1"
    by (simp add: sample_job_in_def recover_interrupted_submission_def)
  have one: "reconcile_one postgres_store sample_spool Healthy None db () empty_recovery ?sn
      = (db', (), Ok (empty_recovery\<lparr>rec_recovered_unknown := [sample_job_in ?unknown 2]\<rparr>))"
  proof -
    have "reconcile_swap postgres_store Healthy db ?sn = (db', Ok (Stored (sample_job_in ?unknown 2)))"
      unfolding reconcile_swap_def rp using swap by (simp add: sample_job_in_def)
    then show ?thesis by (simp add: reconcile_one_def) (simp add: sample_job_in_def sample_spool_def empty_recovery_def)
  qed
  have page: "recover_startup_through postgres_store sample_spool Healthy (\<lambda>_. (Healthy, None)) db () None [7]
      = (db', (), Ok (empty_recovery\<lparr>rec_recovered_unknown := [sample_job_in ?unknown 2]\<rparr>))"
    using list one by (simp add: recover_startup_through_def reconcile_candidates_def bounded_candidates_def RECOVERY_BATCH_LIMIT_def)
  have "reconcile_pages postgres_store sample_spool (\<lambda>_. quiet_page) [7] 0 db () None summary_default
      = Some (db', (), Ok (summary_add summary_default (empty_recovery\<lparr>rec_recovered_unknown := [sample_job_in ?unknown 2]\<rparr>)))"
    by (subst reconcile_pages.simps) (simp add: quiet_page_def page empty_recovery_def)
  then show ?thesis
    using head sdb sample_gateway_batch
    by (auto simp: reconcile_startup_def sample_lib_def first_batch_recognizer_def)
qed

theorem startup_settles_submissions_witness:
  "\<exists>db gs' l' st. sample_db (Submitting 1) 1 db \<and> gs_startup_reconciled gs' \<and>
     (\<exists>plan. reconcile_startup sample_lib Healthy (\<lambda>_. quiet_page) sample_gateway db () = Some (gs', l', (), Ok plan)) \<and>
     db_rows l' [7] = Some st \<and> job_state (sn_job st) = OutcomeUnknown 1 InterruptedSubmission"
proof -
  obtain db gs' l' s' plan where db: "sample_db (Submitting 1) 1 db"
    and run: "reconcile_startup sample_lib Healthy (\<lambda>_. quiet_page) sample_gateway db () = Some (gs', l', s', Ok plan)"
    using interrupted_ledger by blast
  have "db_invar db" "db_rows db [7] = Some (sample_job_in (Submitting 1) 1)" using db by (simp_all add: sample_db_def)
  moreover have "lib_jobs sample_lib = postgres_store" by (simp add: sample_lib_def)
  ultimately have res: "gs_startup_reconciled gs' \<and> (\<forall>i. case db_rows db i of
             None \<Rightarrow> db_rows l' i = None
           | Some sn \<Rightarrow> if \<exists>a. job_state (sn_job sn) = Submitting a
                        then \<exists>st. db_rows l' i = Some st \<and> interrupted sn st
                        else db_rows l' i = Some sn)"
    using startup_settles_submissions [OF _ _ _ run] by (simp add: quiet_page_def)
  then have "\<exists>st. db_rows l' [7] = Some st \<and> interrupted (sample_job_in (Submitting 1) 1) st"
    using \<open>db_rows db [7] = _\<close> by (auto simp: sample_job_in_def dest!: spec [of _ "[7]"])
  with res run db show ?thesis by (auto simp: interrupted_def sample_job_in_def)
qed

theorem reconcile_startup_terminates_witness:
  "\<exists>db r. sample_db (Submitting 1) 1 db \<and>
     reconcile_startup sample_lib (LostReply (StoreUnavailable [])) (\<lambda>_. quiet_page) sample_gateway db () = Some r"
proof -
  obtain db where db: "sample_db (Submitting 1) 1 db" using interrupted_ledger by blast
  have "db_invar db" using db by (simp add: sample_db_def)
  moreover have "lib_jobs sample_lib = postgres_store" by (simp add: sample_lib_def)
  ultimately show ?thesis
    using db reconcile_startup_terminates [of db sample_lib "\<lambda>_. quiet_page" "LostReply (StoreUnavailable [])" sample_gateway "()"]
    by (auto simp: quiet_page_def)
qed

text \<open>Fair waiting: all other tasks end.\<close>

definition others_end :: "('b, 'l) GatewayState \<Rightarrow> ('b, 'l) GatewayState" where
  "others_end gs =
     gs\<lparr>gs_batch_tasks := [], gs_global_batch_slots := gl_live_connections (gs_limits gs),
        gs_batch_slots := gl_live_connections (gs_limits gs),
        gs_deepgram_batch_slots := provider_capacity (gs_limits gs),
        gs_elevenlabs_batch_slots := provider_capacity (gs_limits gs)\<rparr>"

lemma others_end_fair: "fair_waiting (others_end :: ('b, 'l) GatewayState \<Rightarrow> _)"
proof -
  have [simp]: "provider_capacity ls \<noteq> 0" for ls by (simp add: provider_capacity_def)
  have "acquire_recovery_batch_slots others_end gs i \<noteq> Waiting"
    if "0 < gl_live_connections (gs_limits gs)" for gs :: "('b, 'l) GatewayState" and i
    using that by (cases i) (auto simp: acquire_recovery_batch_slots_def others_end_def Let_def
        try_acquire_batch_slot_def try_acquire_provider_batch_slot_def)
  then show ?thesis by (simp add: fair_waiting_def slots_inv_def others_end_def)
qed

theorem drain_backlog_terminates_witness:
  "\<exists>db r. sample_db Accepted 0 db \<and>
     drain_backlog sample_lib (\<lambda>_. \<lparr>de_list = Healthy,
         de_actions = (\<lambda>_. \<lparr>ac_meanwhile = others_end, ac_read = None, ac_effects = sample_effects\<rparr>),
         de_others = (\<lambda>l. l)\<rparr>) [7] 0 None (sample_gateway, db, ()) = Some r"
proof -
  obtain db where db: "sample_db Accepted 0 db" using sample_insert by blast
  have "db_invar db" using db by (simp add: sample_db_def)
  moreover have "lib_jobs sample_lib = postgres_store" by (simp add: sample_lib_def)
  moreover have "slots_inv sample_gateway" unfolding sample_gateway_def by (rule slots_inv_new)
  moreover have "0 < gl_live_connections (gs_limits sample_gateway)" by (simp add: sample_gateway_def gateway_new_def)
  ultimately show ?thesis
    using db others_end_fair
      drain_backlog_terminates [of db sample_lib sample_gateway "\<lambda>_. \<lparr>de_list = Healthy,
         de_actions = (\<lambda>_. \<lparr>ac_meanwhile = others_end, ac_read = None, ac_effects = sample_effects\<rparr>),
         de_others = (\<lambda>l. l)\<rparr>" "[7]" "()"]
    by auto
qed

end
