(* ===== verification/Batch_Admission.thy ===== *)
theory Batch_Admission
  imports Startup_Recovery
begin

text \<open>
  Admission control of the batch handlers: how many tasks can run, what a refused request leaves
  behind, and how a repeated request is answered.
\<close>

section \<open>The handler conserves permits\<close>

lemma parse_multipart_balanced:
  assumes "parse_multipart jt limit multipart gs = (gs', r)" and "balanced gs 1 1 (\<lambda>_. 0)"
  shows "case r of
           Err _ \<Rightarrow> balanced gs' 1 1 (\<lambda>_. 0)
         | Ok form \<Rightarrow> \<exists>i. form_identity form = Ok i \<and> balanced gs' 1 1 (permit_of i)"
proof -
  have rest: "form_identity form = Ok i"
    if "identity_from_fields v p m la = Ok i" "parse_multipart_rest jt limit v p m la mp = Ok form" for v p m la mp form i
    using that by (auto simp: parse_multipart_rest_def form_identity_def split: if_splits)
  show ?thesis
    using assms acquire_provider [OF _ assms(2)] release_provider_balanced rest
    unfolding parse_multipart_def admission_rejected_def
    by (fastforce split: result.splits prod.splits option.splits if_splits)
qed

lemma post_admit_balanced:
  assumes "balanced gs 1 1 (permit_of i)"
  shows "balanced (fst (post_admit lib env gs l s key i request)) 0 0 (\<lambda>_. 0)"
  using assms release_permits_balanced [of _ i] spawn_balanced [of _ i]
  by (auto simp: post_admit_def Let_def split: prod.splits result.splits BatchAdmissionOutcome.splits BatchJobState.splits)

lemma admission_request_identity:
  "admission_request lib env gs key form = Ok (i, request) \<Longrightarrow> form_identity form = Ok i"
  by (auto simp: admission_request_def)

lemma post_balanced:
  assumes "balanced gs 0 0 (\<lambda>_. 0)"
  shows "balanced (fst (post lib env headers multipart gs l s)) 0 0 (\<lambda>_. 0)"
proof -
  let ?gs = "count batch_request gs"
  have one: "balanced g1 1 0 (\<lambda>_. 0)" if "try_acquire_global_batch_slot ?gs = Some g1" for g1
    using acquire_global [OF that] assms by simp
  have two: "balanced g2 1 1 (\<lambda>_. 0)"
    if "try_acquire_global_batch_slot ?gs = Some g1" "try_acquire_batch_slot g1 = Some g2" for g1 g2
    using acquire_batch [OF that(2)] one [OF that(1)] by simp
  have drop1: "balanced (release_global (count f g1)) 0 0 (\<lambda>_. 0)"
    if "try_acquire_global_batch_slot ?gs = Some g1" for f g1
    using release_global_balanced [of "count f g1" 0 0] one [OF that] by simp
  have form: "balanced (fst (case admission_request lib env g3 key form of
        Err e \<Rightarrow> (case form_identity form of Ok identity \<Rightarrow> release_permits identity g3
           | Err _ \<Rightarrow> release_batch (release_global g3), l, s, Err e)
      | Ok (identity, request) \<Rightarrow> post_admit lib env g3 l s key identity request)) 0 0 (\<lambda>_. 0)"
    if "form_identity form = Ok i" "balanced g3 1 1 (permit_of i)" for g3 key form i
    using that release_permits_balanced [OF that(2)] post_admit_balanced [OF that(2)]
      admission_request_identity [of lib env g3 key form]
    by (auto split: result.splits)
  show ?thesis
    unfolding post_def Let_def
    using assms drop1 two release_two parse_multipart_balanced form
    by (fastforce simp: admission_rejected_def split: result.splits option.splits prod.splits if_splits)
qed

section \<open>Runs of the gateway\<close>

text \<open>
  The end of a shutdown (\<open>shutdown_batch_tasks\<close> after its deadline): registration is closed and the
  tasks that still run are aborted; an aborted task drops its permits. The second value is their
  number. Tasks that end before the deadline are steps of their own.
\<close>

definition abort_batch_tasks :: "('b, 'l) GatewayState \<Rightarrow> ('b, 'l) GatewayState \<times> nat" where
  "abort_batch_tasks self =
     (fold (\<lambda>task. release_permits (bt_identity task)) (gs_batch_tasks self)
        (self\<lparr>gs_batch_tasks := [], gs_batch_task_registration_closed := True\<rparr>),
      length (gs_batch_tasks self))"

datatype ('b, 'l) gateway_op =
    PostBatch post_env HeaderMap Multipart
  | GetBatch fault HeaderMap str
  | TaskEnds nat "'b effect_env"
  | RecoverJob "('b, 'l) action_env" BatchJobSnapshot
  | BeginShutdown
  | DeadlinePasses

text \<open>
  One operation, run to its end. A step of the recovery worker happens when its permits are free.
\<close>

fun gateway_step ::
  "('b, 'j, 's) gateway_lib \<Rightarrow> ('b, 'l) gateway_op \<Rightarrow> ('b, 'l) GatewayState \<times> 'j \<times> 's
   \<Rightarrow> ('b, 'l) GatewayState \<times> 'j \<times> 's" where
  "gateway_step lib (PostBatch env headers multipart) (gs, l, s) =
     (case post lib env headers multipart gs l s of (gs', l', s', _) \<Rightarrow> (gs', l', s'))"
| "gateway_step lib (GetBatch f headers path) (gs, l, s) = (fst (get_job lib f headers path gs l), l, s)"
| "gateway_step lib (TaskEnds i env) (gs, l, s) =
     (let tasks = gs_batch_tasks gs in
      if i < length tasks
      then let fx = run_batch_task lib env (gs\<lparr>gs_batch_tasks := take i tasks @ drop (Suc i) tasks\<rparr>) l s (tasks ! i)
           in (fx_state fx, fx_ledger fx, fx_spool fx)
      else (gs, l, s))"
| "gateway_step lib (RecoverJob env snapshot) (gs, l, s) =
     (case execute_actionable lib (env\<lparr>ac_meanwhile := (\<lambda>gs. gs)\<rparr>) snapshot (gs, l, s) of
        Some st \<Rightarrow> st | None \<Rightarrow> (gs, l, s))"
| "gateway_step lib BeginShutdown (gs, l, s) = (begin_shutdown gs, l, s)"
| "gateway_step lib DeadlinePasses (gs, l, s) = (fst (abort_batch_tasks gs), l, s)"

text \<open>The limits never change.\<close>

lemma limits_simps [simp]:
  "gs_limits (count f gs) = gs_limits gs"
  "gs_limits (release_global gs) = gs_limits gs"
  "gs_limits (release_batch gs) = gs_limits gs"
  "gs_limits (release_provider i gs) = gs_limits gs"
  by (cases i; simp add: count_def release_global_def release_batch_def release_provider_def)+

lemma acquire_limits:
  "try_acquire_global_batch_slot gs = Some gs' \<Longrightarrow> gs_limits gs' = gs_limits gs"
  "try_acquire_batch_slot gs = Some gs' \<Longrightarrow> gs_limits gs' = gs_limits gs"
  "try_acquire_provider_batch_slot gs i = Some gs' \<Longrightarrow> gs_limits gs' = gs_limits gs"
  by (auto simp: try_acquire_global_batch_slot_def try_acquire_batch_slot_def try_acquire_provider_batch_slot_def
      split: if_splits BatchIdentity.splits)

lemma spawn_limits [simp]: "gs_limits (spawn_execution gs i job n) = gs_limits gs"
  by (simp add: spawn_execution_def spawn_batch_task_def)

lemma parse_multipart_limits: "gs_limits (fst (parse_multipart jt n mp gs)) = gs_limits gs"
  by (auto simp: parse_multipart_def admission_rejected_def dest: acquire_limits
      split: result.splits prod.splits option.splits)

lemma post_admit_limits: "gs_limits (fst (post_admit lib env gs l s key i request)) = gs_limits gs"
  by (auto simp: post_admit_def Let_def split: prod.splits result.splits BatchAdmissionOutcome.splits BatchJobState.splits)

text \<open>
  How a request ends: refused before its admission, with ledger and spool untouched, or admitted with
  a valid form in hand.
\<close>

lemma post_cases:
  assumes run: "post lib env headers multipart gs l s = (gs', l', s', r)"
  obtains (refused) e where "l' = l" and "s' = s" and "r = Err e" and "gs_limits gs' = gs_limits gs"
  | (admitted) key form g2 g3 identity request where
      "authenticate (lib_sha256 lib) headers (gs_auth gs) = Ok ()" and "gs_accepting_work gs"
      and "parse_idempotency_key headers = Ok key" and "\<not> pe_deadline_exceeded env"
      and "parse_multipart (lib_json lib) (gl_batch_upload_bytes (gs_limits gs)) multipart g2 = (g3, Ok form)"
      and "gs_limits g3 = gs_limits gs" and "gs_profiles g2 = gs_profiles gs"
      and "admission_request lib env g3 key form = Ok (identity, request)"
      and "post_admit lib env g3 l s key identity request = (gs', l', s', r)"
proof (cases "authenticate (lib_sha256 lib) headers (gs_auth gs)")
  case (Err e)
  then show thesis using run by (auto simp: post_def intro: refused)
next
  case auth: (Ok u)
  note run = run [unfolded post_def auth result.case Let_def]
  show thesis
  proof (cases "try_acquire_global_batch_slot (count batch_request gs)")
    case None
    then show thesis using run by (auto simp: admission_rejected_def intro: refused)
  next
    case g1: (Some g1)
    then have l1: "gs_limits g1 = gs_limits gs" "gs_profiles g1 = gs_profiles gs" "gs_accepting_work gs"
      by (auto simp: try_acquire_global_batch_slot_def count_def split: if_splits)
    show thesis
    proof (cases "try_acquire_batch_slot g1")
      case None
      then show thesis using run g1 l1 by (auto simp: admission_rejected_def intro: refused)
    next
      case g2: (Some g2)
      then have l2: "gs_limits g2 = gs_limits gs" "gs_profiles g2 = gs_profiles gs"
        using l1 by (auto simp: try_acquire_batch_slot_def split: if_splits)
      note run = run [unfolded g1 g2 option.case]
      show thesis
      proof (cases "parse_idempotency_key headers")
        case (Err e)
        then show thesis using run l2 by (auto intro: refused)
      next
        case key: (Ok key)
        show thesis
        proof (cases "pe_deadline_exceeded env")
          case True
          then show thesis using run key l2 by (auto intro: refused)
        next
          case False
          obtain g3 fr where mp: "parse_multipart (lib_json lib) (gl_batch_upload_bytes (gs_limits gs)) multipart g2 = (g3, fr)"
            by fastforce
          then have l3: "gs_limits g3 = gs_limits gs"
            using parse_multipart_limits [of "lib_json lib" "gl_batch_upload_bytes (gs_limits gs)" multipart g2] l2 by simp
          note run = run [unfolded key result.case l2(1) mp prod.case]
          show thesis
          proof (cases fr)
            case (Err e)
            then show thesis using run False l3 by (auto intro: refused)
          next
            case form: (Ok form)
            show thesis
            proof (cases "admission_request lib env g3 key form")
              case (Err e)
              then show thesis using run form False l3 by (auto split: result.splits intro: refused)
            next
              case (Ok ir)
              then show thesis
                using run form False auth l1(3) key mp l3 l2(2) admitted by (cases ir) simp
            qed
          qed
        qed
      qed
    qed
  qed
qed

lemma post_limits: "gs_limits (fst (post lib env headers mp gs l s)) = gs_limits gs"
proof -
  obtain gs' l' s' r where run: "post lib env headers mp gs l s = (gs', l', s', r)" by (metis surj_pair)
  then have "gs_limits gs' = gs_limits gs"
  proof (cases rule: post_cases)
    case (admitted key form g2 g3 identity request)
    then show ?thesis using post_admit_limits [of lib env g3 l s key identity request] by simp
  qed
  with run show ?thesis by simp
qed

section \<open>Every operation conserves permits\<close>

lemma get_job_balanced: "balanced (fst (get_job lib f headers path gs l)) g b p = balanced gs g b p"
  and get_job_limits: "gs_limits (fst (get_job lib f headers path gs l)) = gs_limits gs"
  by (auto simp: get_job_def Let_def split: result.splits option.splits)

lemma run_batch_task_state:
  obtains m where "fx_state (run_batch_task lib env gs l s t) = release_permits (bt_identity t) (gs\<lparr>gs_metrics := m\<rparr>)"
proof -
  let ?fx = "execute_fenced lib env (count batch_execution_started gs) l s (bt_identity t) (bt_job t)"
  obtain m where m: "fx_state ?fx = gs\<lparr>gs_metrics := m\<rparr>"
    using fenced_state [of lib env "count batch_execution_started gs" l s "bt_identity t" "bt_job t"]
    by (auto simp: count_def)
  have "\<exists>m. fx_state (run_batch_task lib env gs l s t) = release_permits (bt_identity t) (gs\<lparr>gs_metrics := m\<rparr>)"
    using m by (auto simp: run_batch_task_def Let_def count_def split: option.splits result.splits BatchExecutionOutcome.splits)
  then show thesis using that by blast
qed

lemma task_removed_balanced:
  assumes "balanced gs 0 0 (\<lambda>_. 0)" and "i < length (gs_batch_tasks gs)"
  shows "balanced (gs\<lparr>gs_batch_tasks := take i (gs_batch_tasks gs) @ drop (Suc i) (gs_batch_tasks gs)\<rparr>) 1 1
    (permit_of (bt_identity (gs_batch_tasks gs ! i)))"
proof -
  let ?ts = "gs_batch_tasks gs"
  have ts: "?ts = take i ?ts @ ?ts ! i # drop (Suc i) ?ts" using assms(2) by (rule id_take_nth_drop)
  let ?gs = "gs\<lparr>gs_batch_tasks := take i ?ts @ drop (Suc i) ?ts\<rparr>"
  define n where "n = length ?ts - 1"
  have n: "length (gs_batch_tasks ?gs) = n" "length ?ts = Suc n" using assms(2) by (simp_all add: n_def)
  have tasks: "tasks_of gs j = tasks_of ?gs j + permit_of (bt_identity (?ts ! i)) j" for j
  proof -
    have "tasks_of gs j = length (filter (\<lambda>t. bt_identity t = j) (take i ?ts @ ?ts ! i # drop (Suc i) ?ts))"
      unfolding tasks_of_def using arg_cong [OF ts] by metis
    then show ?thesis by (simp add: tasks_of_def)
  qed
  have bal: "provider_slots gs j + tasks_of gs j = provider_capacity (gs_limits gs)" for j
    using assms(1) by (simp add: balanced_def)
  have prov: "\<forall>j. provider_slots ?gs j + tasks_of ?gs j + permit_of (bt_identity (?ts ! i)) j
      = provider_capacity (gs_limits ?gs)"
  proof
    fix j
    have "provider_slots gs j + (tasks_of ?gs j + permit_of (bt_identity (?ts ! i)) j) = provider_capacity (gs_limits gs)"
      using bal [of j] unfolding tasks [of j] .
    then show "provider_slots ?gs j + tasks_of ?gs j + permit_of (bt_identity (?ts ! i)) j
        = provider_capacity (gs_limits ?gs)"
      unfolding provider_slots_other add.assoc by (rule trans) simp
  qed
  have "gs_global_batch_slots ?gs + length (gs_batch_tasks ?gs) + 1 = gl_live_connections (gs_limits ?gs)"
    "gs_batch_slots ?gs + length (gs_batch_tasks ?gs) + 1 = gl_live_connections (gs_limits ?gs)"
    unfolding n(1) using assms(1) n(2) by (simp_all add: balanced_def)
  with prov show ?thesis unfolding balanced_def by blast
qed

lemma fold_release_balanced:
  "balanced gs (length ts) (length ts) (\<lambda>i. length (filter (\<lambda>t. bt_identity t = i) ts)) \<Longrightarrow>
     balanced (fold (\<lambda>t. release_permits (bt_identity t)) ts gs) 0 0 (\<lambda>_. 0)
     \<and> gs_limits (fold (\<lambda>t. release_permits (bt_identity t)) ts gs) = gs_limits gs"
proof (induction ts arbitrary: gs)
  case (Cons t ts)
  have "balanced (release_permits (bt_identity t) gs) (length ts) (length ts)
      (\<lambda>i. length (filter (\<lambda>t. bt_identity t = i) ts))"
    using Cons.prems by (cases "bt_identity t") (auto simp: balanced_defs release_permits_def release_provider_def
        release_batch_def release_global_def)
  then show ?case using Cons.IH by simp
qed simp

lemma abort_balanced:
  assumes "balanced gs 0 0 (\<lambda>_. 0)"
  shows "balanced (fst (abort_batch_tasks gs)) 0 0 (\<lambda>_. 0) \<and> gs_limits (fst (abort_batch_tasks gs)) = gs_limits gs"
proof -
  let ?ts = "gs_batch_tasks gs" and ?gs = "gs\<lparr>gs_batch_tasks := [], gs_batch_task_registration_closed := True\<rparr>"
  have slots: "provider_slots ?gs i = provider_slots gs i" for i by (cases i) simp_all
  then have "balanced ?gs (length ?ts) (length ?ts) (\<lambda>i. length (filter (\<lambda>t. bt_identity t = i) ?ts))"
    using assms by (simp add: balanced_def tasks_of_def)
  from fold_release_balanced [OF this] show ?thesis by (simp add: abort_batch_tasks_def)
qed

lemma execute_actionable_balanced:
  assumes "balanced gs 0 0 (\<lambda>_. 0)" and "ac_meanwhile env = (\<lambda>gs. gs)"
    and "execute_actionable lib env sn (gs, l, s) = Some (gs', l', s')"
  shows "balanced gs' 0 0 (\<lambda>_. 0) \<and> gs_limits gs' = gs_limits gs"
proof (cases "identity_for_profile (job_profile (sn_job sn))")
  case None
  then show ?thesis using assms by (simp add: execute_actionable_def)
next
  case (Some i)
  show ?thesis
  proof (cases "acquire_recovery_batch_slots (\<lambda>gs. gs) gs i")
    case (Refused g)
    then have "g = gs" by (auto simp: acquire_recovery_batch_slots_def Let_def split: if_splits option.splits)
    then show ?thesis using assms Some Refused by (auto simp: execute_actionable_def split: if_splits)
  next
    case Waiting
    then show ?thesis using assms Some by (auto simp: execute_actionable_def split: if_splits)
  next
    case (Acquired g1)
    have b1: "balanced g1 1 1 (permit_of i)" "gs_limits g1 = gs_limits gs"
      using acquire_recovery_balanced [OF Acquired] assms(1) by blast+
    have "gs' = gs \<or> (\<exists>m3. gs' = release_permits i (g1\<lparr>gs_metrics := m3\<rparr>))"
    proof (cases "registry_batch (gs_profiles gs) i = None")
      case True
      then show ?thesis using assms(3) Some by (simp add: execute_actionable_def)
    next
      case False
      then show ?thesis
        using execute_actionable_acquired [OF Some False Acquired [folded assms(2)], where lib = lib and l = l and s = s] assms(3)
        by (auto simp: Let_def)
    qed
    moreover have "balanced (release_permits i (g1\<lparr>gs_metrics := m3\<rparr>)) 0 0 (\<lambda>_. 0)" for m3
      by (rule release_permits_balanced) (use b1(1) in simp)
    ultimately show ?thesis using b1(2) assms(1) by auto
  qed
qed

lemma gateway_step_balanced:
  assumes "balanced gs 0 0 (\<lambda>_. 0)" and "gateway_step lib op (gs, l, s) = (gs', l', s')"
  shows "balanced gs' 0 0 (\<lambda>_. 0) \<and> gs_limits gs' = gs_limits gs"
proof (cases op)
  case (PostBatch env headers multipart)
  then show ?thesis
    using assms post_balanced [OF assms(1), of lib env headers multipart l s] post_limits [of lib env headers multipart gs l s]
    by (auto split: prod.splits)
next
  case (GetBatch f headers path)
  then show ?thesis using assms by (auto simp: get_job_balanced get_job_limits)
next
  case (TaskEnds i env)
  show ?thesis
  proof (cases "i < length (gs_batch_tasks gs)")
    case True
    let ?gs = "gs\<lparr>gs_batch_tasks := take i (gs_batch_tasks gs) @ drop (Suc i) (gs_batch_tasks gs)\<rparr>"
    let ?t = "gs_batch_tasks gs ! i"
    obtain m where "fx_state (run_batch_task lib env ?gs l s ?t) = release_permits (bt_identity ?t) (?gs\<lparr>gs_metrics := m\<rparr>)"
      by (rule run_batch_task_state)
    then have "gs' = release_permits (bt_identity ?t) (?gs\<lparr>gs_metrics := m\<rparr>)"
      using assms(2) TaskEnds True by (simp add: Let_def)
    then show ?thesis
      using release_permits_balanced [of "?gs\<lparr>gs_metrics := m\<rparr>" "bt_identity ?t"] task_removed_balanced [OF assms(1) True]
      by simp
  qed (use assms TaskEnds in auto)
next
  case (RecoverJob env sn)
  then show ?thesis
    using assms execute_actionable_balanced [OF assms(1), of "env\<lparr>ac_meanwhile := (\<lambda>gs. gs)\<rparr>" lib sn l s]
    by (auto split: option.splits)
next
  case BeginShutdown
  then show ?thesis using assms by (auto simp: begin_shutdown_def)
next
  case DeadlinePasses
  then show ?thesis using assms abort_balanced by auto
qed

lemma run_balanced:
  assumes "balanced gs 0 0 (\<lambda>_. 0)" and "fold (gateway_step lib) ops (gs, l, s) = (gs', l', s')"
  shows "balanced gs' 0 0 (\<lambda>_. 0) \<and> gs_limits gs' = gs_limits gs"
  using assms
proof (induction ops arbitrary: gs l s)
  case (Cons op ops)
  obtain gs1 l1 s1 where step: "gateway_step lib op (gs, l, s) = (gs1, l1, s1)" by (metis surj_pair)
  show ?case
    using gateway_step_balanced [OF Cons.prems(1) step] Cons.IH [of gs1 l1 s1] Cons.prems(2) step by simp
qed simp

section \<open>Properties\<close>

text \<open>C6: Admission control conserves permits. From a fresh gateway, after any sequence of batch
  requests, queries, task ends, recovery executions and shutdown steps, with any faults and answers,
  the free permits of each of the four batch semaphores and the registered tasks add up to the
  configured capacity, so at most \<open>live_connections\<close> tasks run, at most \<open>provider_capacity\<close> of them
  for one provider, and no permit is lost or given back twice.
\<close>

theorem permits_conserved:
  "case fold (gateway_step lib) ops (gateway_new auth profiles limits, l, s) of (gs, l', s') \<Rightarrow>
     slots_inv gs \<and> gs_limits gs = limits \<and>
     length (gs_batch_tasks gs) \<le> gl_live_connections limits \<and>
     tasks_of gs DeepgramNova3MultiV2 \<le> provider_capacity limits \<and>
     tasks_of gs ElevenlabsScribeV2MultiV3 \<le> provider_capacity limits"
proof -
  obtain gs l' s' where run: "fold (gateway_step lib) ops (gateway_new auth profiles limits, l, s) = (gs, l', s')"
    by (metis surj_pair)
  have "balanced (gateway_new auth profiles limits) 0 0 (\<lambda>_. 0)" using slots_inv_new by (simp only: slots_inv_balanced)
  from run_balanced [OF this run] have b: "balanced gs 0 0 (\<lambda>_. 0)" "gs_limits gs = limits"
    by (simp_all add: gateway_new_def)
  then have "gs_global_batch_slots gs + length (gs_batch_tasks gs) = gl_live_connections limits"
    "provider_slots gs i + tasks_of gs i = provider_capacity limits" for i
    by (simp_all add: balanced_def)
  then have "length (gs_batch_tasks gs) \<le> gl_live_connections limits" "tasks_of gs i \<le> provider_capacity limits" for i
    by (metis le_add2)+
  with b run show ?thesis by (simp add: slots_inv_balanced)
qed


lemma admission_request_id:
  assumes "admission_request lib env gs key form = Ok (identity, request)"
  shows "bar_id request = uuid_text (lib_uuid lib) (deterministic_job_id (lib_new_v5 lib) key)"
    and "bar_profile request = batch_profile identity"
  using assms by (auto simp: admission_request_def)

lemma admit_existing:
  assumes "js_load jobs (ae_load env) l (bar_id request) = Ok (Some existing)"
  shows "admit jobs spool env l s request = (l, s, classify_existing existing request)"
  using assms by (simp add: admit_def admit_load_def)



end
