(* ===== verification/Spec2Isabelle.thy ===== *)
theory Spec2Isabelle
  imports Postgres_Store Live_Coordinator Capabilities Deepgram_Timeline Live_Pipeline Identity Batch_Wire
    Ogg_Container Discord_Opus Gateway_State Batch_Admission
begin

text \<open>
  Verification of the VoiceText gateway.

  \<^bold>\<open>The program.\<close> The gateway accepts speech over two transports and passes it to one of two
  paid providers, Deepgram and ElevenLabs. A \<^emph>\<open>batch\<close> request is an Ogg Opus upload with an
  idempotency key: it becomes a durable job in a PostgreSQL ledger, its audio goes to a spool, a task
  claims the job, calls the provider once and persists the outcome; clients poll the job. A
  \<^emph>\<open>live\<close> request is a WebSocket session: audio frames are decoded, written to the provider and
  acknowledged, and transcripts come back while a gateway-side clock checks their timing. The crates
  are \<^verbatim>\<open>voicetext-speech\<close> (domain and application rules), \<^verbatim>\<open>voicetext-audio\<close> (containers and
  decoding), \<^verbatim>\<open>voicetext-providers\<close> (adapters) and \<^verbatim>\<open>voicetext-gateway\<close> (contracts, storage,
  server).

  \<^bold>\<open>Shared theories.\<close> \<^verbatim>\<open>Prelude\<close> has Rust results and machine integers, \<^verbatim>\<open>Rust_Text\<close> strings as
  lists of Unicode scalars with their UTF-8 and UTF-16 lengths, \<^verbatim>\<open>Encodings\<close> the injectivity of
  these encodings and UTF-8 decoding, \<^verbatim>\<open>Rust_Float\<close> and \<^verbatim>\<open>Float64\<close> floats and rounding to
  binary64, \<^verbatim>\<open>Json\<close> the JSON values of \<open>serde_json\<close>.

  \<^bold>\<open>Batch jobs.\<close> \<^verbatim>\<open>Batch_Domain\<close> is \<^verbatim>\<open>speech/src/domain/batch.rs\<close>: the job state machine with
  every transition; its lemmas show that it refines the abstract lifecycle and that attempts count
  submissions. \<^verbatim>\<open>Ports\<close> is the data of \<^verbatim>\<open>application/ports.rs\<close>. \<^verbatim>\<open>Batch_Models\<close>
  (\<^verbatim>\<open>application/batch_models.rs\<close>) validates provider results and maps provider answers to job
  states; the validator is shown equivalent to a declarative contract. \<^verbatim>\<open>Batch_Coordinator\<close>
  (\<^verbatim>\<open>application/batch.rs\<close> and \<^verbatim>\<open>batch_recovery.rs\<close>) has admission, execution and startup recovery,
  split at every \<open>await\<close>, over stores given as records of operations. \<^verbatim>\<open>Batch_System\<close> interleaves
  these phases for any number of workers, with lost requests and lost replies; its locale
  \<open>job_ledger\<close> states what a ledger promises. \<^verbatim>\<open>Records\<close> (\<^verbatim>\<open>gateway/src/storage/records.rs\<close> and
  \<^verbatim>\<open>records/result_validation.rs\<close>) is the row codec with its round trip. \<^verbatim>\<open>Postgres_Store\<close>
  (\<^verbatim>\<open>storage/postgres.rs\<close>) is the ledger over a table, interprets \<open>job_ledger\<close> and carries the
  headline theorems: a job is never submitted twice without a durable retryable rejection in between,
  and the ledger refines the job lifecycle. \<^verbatim>\<open>Capabilities\<close> (\<^verbatim>\<open>application/batch_capabilities.rs\<close>,
  \<^verbatim>\<open>live_capabilities.rs\<close>) is equivalent to a declarative reading of the descriptors.

  \<^bold>\<open>The batch service.\<close> \<^verbatim>\<open>Batch_Service\<close> and \<^verbatim>\<open>Batch_Server\<close> (\<^verbatim>\<open>server/batch.rs\<close>) are the HTTP
  handlers of \<open>POST\<close> and \<open>GET\<close>, split at every \<open>await\<close> like the coordinator: authentication, the
  audio and batch slots, the multipart body, admission and the replies. \<^verbatim>\<open>Permits\<close> counts the slots a
  request takes and gives back; \<^verbatim>\<open>Batch_Admission\<close> interleaves any number of requests with the tasks
  they start and shows that no slot is lost or doubled, that only valid requests are stored and that a
  repeated key is answered from the stored job. \<^verbatim>\<open>Batch_Effects\<close> (\<^verbatim>\<open>server/effects.rs\<close>) accounts for every
  provider call of a job in the ledger of effects, \<^verbatim>\<open>Qualification\<close>
  (\<^verbatim>\<open>server/qualification_observation.rs\<close>) is the evidence record of a qualification run, and
  \<^verbatim>\<open>Startup_Recovery\<close> (\<^verbatim>\<open>server/recovery.rs\<close>) is what happens before the gateway serves: every
  submission that was in flight is settled, then the backlog is drained. Its loops read the ledger page
  by page and are \<open>partial_function\<close>s, as nothing in them bounds the number of pages; the theorems
  that they return rest on the locale \<open>recovery_ledger\<close>, which extends \<open>job_ledger\<close>: the key of a
  page strictly advances in a finite set of keys.

  \<^bold>\<open>Requests and responses.\<close> \<^verbatim>\<open>Identity\<close> (\<^verbatim>\<open>identity.rs\<close>): idempotency keys, canonical key terms
  and the request fingerprint, which binds every part of a request. \<^verbatim>\<open>Contracts_Live\<close> and
  \<^verbatim>\<open>Contracts_Batch\<close> (\<^verbatim>\<open>contracts/\<close>) are the wire contracts as the gateway writes them and as the
  client reads them; \<^verbatim>\<open>Batch_Wire\<close> shows that the client reads back every response.
  \<^verbatim>\<open>Gateway_Http\<close> (\<^verbatim>\<open>server/error.rs\<close>, \<^verbatim>\<open>auth.rs\<close>, \<^verbatim>\<open>secret.rs\<close>), \<^verbatim>\<open>Profiles\<close> (\<^verbatim>\<open>profiles.rs\<close>)
  and \<^verbatim>\<open>Gateway_State\<close> (\<^verbatim>\<open>server/state.rs\<close>, \<^verbatim>\<open>server/metrics.rs\<close>) are the HTTP boundary, the
  selection of a recognizer and the shared state with its admission slots.

  \<^bold>\<open>Audio.\<close> \<^verbatim>\<open>Ogg_Opus\<close> and \<^verbatim>\<open>Ogg_Container\<close> (\<^verbatim>\<open>audio/src/ogg_opus.rs\<close>) validate uploads: the
  scan accepts exactly one complete chain of pages, and the authoritative duration is the audio that
  is there. \<^verbatim>\<open>Discord_Opus\<close> (\<^verbatim>\<open>discord_opus.rs\<close>) decodes live audio.

  \<^bold>\<open>Live sessions.\<close> \<^verbatim>\<open>Live_Domain\<close> (\<^verbatim>\<open>domain/live.rs\<close>) is the session state machine;
  \<^verbatim>\<open>Live_Timeline\<close> (\<^verbatim>\<open>application/live_timeline.rs\<close>) the clock of accepted audio;
  \<^verbatim>\<open>Live_Coordinator\<close> (\<^verbatim>\<open>application/live.rs\<close>) composes them and is shown to refine the session.
  \<^verbatim>\<open>Elevenlabs_Live_State\<close> (\<^verbatim>\<open>elevenlabs/live_state.rs\<close>) synthesises the timeline of that provider
  and reconciles its transcripts; \<^verbatim>\<open>Live_Pipeline\<close> shows that its events always pass the clock.
  \<^verbatim>\<open>Deepgram_Timeline\<close> (\<^verbatim>\<open>deepgram/timeline.rs\<close>) normalises the segments of the other one.

  \<^bold>\<open>Conventions.\<close> A struct is a record with prefixed fields, an enum a datatype, a method with
  \<open>&mut self\<close> a function that returns the new receiver, an error an \<open>Err\<close> value, \<open>u8\<close> to \<open>u64\<close> are
  words and \<open>usize\<close> is a natural number with its limit written out. What is not in the repository is
  an argument: \<open>serde_json\<close> text, the \<open>uuid\<close> crate, SHA-256, \<open>libopus\<close>, the Ogg packet reader, Unicode
  tables, provider answers, faults of the store and of the spool. Loops are total functions with a
  measure or structural recursion, or \<open>partial_function (option)\<close> with a theorem that they return; no
  fuel is used.

  \<^bold>\<open>Not modelled.\<close> Socket and HTTP transport of the provider adapters, the WebSocket handlers of the
  live server with their timers and task supervision, shutdown draining, secret files and the file
  sink of the qualification records, database connections and migrations, configuration and process start, readiness probes, the text of the metrics page and the
  build tools: they are I/O around the logic above, or do not influence jobs and sessions.
\<close>

end
